(* ===== verification/Prelude.thy ===== *)
theory Prelude
  imports Complex_Main "HOL-Library.AList"
begin

section \<open>Prelude\<close>

text \<open>
  What every component shares.

  \<^item> JavaScript's \<open>Map\<close>: an association list in insertion order with distinct keys
    (\<open>AList.update\<close> replaces in place or appends, as \<open>Map.prototype.set\<close> does,
    \<open>AList.delete\<close> removes), and \<open>map_modify\<close> for code that looks an object up and
    then mutates it in place.
  \<^item> JavaScript's string helpers the sources call (\<open>startsWith\<close>, \<open>includes\<close>, \<open>join\<close>).
  \<^item> Exceptions as values: \<open>'e + 'a\<close>, with \<open>Inl\<close> for the thrown value, and \<open>bindR\<close>
    for "go on unless something was thrown".
  \<^item> Transition systems: reachable states, and a locale with the invariant rule that the
    step relations of the components instantiate.
\<close>

named_theorems js_map \<open>facts on insertion-ordered maps\<close>
named_theorems js_string \<open>facts on JavaScript string helpers\<close>

declare Let_def [simp]

subsection \<open>Insertion-ordered maps\<close>

type_synonym 'v jsmap = "(string \<times> 'v) list"

definition map_modify :: "'k \<Rightarrow> ('v \<Rightarrow> 'v) \<Rightarrow> ('k \<times> 'v) list \<Rightarrow> ('k \<times> 'v) list" where
  "map_modify k f m = map (\<lambda>(k', v). (k', if k' = k then f v else v)) m"

abbreviation map_keys :: "('k \<times> 'v) list \<Rightarrow> 'k list" where
  "map_keys m \<equiv> map fst m"

abbreviation map_values :: "('k \<times> 'v) list \<Rightarrow> 'v list" where
  "map_values m \<equiv> map snd m"

lemma map_modify_Nil [simp]: "map_modify k f [] = []"
  by (simp add: map_modify_def)

lemma map_modify_Cons [simp]:
  "map_modify k f (p # m) = (fst p, if fst p = k then f (snd p) else snd p) # map_modify k f m"
  by (simp add: map_modify_def split: prod.splits)

lemma map_keys_modify [simp, js_map]: "map_keys (map_modify k f m) = map_keys m"
  by (induction m) auto

lemma fst_image_modify [simp, js_map]: "fst ` set (map_modify k f m) = fst ` set m"
  using map_keys_modify [of k f m] by (metis list.set_map)

lemma length_map_modify [simp, js_map]: "length (map_modify k f m) = length m"
  by (simp add: map_modify_def)

lemma map_of_modify [js_map]:
  "map_of (map_modify k f m) k' = (if k' = k then map_option f (map_of m k) else map_of m k')"
  by (induction m) auto

lemma map_modify_absent [js_map]: "k \<notin> set (map_keys m) \<Longrightarrow> map_modify k f m = m"
  by (induction m) auto

lemma set_map_modify:
  "set (map_modify k f m) = (\<lambda>(k', v). (k', if k' = k then f v else v)) ` set m"
  by (simp add: map_modify_def)

lemma map_keys_delete_distinct [js_map]:
  "distinct (map_keys m) \<Longrightarrow> distinct (map_keys (AList.delete k m))"
  by (rule distinct_delete)

lemma set_delete_conv [js_map]: "set (AList.delete k m) = {p \<in> set m. fst p \<noteq> k}"
  by (induction m) auto

lemma update_absent [js_map]: "k \<notin> set (map_keys m) \<Longrightarrow> AList.update k v m = m @ [(k, v)]"
  by (induction m) auto

lemma update_present [js_map]:
  "distinct (map_keys m) \<Longrightarrow> k \<in> set (map_keys m) \<Longrightarrow>
   AList.update k v m = map_modify k (\<lambda>_. v) m"
  by (induction m) (auto simp: map_modify_absent)

lemma set_update_subset: "set (AList.update k v m) \<subseteq> insert (k, v) (set m)"
  by (induction m) auto

lemma find_value_mem [js_map]: "List.find P xs = Some x \<Longrightarrow> x \<in> set xs \<and> P x"
  by (induction xs) (auto split: if_splits)

lemma find_None_ball [js_map]: "List.find P xs = None \<longleftrightarrow> (\<forall>x \<in> set xs. \<not> P x)"
  by (induction xs) auto

subsection \<open>Stable sorting\<close>

text \<open>The head of a stable sort is the first of the smallest elements.\<close>

lemma sort_key_head:
  fixes f :: "'a \<Rightarrow> 'b :: linorder"
  assumes "sort_key f xs = y # ys"
  shows "\<exists>pre post. xs = pre @ y # post \<and> (\<forall>v \<in> set pre. f y < f v) \<and> (\<forall>v \<in> set post. f y \<le> f v)"
  using assms
proof (induction xs arbitrary: y ys)
  case (Cons x xs)
  show ?case
  proof (cases "sort_key f xs")
    case Nil
    then have "xs = []" by (metis length_sort list.size(3) length_0_conv)
    with Cons.prems show ?thesis by (intro exI [of _ "[]"]) auto
  next
    case (Cons z zs)
    from Cons.IH [OF Cons] obtain pre post where
      xs: "xs = pre @ z # post" "\<forall>v \<in> set pre. f z < f v" "\<forall>v \<in> set post. f z \<le> f v" by blast
    show ?thesis
    proof (cases "f x \<le> f z")
      case True
      with Cons Cons.prems have "y = x" by simp
      moreover have "\<forall>v \<in> set xs. f x \<le> f v" using True xs by auto
      ultimately show ?thesis by (intro exI [of _ "[]"] exI [of _ xs]) simp
    next
      case False
      with Cons Cons.prems have "y = z" by simp
      with False xs show ?thesis by (intro exI [of _ "x # pre"] exI [of _ post]) auto
    qed
  qed
qed simp

lemma filter_split:
  assumes "filter P xs = p @ w # q"
  shows "\<exists>pre post. xs = pre @ w # post \<and> filter P pre = p \<and> P w \<and> filter P post = q"
  using assms
proof (induction p arbitrary: xs)
  case Nil
  then obtain us vs where "xs = us @ w # vs" "\<forall>u \<in> set us. \<not> P u" "P w" "q = filter P vs"
    by (auto simp: filter_eq_Cons_iff)
  then show ?case by (intro exI [of _ us] exI [of _ vs]) auto
next
  case (Cons a p)
  then obtain us vs where 1: "xs = us @ a # vs" "\<forall>u \<in> set us. \<not> P u" "P a" "p @ w # q = filter P vs"
    by (auto simp: filter_eq_Cons_iff)
  from Cons.IH [of vs] 1(4) obtain pre post where
    "vs = pre @ w # post" "filter P pre = p" "P w" "filter P post = q" by auto
  with 1 show ?case by (intro exI [of _ "us @ a # pre"] exI [of _ post]) auto
qed

lemma sort_key_Nil_iff: "sort_key f xs = [] \<longleftrightarrow> xs = []"
  by (metis length_0_conv length_sort)

subsection \<open>Strings\<close>

text \<open>\<open>s.startsWith(p)\<close>, \<open>s.includes(p)\<close> and \<open>parts.join(sep)\<close>.\<close>

definition startsWith :: "string \<Rightarrow> string \<Rightarrow> bool" where
  "startsWith s p \<longleftrightarrow> take (length p) s = p"

fun str_includes :: "string \<Rightarrow> string \<Rightarrow> bool" where
  "str_includes [] p \<longleftrightarrow> p = []"
| "str_includes (c # cs) p \<longleftrightarrow> startsWith (c # cs) p \<or> str_includes cs p"

fun join_with :: "string \<Rightarrow> string list \<Rightarrow> string" where
  "join_with sep [] = []"
| "join_with sep [x] = x"
| "join_with sep (x # y # zs) = x @ sep @ join_with sep (y # zs)"

lemma startsWith_append [simp, js_string]: "startsWith (p @ s) p"
  by (simp add: startsWith_def)

lemma startsWith_iff [js_string]: "startsWith s p \<longleftrightarrow> (\<exists>r. s = p @ r)"
  by (metis append_take_drop_id append_eq_conv_conj startsWith_def)

lemma str_includes_iff [js_string]: "str_includes s p \<longleftrightarrow> (\<exists>a b. s = a @ p @ b)"
proof (induction s)
  case Nil
  then show ?case by auto
next
  case (Cons c cs)
  have "str_includes (c # cs) p \<longleftrightarrow> (\<exists>r. c # cs = p @ r) \<or> (\<exists>a b. cs = a @ p @ b)"
    using Cons by (simp add: startsWith_iff)
  also have "\<dots> \<longleftrightarrow> (\<exists>a b. c # cs = a @ p @ b)"
  proof
    assume "(\<exists>r. c # cs = p @ r) \<or> (\<exists>a b. cs = a @ p @ b)"
    then show "\<exists>a b. c # cs = a @ p @ b"
      by (metis append_Cons append_Nil)
  next
    assume "\<exists>a b. c # cs = a @ p @ b"
    then obtain a b where "c # cs = a @ p @ b" by blast
    then show "(\<exists>r. c # cs = p @ r) \<or> (\<exists>a b. cs = a @ p @ b)"
      by (cases a) auto
  qed
  finally show ?case .
qed

subsection \<open>Exceptions as values\<close>

fun bindR :: "'e + 'a \<Rightarrow> ('a \<Rightarrow> 'e + 'b) \<Rightarrow> 'e + 'b" where
  "bindR (Inl e) f = Inl e"
| "bindR (Inr x) f = f x"

lemma bindR_Inr_iff: "bindR r f = Inr y \<longleftrightarrow> (\<exists>x. r = Inr x \<and> f x = Inr y)"
  by (cases r) auto

lemma bindR_Inl_iff: "bindR r f = Inl e \<longleftrightarrow> r = Inl e \<or> (\<exists>x. r = Inr x \<and> f x = Inl e)"
  by (cases r) auto

subsection \<open>Transition systems\<close>

inductive reachable :: "('s \<Rightarrow> bool) \<Rightarrow> ('s \<Rightarrow> 's \<Rightarrow> bool) \<Rightarrow> 's \<Rightarrow> bool"
  for init step where
  reach_init: "init s \<Longrightarrow> reachable init step s"
| reach_step: "reachable init step s \<Longrightarrow> step s t \<Longrightarrow> reachable init step t"

locale inductive_invariant =
  fixes init :: "'s \<Rightarrow> bool"
    and step :: "'s \<Rightarrow> 's \<Rightarrow> bool"
    and inv :: "'s \<Rightarrow> bool"
  assumes inv_init: "init s \<Longrightarrow> inv s"
    and inv_step: "inv s \<Longrightarrow> step s t \<Longrightarrow> inv t"
begin

lemma reachable_inv: "reachable init step s \<Longrightarrow> inv s"
  by (induction rule: reachable.induct) (auto intro: inv_init inv_step)

lemma steps_inv: "step\<^sup>*\<^sup>* s t \<Longrightarrow> inv s \<Longrightarrow> inv t"
  by (induction rule: rtranclp_induct) (auto intro: inv_step)

end

end
