(* ===== verification/Json.thy ===== *)
theory Json
  imports Prelude
begin

section \<open>JSON values and \<open>JSON.stringify\<close>\<close>

text \<open>
  The values that cross the wire and are stored in text columns, and the text
  \<open>JSON.stringify\<close> gives for them: no white space, object members in insertion order, strings
  quoted with the escapes of the ECMAScript \<open>QuoteJSONString\<close> operation. Strings are byte strings
  (the UTF-8 text of the JavaScript string), so \<open>TextEncoder.encode\<close> is the identity on them.
  Numbers are exact rationals; their decimal text is the argument \<open>numstr\<close> (the shortest text
  that reads back as the same IEEE double is the run time's \<open>Number.prototype.toString\<close>).

  The main fact is that a quoted string is self-delimiting (\<open>json_quote_cancel\<close>): two quoted
  strings followed by anything are equal only if the strings and the rests are. Injectivity of
  the canonical text of a receipt rests on it.
\<close>

datatype json =
    JNull
  | JBool bool
  | JNum rat
  | JStr string
  | JArr "json list"
  | JObj "(string \<times> json) list"

text \<open>JavaScript truthiness of a JSON value, as \<open>!payload\<close> tests it.\<close>

fun json_truthy :: "json \<Rightarrow> bool" where
  "json_truthy JNull = False"
| "json_truthy (JBool b) = b"
| "json_truthy (JNum q) = (q \<noteq> 0)"
| "json_truthy (JStr s) = (s \<noteq> [])"
| "json_truthy (JArr _) = True"
| "json_truthy (JObj _) = True"

text \<open>Truthiness of a string field that may be absent (\<open>undefined\<close>).\<close>

definition str_truthy :: "string option \<Rightarrow> bool" where
  "str_truthy s \<longleftrightarrow> s \<noteq> None \<and> s \<noteq> Some []"

definition json_field :: "string \<Rightarrow> json \<Rightarrow> json option" where
  "json_field k j = (case j of JObj kvs \<Rightarrow> map_of kvs k | _ \<Rightarrow> None)"

subsection \<open>Quoting\<close>

definition hex_digit :: "nat \<Rightarrow> char" where
  "hex_digit n = ''0123456789abcdef'' ! n"

definition json_escape :: "char \<Rightarrow> string" where
  "json_escape c =
     (let n = of_char c :: nat in
      if n = 34 then [CHR 0x5C, CHR 0x22]
      else if n = 92 then [CHR 0x5C, CHR 0x5C]
      else if n = 8 then [CHR 0x5C, CHR 0x62]
      else if n = 12 then [CHR 0x5C, CHR 0x66]
      else if n = 10 then [CHR 0x5C, CHR 0x6E]
      else if n = 13 then [CHR 0x5C, CHR 0x72]
      else if n = 9 then [CHR 0x5C, CHR 0x74]
      else if n < 32 then [CHR 0x5C, CHR 0x75, CHR 0x30, CHR 0x30, hex_digit (n div 16), hex_digit (n mod 16)]
      else [c])"

definition json_quote :: "string \<Rightarrow> string" where
  "json_quote s = [CHR 0x22] @ concat (map json_escape s) @ [CHR 0x22]"

fun stringify :: "(rat \<Rightarrow> string) \<Rightarrow> json \<Rightarrow> string" where
  "stringify numstr JNull = ''null''"
| "stringify numstr (JBool b) = (if b then ''true'' else ''false'')"
| "stringify numstr (JNum q) = numstr q"
| "stringify numstr (JStr s) = json_quote s"
| "stringify numstr (JArr xs) = ''['' @ join_with '','' (map (stringify numstr) xs) @ '']''"
| "stringify numstr (JObj kvs) =
     ''{'' @ join_with '','' (map (\<lambda>(k, v). json_quote k @ '':'' @ stringify numstr v) kvs) @ ''}''"

subsection \<open>Quoted strings are self-delimiting\<close>

text \<open>
  \<open>json_lex_char\<close> reads one character back, as \<open>JSON.parse\<close> does inside a string
  literal: an escape, or a character other than the quote, the backslash and the controls.
  Reading inverts \<open>json_escape\<close> whatever follows, so no escape is a prefix of another one.
\<close>

definition hex_value :: "char \<Rightarrow> nat option" where
  "hex_value c =
     (let n = of_char c in
      if 48 \<le> n \<and> n \<le> 57 then Some (n - 48)
      else if 97 \<le> n \<and> n \<le> 102 then Some (n - 87)
      else if 65 \<le> n \<and> n \<le> 70 then Some (n - 55)
      else None)"

definition json_simple_escape :: "char \<Rightarrow> char option" where
  "json_simple_escape e =
     map_of [(CHR 0x22, CHR 0x22), (CHR 0x5C, CHR 0x5C), (CHR 0x2F, CHR 0x2F), (CHR 0x62, CHR 0x08),
             (CHR 0x66, CHR 0x0C), (CHR 0x6E, CHR 0x0A), (CHR 0x72, CHR 0x0D), (CHR 0x74, CHR 0x09)] e"

fun json_lex_unicode :: "string \<Rightarrow> (char \<times> string) option" where
  "json_lex_unicode (a # b # c # d # r) =
     (case (hex_value a, hex_value b, hex_value c, hex_value d) of
        (Some 0, Some 0, Some h, Some l) \<Rightarrow> Some (char_of (16 * h + l), r)
      | _ \<Rightarrow> None)"
| "json_lex_unicode _ = None"

fun json_lex_char :: "string \<Rightarrow> (char \<times> string) option" where
  "json_lex_char [] = None"
| "json_lex_char (c # r) =
     (if c = CHR 0x5C then
        (case r of
           [] \<Rightarrow> None
         | e # r' \<Rightarrow>
             if e = CHR 0x75 then json_lex_unicode r'
             else map_option (\<lambda>x. (x, r')) (json_simple_escape e))
      else if c = CHR 0x22 \<or> of_char c < (32 :: nat) then None
      else Some (c, r))"

lemma hex_value_digit: "n < 16 \<Longrightarrow> hex_value (hex_digit n) = Some n"
proof -
  have "\<forall>k \<in> set [0..<16]. hex_value (hex_digit k) = Some k" by code_simp
  then show "n < 16 \<Longrightarrow> hex_value (hex_digit n) = Some n" by simp
qed

lemma hex_value_zero: "hex_value (CHR 0x30) = Some 0"
  by (simp add: hex_value_def)

lemma char_eq_of_char: "(c :: char) = d \<longleftrightarrow> (of_char c :: nat) = of_char d"
  by simp

lemma json_lex_escape: "json_lex_char (json_escape c @ r) = Some (c, r)"
proof -
  let ?n = "of_char c :: nat"
  consider "?n \<in> {34, 92, 8, 12, 10, 13, 9}" | "?n \<notin> {34, 92, 8, 12, 10, 13, 9}" "?n < 32"
    | "?n \<notin> {34, 92}" "32 \<le> ?n" by force
  then show ?thesis
  proof cases
    case 1
    then have "c \<in> {CHR 0x22, CHR 0x5C, CHR 0x08, CHR 0x0C, CHR 0x0A, CHR 0x0D, CHR 0x09}"
      by (simp only: char_eq_of_char insert_iff empty_iff) simp
    then show ?thesis
      by (elim insertE emptyE) (simp_all add: json_escape_def json_simple_escape_def)
  next
    case 2
    then have "json_escape c =
        [CHR 0x5C, CHR 0x75, CHR 0x30, CHR 0x30, hex_digit (?n div 16), hex_digit (?n mod 16)]"
      by (simp add: json_escape_def Let_def)
    moreover have "?n div 16 < 16" "?n mod 16 < 16" using 2 by auto
    ultimately show ?thesis by (simp add: hex_value_digit hex_value_zero)
  next
    case 3
    then have "c \<noteq> CHR 0x5C" "c \<noteq> CHR 0x22" by auto
    with 3 show ?thesis by (auto simp: json_escape_def Let_def)
  qed
qed

lemma json_escape_prefix_free:
  assumes "json_escape c @ r = json_escape d @ r'"
  shows "c = d \<and> r = r'"
proof -
  have "Some (c, r) = json_lex_char (json_escape c @ r)" by (simp only: json_lex_escape)
  also have "\<dots> = Some (d, r')" by (simp only: assms json_lex_escape)
  finally show ?thesis by simp
qed

lemma json_escape_not_quote: "json_escape c @ r \<noteq> CHR 0x22 # r'"
proof
  assume "json_escape c @ r = CHR 0x22 # r'"
  then have "json_lex_char (CHR 0x22 # r') = Some (c, r)" by (metis json_lex_escape)
  then show False by simp
qed

lemma json_escapes_cancel:
  "concat (map json_escape s) @ CHR 0x22 # r = concat (map json_escape t) @ CHR 0x22 # r'
   \<Longrightarrow> s = t \<and> r = r'"
proof (induction s arbitrary: t)
  case Nil
  then show ?case
    by (cases t) (auto dest: sym simp: json_escape_not_quote json_escape_not_quote [symmetric])
next
  case (Cons c s)
  show ?case
  proof (cases t)
    case Nil
    with Cons.prems show ?thesis using json_escape_not_quote by auto
  next
    case (Cons d t')
    with Cons.prems have
      "json_escape c @ concat (map json_escape s) @ CHR 0x22 # r =
       json_escape d @ concat (map json_escape t') @ CHR 0x22 # r'"
      by simp
    then have "c = d"
      and "concat (map json_escape s) @ CHR 0x22 # r = concat (map json_escape t') @ CHR 0x22 # r'"
      using json_escape_prefix_free by blast+
    with Cons.IH Cons show ?thesis by auto
  qed
qed

lemma json_quote_cancel: "json_quote s @ r = json_quote t @ r' \<Longrightarrow> s = t \<and> r = r'"
  unfolding json_quote_def using json_escapes_cancel [of s r t r'] by simp

lemma json_quote_inj: "json_quote s = json_quote t \<longleftrightarrow> s = t"
  using json_quote_cancel [of s "[]" t "[]"] by auto

lemma json_quote_not_null [simp]: "json_quote s \<noteq> ''null''" "''null'' \<noteq> json_quote s"
  by (simp_all add: json_quote_def)

end
