(* ===== verification/Protocol.thy ===== *)
theory Protocol
  imports Json
begin

section \<open>The shared protocol package\<close>

text \<open>
  \<open>packages/protocol/src/types.ts\<close> and \<open>wsMessages.ts\<close>: the enums, the core
  interfaces, prices, stake tiers and the WebSocket messages. A TypeScript string enum is a
  string at run time and the routes cast request strings to it without a check, so
  \<open>Policy\<close>, \<open>PrivacyClass\<close> and \<open>TaskType\<close> have a constructor for "any other string"; the
  functions \<open>policy_of_string\<close> etc. are the casts. \<open>JobType\<close> is checked by the code
  (\<open>Object.values(JobType).includes\<close>), so it has the two values only.
\<close>

datatype JobType = LLM_INFER | TASK

datatype TaskType = Summarize | Classify | ExtractJson | OtherTask string

datatype Policy = FAST | CHEAP | AUTO | OtherPolicy string

datatype PrivacyClass = PUBLIC | PRIVATE | OtherPrivacy string

datatype ProviderType = DESKTOP | SEEKER

datatype JobStatus = PENDING | ASSIGNED | RUNNING | COMPLETED | FAILED

datatype StakeTier = OPEN | VERIFIED | SENTINEL

fun jobtype_string :: "JobType \<Rightarrow> string" where
  "jobtype_string LLM_INFER = ''LLM_INFER''"
| "jobtype_string TASK = ''TASK''"

definition jobtype_of_string :: "string \<Rightarrow> JobType option" where
  "jobtype_of_string s =
     (if s = ''LLM_INFER'' then Some LLM_INFER else if s = ''TASK'' then Some TASK else None)"

fun policy_string :: "Policy \<Rightarrow> string" where
  "policy_string FAST = ''FAST''"
| "policy_string CHEAP = ''CHEAP''"
| "policy_string AUTO = ''AUTO''"
| "policy_string (OtherPolicy s) = s"

definition policy_of_string :: "string \<Rightarrow> Policy" where
  "policy_of_string s =
     (if s = ''FAST'' then FAST else if s = ''CHEAP'' then CHEAP
      else if s = ''AUTO'' then AUTO else OtherPolicy s)"

definition privacy_of_string :: "string \<Rightarrow> PrivacyClass" where
  "privacy_of_string s =
     (if s = ''PUBLIC'' then PUBLIC else if s = ''PRIVATE'' then PRIVATE else OtherPrivacy s)"

fun status_string :: "JobStatus \<Rightarrow> string" where
  "status_string PENDING = ''pending''"
| "status_string ASSIGNED = ''assigned''"
| "status_string RUNNING = ''running''"
| "status_string COMPLETED = ''completed''"
| "status_string FAILED = ''failed''"

lemma policy_string_of [simp]: "policy_string (policy_of_string s) = s"
  by (simp add: policy_of_string_def)

lemma jobtype_string_of [simp]: "jobtype_of_string (jobtype_string t) = Some t"
  by (cases t) (simp_all add: jobtype_of_string_def)

lemma jobtype_of_string_Some: "jobtype_of_string s = Some t \<longleftrightarrow> s = jobtype_string t"
  by (cases t) (auto simp: jobtype_of_string_def split: if_splits)

subsection \<open>Core interfaces\<close>

datatype JobPayload =
    LLMPayload string "int option"
  | TaskPayload TaskType string

record Quote =
  q_price :: string
  q_endpoint :: string
  q_policy_resolved :: Policy
  q_network :: string
  q_expires_at :: "int option"

record Receipt =
  r_job_id :: string
  r_provider_pubkey :: string
  r_output_hash :: string
  r_completed_at :: string
  r_payment_ref :: "string option"

text \<open>The object literal a receipt is, members in the order the workers write them.\<close>

definition receipt_json :: "Receipt \<Rightarrow> json" where
  "receipt_json r = JObj
     [(''job_id'', JStr (r_job_id r)),
      (''provider_pubkey'', JStr (r_provider_pubkey r)),
      (''output_hash'', JStr (r_output_hash r)),
      (''completed_at'', JStr (r_completed_at r)),
      (''payment_ref'', case r_payment_ref r of None \<Rightarrow> JNull | Some s \<Rightarrow> JStr s)]"

subsection \<open>Pricing\<close>

definition PRICING_MAP :: "(string \<times> string) list" where
  "PRICING_MAP =
     [(''FAST_LLM_INFER'', ''$0.010''),
      (''FAST_TASK'', ''$0.003''),
      (''CHEAP_LLM_INFER'', ''$0.005''),
      (''CHEAP_TASK'', ''$0.001'')]"

definition resolvePolicy :: "Policy \<Rightarrow> JobType \<Rightarrow> Policy" where
  "resolvePolicy policy jobType =
     (if policy \<noteq> AUTO then policy
      else if jobType = LLM_INFER then FAST else CHEAP)"

definition getPrice :: "Policy \<Rightarrow> JobType \<Rightarrow> string" where
  "getPrice policy jobType =
     (let key = policy_string policy @ ''_'' @ jobtype_string jobType
      in case map_of PRICING_MAP key of Some p \<Rightarrow> p | None \<Rightarrow> ''$0.001'')"

subsection \<open>BOLT staking\<close>

fun STAKE_REQUIREMENTS :: "StakeTier \<Rightarrow> rat" where
  "STAKE_REQUIREMENTS OPEN = 0"
| "STAKE_REQUIREMENTS VERIFIED = 100"
| "STAKE_REQUIREMENTS SENTINEL = 1000"

definition BOLT_DECIMALS :: nat where "BOLT_DECIMALS = 9"

definition PROTOCOL_FEE_BPS :: int where "PROTOCOL_FEE_BPS = 500"

record StakePriority =
  sp_bonus :: rat
  sp_repMultiplier :: rat

fun STAKE_PRIORITY :: "StakeTier \<Rightarrow> StakePriority" where
  "STAKE_PRIORITY OPEN = \<lparr>sp_bonus = 0, sp_repMultiplier = 1\<rparr>"
| "STAKE_PRIORITY VERIFIED = \<lparr>sp_bonus = 5, sp_repMultiplier = 3 / 2\<rparr>"
| "STAKE_PRIORITY SENTINEL = \<lparr>sp_bonus = 10, sp_repMultiplier = 2\<rparr>"

text \<open>Tiers are ordered by what they require; the order makes monotonicity statable.\<close>

instantiation StakeTier :: linorder
begin

definition less_eq_StakeTier :: "StakeTier \<Rightarrow> StakeTier \<Rightarrow> bool" where
  "less_eq_StakeTier a b \<longleftrightarrow> STAKE_REQUIREMENTS a \<le> STAKE_REQUIREMENTS b"

definition less_StakeTier :: "StakeTier \<Rightarrow> StakeTier \<Rightarrow> bool" where
  "less_StakeTier a b \<longleftrightarrow> STAKE_REQUIREMENTS a < STAKE_REQUIREMENTS b"

instance
proof
  fix a b c :: StakeTier
  show "a < b \<longleftrightarrow> a \<le> b \<and> \<not> b \<le> a"
    by (auto simp: less_eq_StakeTier_def less_StakeTier_def)
  show "a \<le> a" by (simp add: less_eq_StakeTier_def)
  show "a \<le> b \<Longrightarrow> b \<le> c \<Longrightarrow> a \<le> c" by (simp add: less_eq_StakeTier_def)
  show "a \<le> b \<Longrightarrow> b \<le> a \<Longrightarrow> a = b"
    by (cases a; cases b) (simp_all add: less_eq_StakeTier_def)
  show "a \<le> b \<or> b \<le> a" by (auto simp: less_eq_StakeTier_def)
qed

end

record BoltPayment =
  bp_job_id :: string
  bp_usdc_amount :: string
  bp_bolt_amount :: string
  bp_worker_pubkey :: string
  bp_protocol_fee :: string
  bp_tx_signature :: "string option"

subsection \<open>WebSocket messages\<close>

record RegisterMsg =
  reg_provider_pubkey :: string
  reg_provider_type :: ProviderType
  reg_capabilities :: "JobType list"
  reg_pricing_hint :: "string option"

record HeartbeatMsg =
  hb_provider_pubkey :: string
  hb_metrics :: "json option"

record JobCompleteMsg =
  jc_job_id :: string
  jc_output :: json
  jc_output_hash :: string
  jc_receipt :: "Receipt option"
  jc_receipt_signature :: "string option"

record JobRejectMsg =
  jr_job_id :: string
  jr_reason :: string

record ReceiptSubmitMsg =
  rs_receipt :: Receipt
  rs_signature :: string

record JobAssignMsg =
  ja_job_id :: string
  ja_job_type :: JobType
  ja_payload :: json
  ja_policy :: Policy
  ja_privacy_class :: PrivacyClass
  ja_user_id :: string

datatype WorkerToCoordinator =
    Register RegisterMsg
  | Heartbeat HeartbeatMsg
  | JobComplete JobCompleteMsg
  | JobReject JobRejectMsg
  | ReceiptSubmit ReceiptSubmitMsg

datatype CoordinatorToWorker =
    RegisterAck string \<comment> \<open>status ok, worker id\<close>
  | RegisterNack string \<comment> \<open>status error, error text\<close>
  | HeartbeatAck
  | JobAssign JobAssignMsg
  | ErrorMsg string string \<comment> \<open>code, message\<close>
  | FeedbackPosted string string string string \<comment> \<open>job id, tx hash, network, explorer URL\<close>
  | PaymentPosted "string list" string rat "string option" string string
      \<comment> \<open>job ids, tx hash, amount, token (Monad only), network, URL\<close>
  | FeedbackFailed string string \<comment> \<open>job id, error\<close>
  | PaymentFailed "string list" string "string option" \<comment> \<open>job ids, error, token (Monad only)\<close>

subsection \<open>The canonical text of a receipt determines the receipt\<close>

lemma stringify_receipt:
  "stringify ns (receipt_json r) =
     ''{'' @ json_quote ''job_id'' @ '':'' @ json_quote (r_job_id r) @ '','' @
     json_quote ''provider_pubkey'' @ '':'' @ json_quote (r_provider_pubkey r) @ '','' @
     json_quote ''output_hash'' @ '':'' @ json_quote (r_output_hash r) @ '','' @
     json_quote ''completed_at'' @ '':'' @ json_quote (r_completed_at r) @ '','' @
     json_quote ''payment_ref'' @ '':'' @
     (case r_payment_ref r of None \<Rightarrow> ''null'' | Some s \<Rightarrow> json_quote s) @ ''}''"
  by (simp add: receipt_json_def split: option.splits)

lemma payment_ref_cancel:
  assumes "(case a of None \<Rightarrow> ''null'' | Some s \<Rightarrow> json_quote s) @ r =
           (case b of None \<Rightarrow> ''null'' | Some s \<Rightarrow> json_quote s) @ r"
  shows "a = b"
  using assms by (auto simp: json_quote_inj split: option.splits)

lemma stringify_receipt_inj:
  assumes "stringify ns (receipt_json r) = stringify ms (receipt_json s)"
  shows "r = s"
proof -
  note eq = assms [unfolded stringify_receipt append_same_eq same_append_eq]
  have 1: "r_job_id r = r_job_id s" using eq json_quote_cancel by blast
  note eq1 = eq [unfolded 1 append_same_eq same_append_eq]
  have 2: "r_provider_pubkey r = r_provider_pubkey s" using eq1 json_quote_cancel by blast
  note eq2 = eq1 [unfolded 2 append_same_eq same_append_eq]
  have 3: "r_output_hash r = r_output_hash s" using eq2 json_quote_cancel by blast
  note eq3 = eq2 [unfolded 3 append_same_eq same_append_eq]
  have 4: "r_completed_at r = r_completed_at s" using eq3 json_quote_cancel by blast
  note eq4 = eq3 [unfolded 4 append_same_eq same_append_eq]
  have 5: "r_payment_ref r = r_payment_ref s"
    using eq4 by (intro payment_ref_cancel [where r = "''}''"]) simp
  from 1 2 3 4 5 show ?thesis by simp
qed

subsection \<open>Prices and policies\<close>

lemma resolvePolicy_enum:
  "policy \<in> {FAST, CHEAP, AUTO} \<Longrightarrow> resolvePolicy policy t \<in> {FAST, CHEAP}"
  by (auto simp: resolvePolicy_def)

lemma resolvePolicy_idem: "resolvePolicy (resolvePolicy policy t) t = resolvePolicy policy t"
  by (simp add: resolvePolicy_def)

lemma getPrice_table:
  "getPrice FAST LLM_INFER = ''$0.010''" "getPrice FAST TASK = ''$0.003''"
  "getPrice CHEAP LLM_INFER = ''$0.005''" "getPrice CHEAP TASK = ''$0.001''"
  by (simp_all add: getPrice_def PRICING_MAP_def)

end
