(* ===== verification/Db.thy ===== *)
theory Db
  imports Protocol
begin

section \<open>The coordinator's database\<close>

text \<open>
  \<open>apps/coordinator-core/src/db.ts\<close> and the SQL statements the hub and the routes run on
  it. A table is the list of its rows in insertion order; an \<open>INSERT\<close> that breaks a
  \<open>PRIMARY KEY\<close>, \<open>UNIQUE\<close> or \<open>REFERENCES\<close> constraint (\<open>foreign_keys = ON\<close>) is the
  error \<open>better-sqlite3\<close> throws. JSON texts in columns are kept as JSON values, time stamps as
  integers (seconds for \<open>datetime('now')\<close>, milliseconds for \<open>expires_at\<close>).
\<close>

record job_row =
  j_id :: string
  j_type :: JobType
  j_policy :: Policy
  j_privacy_class :: PrivacyClass
  j_user_id :: string
  j_status :: JobStatus
  j_payload :: json
  j_result :: "json option"
  j_worker_pubkey :: "string option"
  j_created_at :: int
  j_completed_at :: "int option"

record pairing_row =
  t_id :: string
  t_user_id :: string
  t_provider_pubkey :: "string option"
  t_pairing_code :: string
  t_claimed :: bool
  t_expires_at :: int
  t_created_at :: int

record receipt_row =
  rr_id :: string
  rr_job_id :: string
  rr_provider_pubkey :: string
  rr_receipt :: Receipt
  rr_signature :: string
  rr_verified :: bool
  rr_created_at :: int

record database =
  db_jobs :: "job_row list"
  db_pairings :: "pairing_row list"
  db_receipts :: "receipt_row list"

datatype db_error = PrimaryKeyViolation | UniqueViolation | ForeignKeyViolation

definition sql_now :: "int \<Rightarrow> int" where
  "sql_now now = now div 1000"

text \<open>\<open>CREATE TABLE IF NOT EXISTS\<close>: a file that exists keeps its rows.\<close>

definition createDb :: "database option \<Rightarrow> database" where
  "createDb file = (case file of Some db \<Rightarrow> db | None \<Rightarrow> \<lparr>db_jobs = [], db_pairings = [], db_receipts = []\<rparr>)"

subsection \<open>Statements on \<open>jobs\<close>\<close>

definition select_job :: "string \<Rightarrow> database \<Rightarrow> job_row option" where
  "select_job i db = List.find (\<lambda>r. j_id r = i) (db_jobs db)"

definition update_job :: "string \<Rightarrow> (job_row \<Rightarrow> job_row) \<Rightarrow> database \<Rightarrow> database" where
  "update_job i f db = db\<lparr>db_jobs := map (\<lambda>r. if j_id r = i then f r else r) (db_jobs db)\<rparr>"

definition insert_job :: "job_row \<Rightarrow> database \<Rightarrow> db_error + database" where
  "insert_job r db =
     (if j_id r \<in> set (map j_id (db_jobs db)) then Inl PrimaryKeyViolation
      else Inr (db\<lparr>db_jobs := db_jobs db @ [r]\<rparr>))"

text \<open>The five \<open>UPDATE jobs\<close> statements.\<close>

definition sql_complete_job :: "int \<Rightarrow> json \<Rightarrow> string \<Rightarrow> database \<Rightarrow> database" where
  "sql_complete_job now result =
     (\<lambda>i. update_job i (\<lambda>r. r\<lparr>j_status := COMPLETED, j_result := Some result, j_completed_at := Some (sql_now now)\<rparr>))"

definition sql_reject_job :: "string \<Rightarrow> database \<Rightarrow> database" where
  "sql_reject_job i = update_job i (\<lambda>r. r\<lparr>j_status := PENDING, j_worker_pubkey := None\<rparr>)"

definition sql_fail_job :: "string \<Rightarrow> string \<Rightarrow> database \<Rightarrow> database" where
  "sql_fail_job err i =
     update_job i (\<lambda>r. r\<lparr>j_status := FAILED, j_result := Some (JObj [(''error'', JStr err)])\<rparr>)"

definition sql_assign_job :: "string \<Rightarrow> string \<Rightarrow> database \<Rightarrow> database" where
  "sql_assign_job pubkey i = update_job i (\<lambda>r. r\<lparr>j_status := ASSIGNED, j_worker_pubkey := Some pubkey\<rparr>)"

subsection \<open>Statements on \<open>receipts\<close> and \<open>trust_pairings\<close>\<close>

definition insert_receipt :: "receipt_row \<Rightarrow> database \<Rightarrow> db_error + database" where
  "insert_receipt r db =
     (if rr_id r \<in> set (map rr_id (db_receipts db)) then Inl PrimaryKeyViolation
      else if rr_job_id r \<notin> set (map j_id (db_jobs db)) then Inl ForeignKeyViolation
      else Inr (db\<lparr>db_receipts := db_receipts db @ [r]\<rparr>))"

definition select_receipt :: "string \<Rightarrow> database \<Rightarrow> receipt_row option" where
  "select_receipt jobId db = List.find (\<lambda>r. rr_job_id r = jobId) (db_receipts db)"

definition insert_pairing :: "pairing_row \<Rightarrow> database \<Rightarrow> db_error + database" where
  "insert_pairing r db =
     (if t_id r \<in> set (map t_id (db_pairings db)) then Inl PrimaryKeyViolation
      else if t_pairing_code r \<in> set (map t_pairing_code (db_pairings db)) then Inl UniqueViolation
      else Inr (db\<lparr>db_pairings := db_pairings db @ [r]\<rparr>))"

definition select_pairing :: "string \<Rightarrow> database \<Rightarrow> pairing_row option" where
  "select_pairing code db = List.find (\<lambda>r. t_pairing_code r = code) (db_pairings db)"

definition sql_claim_pairing :: "string \<Rightarrow> string \<Rightarrow> database \<Rightarrow> database" where
  "sql_claim_pairing pubkey i db =
     db\<lparr>db_pairings := map (\<lambda>r. if t_id r = i then r\<lparr>t_claimed := True, t_provider_pubkey := Some pubkey\<rparr> else r)
                          (db_pairings db)\<rparr>"

text \<open>The providers a user has paired with: \<open>WHERE user_id = ? AND claimed = 1\<close>.\<close>

definition select_trusted :: "string \<Rightarrow> database \<Rightarrow> pairing_row list" where
  "select_trusted userId db = filter (\<lambda>r. t_user_id r = userId \<and> t_claimed r) (db_pairings db)"

subsection \<open>What every statement keeps\<close>

text \<open>The constraints of the schema, and that a claimed pairing names its provider.\<close>

definition db_inv :: "database \<Rightarrow> bool" where
  "db_inv db \<longleftrightarrow>
     distinct (map j_id (db_jobs db)) \<and> distinct (map t_id (db_pairings db)) \<and>
     distinct (map t_pairing_code (db_pairings db)) \<and> distinct (map rr_id (db_receipts db)) \<and>
     (\<forall>r \<in> set (db_receipts db). rr_job_id r \<in> set (map j_id (db_jobs db))) \<and>
     (\<forall>r \<in> set (db_pairings db). t_claimed r \<longrightarrow> t_provider_pubkey r \<noteq> None)"

definition same_id :: "(job_row \<Rightarrow> job_row) \<Rightarrow> bool" where
  "same_id f \<longleftrightarrow> (\<forall>r. j_id (f r) = j_id r)"

lemma same_id_sql [simp]:
  "same_id (\<lambda>r. r\<lparr>j_status := s, j_result := x, j_completed_at := t\<rparr>)"
  "same_id (\<lambda>r. r\<lparr>j_status := s, j_worker_pubkey := w\<rparr>)"
  "same_id (\<lambda>r. r\<lparr>j_status := s, j_result := x\<rparr>)"
  by (simp_all add: same_id_def)

lemma map_id_update_job: "same_id f \<Longrightarrow> map j_id (db_jobs (update_job i f db)) = map j_id (db_jobs db)"
  by (simp add: update_job_def same_id_def)

lemma update_job_other [simp]:
  "db_pairings (update_job i f db) = db_pairings db" "db_receipts (update_job i f db) = db_receipts db"
  by (simp_all add: update_job_def)

lemma db_inv_update_job: "db_inv db \<Longrightarrow> same_id f \<Longrightarrow> db_inv (update_job i f db)"
proof -
  assume "db_inv db" "same_id f"
  moreover from this have "j_id ` set (db_jobs (update_job i f db)) = j_id ` set (db_jobs db)"
    using map_id_update_job [of f i db] by (metis list.set_map)
  ultimately show ?thesis by (simp add: db_inv_def map_id_update_job)
qed

text \<open>Looking a job up after an update: the updated row under its id, the old rows elsewhere.\<close>

lemma find_map_id:
  assumes "\<And>r. j_id (f r) = j_id r"
  shows "List.find (\<lambda>r. j_id r = k) (map (\<lambda>r. if j_id r = i then f r else r) rs)
    = (if k = i then map_option f (List.find (\<lambda>r. j_id r = k) rs) else List.find (\<lambda>r. j_id r = k) rs)"
  using assms by (induction rs) auto

lemma select_update_job:
  "same_id f \<Longrightarrow> select_job k (update_job i f db) = (if k = i then map_option f (select_job k db) else select_job k db)"
  unfolding select_job_def update_job_def same_id_def by (simp add: find_map_id)

lemma select_job_Some: "select_job i db = Some r \<Longrightarrow> r \<in> set (db_jobs db) \<and> j_id r = i"
  by (auto simp: select_job_def dest: find_value_mem)

lemma select_job_None: "select_job i db = None \<longleftrightarrow> i \<notin> j_id ` set (db_jobs db)"
  by (auto simp: select_job_def find_None_ball)

lemma find_distinct_id:
  "distinct (map g rs) \<Longrightarrow> r \<in> set rs \<Longrightarrow> List.find (\<lambda>x. g x = g r) rs = Some r"
  by (induction rs) (auto simp: image_iff)

lemma select_job_mem: "db_inv db \<Longrightarrow> r \<in> set (db_jobs db) \<Longrightarrow> select_job (j_id r) db = Some r"
  by (simp add: select_job_def db_inv_def find_distinct_id)

lemma insert_job_Inr:
  "insert_job r db = Inr db' \<longleftrightarrow> j_id r \<notin> j_id ` set (db_jobs db) \<and> db' = db\<lparr>db_jobs := db_jobs db @ [r]\<rparr>"
  by (auto simp: insert_job_def)

lemma find_append: "List.find P (xs @ ys) = (case List.find P xs of Some x \<Rightarrow> Some x | None \<Rightarrow> List.find P ys)"
  by (induction xs) auto

lemma select_insert_job:
  assumes "insert_job r db = Inr db'"
  shows "select_job k db' = (if k = j_id r then Some r else select_job k db)"
proof -
  have n: "j_id r \<notin> j_id ` set (db_jobs db)" "db' = db\<lparr>db_jobs := db_jobs db @ [r]\<rparr>"
    using assms by (simp_all add: insert_job_Inr)
  then have "List.find (\<lambda>x. j_id x = j_id r) (db_jobs db) = None"
    unfolding find_None_ball by (metis imageI)
  then show ?thesis
    by (auto simp: select_job_def n(2) find_append split: option.splits)
qed

lemma insert_job_inv: "insert_job r db = Inr db' \<Longrightarrow> db_inv db \<Longrightarrow> db_inv db'"
  by (auto simp: insert_job_Inr db_inv_def)

lemma insert_receipt_Inr:
  "insert_receipt r db = Inr db' \<longleftrightarrow>
     rr_id r \<notin> rr_id ` set (db_receipts db) \<and> rr_job_id r \<in> j_id ` set (db_jobs db) \<and>
     db' = db\<lparr>db_receipts := db_receipts db @ [r]\<rparr>"
  by (auto simp: insert_receipt_def)

lemma insert_receipt_inv: "insert_receipt r db = Inr db' \<Longrightarrow> db_inv db \<Longrightarrow> db_inv db'"
  by (auto simp: insert_receipt_Inr db_inv_def)

lemma insert_pairing_Inr:
  "insert_pairing r db = Inr db' \<longleftrightarrow>
     t_id r \<notin> t_id ` set (db_pairings db) \<and> t_pairing_code r \<notin> t_pairing_code ` set (db_pairings db) \<and>
     db' = db\<lparr>db_pairings := db_pairings db @ [r]\<rparr>"
  by (auto simp: insert_pairing_def)

lemma insert_pairing_inv:
  "insert_pairing r db = Inr db' \<Longrightarrow> db_inv db \<Longrightarrow> \<not> t_claimed r \<Longrightarrow> db_inv db'"
  by (auto simp: insert_pairing_Inr db_inv_def)

lemma sql_claim_pairing_inv: "db_inv db \<Longrightarrow> db_inv (sql_claim_pairing pk i db)"
proof -
  have "map t_id (db_pairings (sql_claim_pairing pk i db)) = map t_id (db_pairings db)"
    "map t_pairing_code (db_pairings (sql_claim_pairing pk i db)) = map t_pairing_code (db_pairings db)"
    by (simp_all add: sql_claim_pairing_def)
  then show "db_inv db \<Longrightarrow> db_inv (sql_claim_pairing pk i db)"
    by (auto simp: db_inv_def) (auto simp: sql_claim_pairing_def)
qed

lemma createDb_inv: "db_inv (createDb None)"
  by (simp add: createDb_def db_inv_def)

lemmas sql_updates = sql_complete_job_def sql_reject_job_def sql_fail_job_def sql_assign_job_def

lemma db_inv_sql [simp]:
  "db_inv db \<Longrightarrow> db_inv (sql_complete_job now res i db)" "db_inv db \<Longrightarrow> db_inv (sql_reject_job i db)"
  "db_inv db \<Longrightarrow> db_inv (sql_fail_job e i db)" "db_inv db \<Longrightarrow> db_inv (sql_assign_job pk i db)"
  by (simp_all add: sql_updates db_inv_update_job)

lemma sql_other [simp]:
  "db_pairings (sql_complete_job now res i db) = db_pairings db" "db_pairings (sql_reject_job i db) = db_pairings db"
  "db_pairings (sql_fail_job e i db) = db_pairings db" "db_pairings (sql_assign_job pk i db) = db_pairings db"
  "db_receipts (sql_complete_job now res i db) = db_receipts db" "db_receipts (sql_reject_job i db) = db_receipts db"
  "db_receipts (sql_fail_job e i db) = db_receipts db" "db_receipts (sql_assign_job pk i db) = db_receipts db"
  by (simp_all add: sql_updates)

lemma sql_ids [simp]:
  "map j_id (db_jobs (sql_complete_job now res i db)) = map j_id (db_jobs db)"
  "map j_id (db_jobs (sql_reject_job i db)) = map j_id (db_jobs db)"
  "map j_id (db_jobs (sql_fail_job e i db)) = map j_id (db_jobs db)"
  "map j_id (db_jobs (sql_assign_job pk i db)) = map j_id (db_jobs db)"
  by (simp_all add: sql_updates map_id_update_job)

lemma select_sql:
  "select_job k (sql_complete_job now res i db) =
     (if k = i then map_option (\<lambda>r. r\<lparr>j_status := COMPLETED, j_result := Some res, j_completed_at := Some (sql_now now)\<rparr>)
        (select_job k db) else select_job k db)"
  "select_job k (sql_reject_job i db) =
     (if k = i then map_option (\<lambda>r. r\<lparr>j_status := PENDING, j_worker_pubkey := None\<rparr>) (select_job k db)
      else select_job k db)"
  "select_job k (sql_fail_job e i db) =
     (if k = i then map_option (\<lambda>r. r\<lparr>j_status := FAILED, j_result := Some (JObj [(''error'', JStr e)])\<rparr>)
        (select_job k db) else select_job k db)"
  "select_job k (sql_assign_job pk i db) =
     (if k = i then map_option (\<lambda>r. r\<lparr>j_status := ASSIGNED, j_worker_pubkey := Some pk\<rparr>) (select_job k db)
      else select_job k db)"
  by (simp_all add: sql_updates select_update_job)

end
