(* ===== verification/Codec.thy ===== *)
theory Codec
  imports Json
begin

section \<open>Byte encodings of Node's \<open>Buffer\<close>\<close>

text \<open>
  \<open>Buffer.from(bytes).toString("hex" | "base64")\<close> and \<open>Buffer.from(text, "hex" | "base64")\<close>,
  which the workers use to write keys and signatures and the hub to read them. A byte is a
  \<open>char\<close>. Decoding follows Node: hexadecimal text is read pair by pair up to the first pair
  that is not hexadecimal; base64 text is read with every character outside the two alphabets
  (the padding included) skipped.
\<close>

definition byte_nat :: "char \<Rightarrow> nat" where
  "byte_nat c = of_char c"

lemma byte_nat_less [simp]: "byte_nat c < 256"
  by (simp add: byte_nat_def)

lemma char_of_byte_nat [simp]: "char_of (byte_nat c) = c"
  by (simp add: byte_nat_def)

subsection \<open>Hexadecimal\<close>

definition hex_encode :: "string \<Rightarrow> string" where
  "hex_encode bs = concat (map (\<lambda>c. [hex_digit (byte_nat c div 16), hex_digit (byte_nat c mod 16)]) bs)"

fun hex_decode :: "string \<Rightarrow> string" where
  "hex_decode (a # b # r) =
     (case (hex_value a, hex_value b) of
        (Some h, Some l) \<Rightarrow> char_of (16 * h + l) # hex_decode r
      | _ \<Rightarrow> [])"
| "hex_decode _ = []"

lemma hex_decode_encode: "hex_decode (hex_encode bs) = bs"
proof (induction bs)
  case (Cons c bs)
  have "byte_nat c div 16 < 16" using byte_nat_less [of c] by linarith
  with Cons show ?case by (simp add: hex_encode_def hex_value_digit)
qed (simp add: hex_encode_def)

lemma hex_encode_inj: "hex_encode a = hex_encode b \<longleftrightarrow> a = b"
  by (metis hex_decode_encode)

lemma length_hex_encode: "length (hex_encode bs) = 2 * length bs"
  by (induction bs) (simp_all add: hex_encode_def)

lemma hex_encode_digits: "list_all (\<lambda>c. hex_value c \<noteq> None) (hex_encode bs)"
proof (induction bs)
  case (Cons c bs)
  have "byte_nat c div 16 < 16" using byte_nat_less [of c] by linarith
  with Cons show ?case by (simp add: hex_encode_def hex_value_digit)
qed (simp add: hex_encode_def)

subsection \<open>Base64\<close>

text \<open>The alphabet: \<open>A-Z\<close>, \<open>a-z\<close>, \<open>0-9\<close>, \<open>+\<close>, \<open>/\<close>; a reader also takes the
  URL-safe \<open>-\<close> and \<open>_\<close>.\<close>

definition b64_digit :: "nat \<Rightarrow> char" where
  "b64_digit n =
     (if n < 26 then char_of (n + 65) else if n < 52 then char_of (n + 71)
      else if n < 62 then char_of (n - 4) else if n = 62 then CHR 0x2B else CHR 0x2F)"

definition b64_value :: "char \<Rightarrow> nat option" where
  "b64_value c =
     (let n = of_char c in
      if 65 \<le> n \<and> n \<le> 90 then Some (n - 65)
      else if 97 \<le> n \<and> n \<le> 122 then Some (n - 71)
      else if 48 \<le> n \<and> n \<le> 57 then Some (n + 4)
      else if n = 43 \<or> n = 45 then Some 62
      else if n = 47 \<or> n = 95 then Some 63
      else None)"

fun b64_encode :: "string \<Rightarrow> string" where
  "b64_encode [] = []"
| "b64_encode [x] =
     [b64_digit (byte_nat x div 4), b64_digit (byte_nat x mod 4 * 16), CHR 0x3D, CHR 0x3D]"
| "b64_encode [x, y] =
     [b64_digit (byte_nat x div 4), b64_digit (byte_nat x mod 4 * 16 + byte_nat y div 16),
      b64_digit (byte_nat y mod 16 * 4), CHR 0x3D]"
| "b64_encode (x # y # z # r) =
     b64_digit (byte_nat x div 4) # b64_digit (byte_nat x mod 4 * 16 + byte_nat y div 16) #
     b64_digit (byte_nat y mod 16 * 4 + byte_nat z div 64) # b64_digit (byte_nat z mod 64) # b64_encode r"

fun b64_groups :: "nat list \<Rightarrow> string" where
  "b64_groups (a # b # c # d # r) =
     char_of (a * 4 + b div 16) # char_of (b mod 16 * 16 + c div 4) # char_of (c mod 4 * 64 + d) # b64_groups r"
| "b64_groups [a, b, c] = [char_of (a * 4 + b div 16), char_of (b mod 16 * 16 + c div 4)]"
| "b64_groups [a, b] = [char_of (a * 4 + b div 16)]"
| "b64_groups _ = []"

definition b64_decode :: "string \<Rightarrow> string" where
  "b64_decode s = b64_groups (List.map_filter b64_value s)"

lemma b64_value_digit: "n < 64 \<Longrightarrow> b64_value (b64_digit n) = Some n"
  by (auto simp: b64_digit_def b64_value_def of_char_of)

lemma b64_value_pad: "b64_value (CHR 0x3D) = None"
  by (simp add: b64_value_def)

lemma byte_high:
  "byte_nat x div 4 < 64" "byte_nat x div 16 < 16" "byte_nat x div 64 < 4"
  using byte_nat_less [of x] by (simp_all add: less_mult_imp_div_less)

lemma byte_sextets:
  "byte_nat x div 4 < 64" "byte_nat x mod 4 * 16 + byte_nat y div 16 < 64" "byte_nat x mod 4 * 16 < 64"
  "byte_nat y mod 16 * 4 + byte_nat z div 64 < 64" "byte_nat y mod 16 * 4 < 64"
proof -
  have "byte_nat x mod 4 \<le> 3" "byte_nat y mod 16 \<le> 15"
    using mod_less_divisor [of 4 "byte_nat x"] mod_less_divisor [of 16 "byte_nat y"] by simp_all
  then show "byte_nat x div 4 < 64" "byte_nat x mod 4 * 16 + byte_nat y div 16 < 64"
    "byte_nat x mod 4 * 16 < 64" "byte_nat y mod 16 * 4 + byte_nat z div 64 < 64" "byte_nat y mod 16 * 4 < 64"
    using byte_high [of x] byte_high [of y] byte_high [of z] by simp_all
qed

lemma sextets_split:
  fixes a b :: nat
  shows "b < 16 \<Longrightarrow> (a * 16 + b) div 16 = a" "b < 16 \<Longrightarrow> (a * 16 + b) mod 16 = b"
    "b < 4 \<Longrightarrow> (a * 4 + b) div 4 = a" "b < 4 \<Longrightarrow> (a * 4 + b) mod 4 = b"
  by simp_all

lemma sextets_byte:
  "char_of (byte_nat x div 4 * 4 + (byte_nat x mod 4 * 16) div 16) = x"
  "char_of (byte_nat x div 4 * 4 + (byte_nat x mod 4 * 16 + byte_nat y div 16) div 16) = x"
  "char_of ((byte_nat x mod 4 * 16 + byte_nat y div 16) mod 16 * 16 + (byte_nat y mod 16 * 4) div 4) = y"
  "char_of ((byte_nat x mod 4 * 16 + byte_nat y div 16) mod 16 * 16
     + (byte_nat y mod 16 * 4 + byte_nat z div 64) div 4) = y"
  "char_of ((byte_nat y mod 16 * 4 + byte_nat z div 64) mod 4 * 64 + byte_nat z mod 64) = z"
  by (simp_all only: sextets_split(1,2) [OF byte_high(2)] sextets_split(3,4) [OF byte_high(3)]
      nonzero_mult_div_cancel_right div_mult_mod_eq char_of_byte_nat numeral_neq_zero not_False_eq_True)

lemma b64_decode_encode: "b64_decode (b64_encode bs) = bs"
  unfolding b64_decode_def
proof (induction bs rule: b64_encode.induct)
  case (4 x y z r)
  then show ?case
    by (simp only: b64_encode.simps List.map_filter_simps b64_value_digit byte_sextets
        option.case b64_groups.simps sextets_byte mod_less_divisor zero_less_numeral)
qed (simp_all only: b64_encode.simps List.map_filter_simps b64_value_digit b64_value_pad byte_sextets
    option.case b64_groups.simps sextets_byte)

lemma b64_encode_inj: "b64_encode a = b64_encode b \<longleftrightarrow> a = b"
  by (metis b64_decode_encode)

end
