(* ===== verification/Payouts.thy ===== *)
theory Payouts
  imports Protocol "HOL-Library.Multiset"
begin

section \<open>Batched payouts: what the two distributors share\<close>

text \<open>
  \<open>BoltDistributor\<close> and \<open>WrappedBoltDistributor\<close> keep a \<open>Map\<close> of pending
  payouts per worker, take a payout out of it when a settlement starts, and put it back (or give
  up) when the settlement fails. Here are the record of a pending payout, the position of the
  \<open>settleAll\<close> loop, JavaScript's \<open>Math.round\<close>, and the contract both classes
  meet: the locale \<open>payout_ledger\<close>, whose client lemma says that over any interleaving of
  queueing and settlement steps every queued job is held exactly once and no amount is lost.
\<close>

record PendingPayout =
  po_worker :: string
  po_jobIds :: "string list"
  po_total :: rat
  po_retryCount :: nat

record SettlementResult =
  sr_worker :: string
  sr_jobIds :: "string list"
  sr_txHash :: string
  sr_amount :: rat

text \<open>
  Where the \<open>for ... await\<close> loop of \<open>settleAll\<close> stands: not running, about to take
  the next key, or waiting for the settlement it started.
\<close>

datatype settle_loop = LoopIdle | LoopNext "string list" | LoopAwait "string list"

definition loop_continue :: "settle_loop \<Rightarrow> settle_loop" where
  "loop_continue l = (case l of LoopAwait ks \<Rightarrow> LoopNext ks | _ \<Rightarrow> l)"

definition js_round :: "rat \<Rightarrow> int" where
  "js_round q = \<lfloor>q + 1 / 2\<rfloor>"

lemma js_round_int: "js_round (of_int n) = n"
proof -
  have "\<lfloor>(of_int n :: rat) + 1 / 2\<rfloor> = n" by linarith
  then show ?thesis by (simp add: js_round_def)
qed

lemma js_round_near: "\<bar>of_int (js_round q) - q\<bar> \<le> 1 / 2"
  unfolding js_round_def by linarith

subsection \<open>The jobs and the value a payout holds\<close>

definition payout_jobs :: "PendingPayout \<Rightarrow> (string \<times> string) multiset" where
  "payout_jobs p = image_mset (Pair (po_worker p)) (mset (po_jobIds p))"

definition result_jobs :: "SettlementResult \<Rightarrow> (string \<times> string) multiset" where
  "result_jobs r = image_mset (Pair (sr_worker r)) (mset (sr_jobIds r))"

type_synonym failed_call = "string \<times> PendingPayout \<times> string"

definition failed_jobs :: "failed_call \<Rightarrow> (string \<times> string) multiset" where
  "failed_jobs f = image_mset (Pair (fst f)) (mset (po_jobIds (fst (snd f))))"

definition pending_jobs :: "PendingPayout jsmap \<Rightarrow> (string \<times> string) multiset" where
  "pending_jobs m = sum_list (map (payout_jobs \<circ> snd) m)"

definition pending_value :: "PendingPayout jsmap \<Rightarrow> rat" where
  "pending_value m = sum_list (map (po_total \<circ> snd) m)"

text \<open>Well-formedness of the pending map: one entry per worker, filed under its own key, never
  empty.\<close>

definition pending_wf :: "PendingPayout jsmap \<Rightarrow> bool" where
  "pending_wf m \<longleftrightarrow>
     distinct (map_keys m) \<and> (\<forall>(k, p) \<in> set m. po_worker p = k \<and> po_jobIds p \<noteq> [])"

lemma pending_wf_Nil [simp]: "pending_wf []"
  by (simp add: pending_wf_def)

lemma pending_wf_lookup:
  "pending_wf m \<Longrightarrow> map_of m k = Some p \<Longrightarrow> po_worker p = k \<and> po_jobIds p \<noteq> []"
  by (auto simp: pending_wf_def dest!: map_of_SomeD)

lemma pending_wf_delete: "pending_wf m \<Longrightarrow> pending_wf (AList.delete k m)"
  by (auto simp: pending_wf_def set_delete_conv distinct_delete)

lemma pending_wf_update:
  "pending_wf m \<Longrightarrow> po_worker p = k \<Longrightarrow> po_jobIds p \<noteq> [] \<Longrightarrow> pending_wf (AList.update k p m)"
  using set_update_subset [of k p m] by (fastforce simp: pending_wf_def distinct_update)

lemma pending_wf_modify:
  assumes "pending_wf m" "\<And>p. po_worker (f p) = po_worker p" "\<And>p. po_jobIds p \<noteq> [] \<Longrightarrow> po_jobIds (f p) \<noteq> []"
  shows "pending_wf (map_modify k f m)"
  using assms by (fastforce simp: pending_wf_def set_map_modify split: if_splits)

lemma pending_jobs_append: "pending_jobs (m @ n) = pending_jobs m + pending_jobs n"
  by (simp add: pending_jobs_def)

lemma pending_value_append: "pending_value (m @ n) = pending_value m + pending_value n"
  by (simp add: pending_value_def)

lemma pending_jobs_single [simp]: "pending_jobs [(k, p)] = payout_jobs p"
  by (simp add: pending_jobs_def)

lemma pending_value_single [simp]: "pending_value [(k, p)] = po_total p"
  by (simp add: pending_value_def)

lemma pending_delete_split:
  assumes "distinct (map_keys m)" "map_of m k = Some p"
  shows "pending_jobs m = pending_jobs (AList.delete k m) + payout_jobs p"
    and "pending_value m = pending_value (AList.delete k m) + po_total p"
  using assms
  by (induction m) (auto simp: pending_jobs_def pending_value_def ac_simps split: if_splits)

lemma pending_modify_split:
  assumes "distinct (map_keys m)" "map_of m k = Some p"
    and "payout_jobs (f p) = payout_jobs p + J" "po_total (f p) = po_total p + v"
  shows "pending_jobs (map_modify k f m) = pending_jobs m + J"
    and "pending_value (map_modify k f m) = pending_value m + v"
  using assms
  by (induction m)
    (auto simp: pending_jobs_def pending_value_def ac_simps map_modify_absent split: if_splits)

lemma pending_update_new:
  assumes "map_of m k = None"
  shows "pending_jobs (AList.update k p m) = pending_jobs m + payout_jobs p"
    and "pending_value (AList.update k p m) = pending_value m + po_total p"
proof -
  from assms have "k \<notin> set (map_keys m)" by (simp add: map_of_eq_None_iff)
  then show "pending_jobs (AList.update k p m) = pending_jobs m + payout_jobs p"
    and "pending_value (AList.update k p m) = pending_value m + po_total p"
    by (simp_all add: update_absent pending_jobs_append pending_value_append)
qed

lemmas pending_split = pending_delete_split pending_modify_split pending_update_new

text \<open>
  Everything a distributor holds: pending payouts, payouts whose settlement is in flight (with
  the mark of the one \<open>settleAll\<close> waits for), the \<open>onSettled\<close> calls and the
  \<open>onFailed\<close> calls (worker, payout given up, error text) made so far.
\<close>

type_synonym inflight = "(PendingPayout \<times> bool) list"

definition inflight_jobs :: "inflight \<Rightarrow> (string \<times> string) multiset" where
  "inflight_jobs fl = sum_list (map (payout_jobs \<circ> fst) fl)"

definition inflight_value :: "inflight \<Rightarrow> rat" where
  "inflight_value fl = sum_list (map (po_total \<circ> fst) fl)"

definition held_jobs ::
  "PendingPayout jsmap \<Rightarrow> inflight \<Rightarrow> SettlementResult list \<Rightarrow> failed_call list \<Rightarrow> (string \<times> string) multiset" where
  "held_jobs m fl st fd =
     pending_jobs m + inflight_jobs fl + sum_list (map result_jobs st) + sum_list (map failed_jobs fd)"

definition held_worth ::
  "PendingPayout jsmap \<Rightarrow> inflight \<Rightarrow> SettlementResult list \<Rightarrow> failed_call list \<Rightarrow> rat" where
  "held_worth m fl st fd =
     pending_value m + inflight_value fl + sum_list (map sr_amount st)
     + sum_list (map (po_total \<circ> fst \<circ> snd) fd)"

definition awaited_count :: "inflight \<Rightarrow> nat" where
  "awaited_count fl = length (filter snd fl)"

definition loop_wf :: "bool \<Rightarrow> settle_loop \<Rightarrow> inflight \<Rightarrow> bool" where
  "loop_wf settling l fl \<longleftrightarrow>
     (settling \<longleftrightarrow> l \<noteq> LoopIdle) \<and>
     awaited_count fl = (case l of LoopAwait _ \<Rightarrow> 1 | _ \<Rightarrow> 0)"

lemma inflight_simps [simp]:
  "inflight_jobs [] = {#}" "inflight_value [] = 0" "awaited_count [] = 0"
  "inflight_jobs (fl @ [(p, b)]) = inflight_jobs fl + payout_jobs p"
  "inflight_value (fl @ [(p, b)]) = inflight_value fl + po_total p"
  "awaited_count (fl @ [(p, b)]) = awaited_count fl + (if b then 1 else 0)"
  by (simp_all add: inflight_jobs_def inflight_value_def awaited_count_def)

lemma inflight_remove1:
  assumes "(p, b) \<in> set fl"
  shows "inflight_jobs fl = inflight_jobs (remove1 (p, b) fl) + payout_jobs p"
    and "inflight_value fl = inflight_value (remove1 (p, b) fl) + po_total p"
    and "awaited_count fl = awaited_count (remove1 (p, b) fl) + (if b then 1 else 0)"
  using assms
  by (induction fl) (auto simp: inflight_jobs_def inflight_value_def awaited_count_def ac_simps)

lemma loop_wf_return:
  assumes "loop_wf s l fl" "(p, b) \<in> set fl"
  shows "loop_wf s (if b then loop_continue l else l) (remove1 (p, b) fl)"
  using assms inflight_remove1(3) [of p b fl]
  by (auto simp: loop_wf_def loop_continue_def split: settle_loop.splits if_splits)

lemma payout_jobs_simps:
  "payout_jobs (p\<lparr>po_retryCount := n\<rparr>) = payout_jobs p"
  "payout_jobs (p\<lparr>po_jobIds := xs @ po_jobIds p, po_total := t\<rparr>) =
     payout_jobs p + image_mset (Pair (po_worker p)) (mset xs)"
  "payout_jobs (p\<lparr>po_jobIds := po_jobIds p @ xs, po_total := t\<rparr>) =
     payout_jobs p + image_mset (Pair (po_worker p)) (mset xs)"
  by (simp_all add: payout_jobs_def)

text \<open>Jobs merged into the entry of a worker, in front (a retry) or behind (a new job).\<close>

lemma pending_merge_front:
  fixes xs :: "string list" and v :: rat
  assumes "pending_wf m" "map_of m w = Some cur"
  defines "m' \<equiv> map_modify w (\<lambda>c. c\<lparr>po_jobIds := xs @ po_jobIds c, po_total := po_total c + v\<rparr>) m"
  shows "pending_jobs m' = pending_jobs m + image_mset (Pair w) (mset xs)"
    and "pending_value m' = pending_value m + v" and "pending_wf m'"
proof -
  have w: "po_worker cur = w" using assms by (blast dest: pending_wf_lookup)
  have d: "distinct (map_keys m)" using assms by (simp add: pending_wf_def)
  show "pending_jobs m' = pending_jobs m + image_mset (Pair w) (mset xs)"
    unfolding m'_def
    by (rule pending_modify_split(1) [OF d assms(2), where v = v]) (simp_all add: payout_jobs_simps w)
  show "pending_value m' = pending_value m + v"
    unfolding m'_def
    by (rule pending_modify_split(2) [OF d assms(2), where J = "image_mset (Pair w) (mset xs)"])
      (simp_all add: payout_jobs_simps w)
  show "pending_wf m'"
    unfolding m'_def using assms by (intro pending_wf_modify) auto
qed

lemma pending_merge_back:
  fixes xs :: "string list" and v :: rat
  assumes "pending_wf m" "map_of m w = Some cur"
  defines "m' \<equiv> map_modify w (\<lambda>c. c\<lparr>po_jobIds := po_jobIds c @ xs, po_total := po_total c + v\<rparr>) m"
  shows "pending_jobs m' = pending_jobs m + image_mset (Pair w) (mset xs)"
    and "pending_value m' = pending_value m + v" and "pending_wf m'"
proof -
  have w: "po_worker cur = w" using assms by (blast dest: pending_wf_lookup)
  have d: "distinct (map_keys m)" using assms by (simp add: pending_wf_def)
  show "pending_jobs m' = pending_jobs m + image_mset (Pair w) (mset xs)"
    unfolding m'_def
    by (rule pending_modify_split(1) [OF d assms(2), where v = v]) (simp_all add: payout_jobs_simps w)
  show "pending_value m' = pending_value m + v"
    unfolding m'_def
    by (rule pending_modify_split(2) [OF d assms(2), where J = "image_mset (Pair w) (mset xs)"])
      (simp_all add: payout_jobs_simps w)
  show "pending_wf m'"
    unfolding m'_def using assms by (intro pending_wf_modify) auto
qed

subsection \<open>The contract\<close>

text \<open>
  A run queues payouts (worker, job, amount) one after another, with any number of internal
  steps (settlements starting, succeeding, failing) in between.
\<close>

inductive payout_run ::
  "(string \<Rightarrow> string \<Rightarrow> rat \<Rightarrow> 'd \<Rightarrow> 'd) \<Rightarrow> ('d \<Rightarrow> 'd \<Rightarrow> bool) \<Rightarrow> 'd \<Rightarrow> (string \<times> string \<times> rat) list \<Rightarrow> 'd \<Rightarrow> bool"
  for queue internal where
  run_start: "payout_run queue internal d [] d"
| run_queue: "payout_run queue internal d qs e \<Longrightarrow> payout_run queue internal d (qs @ [(w, j, a)]) (queue w j a e)"
| run_internal: "payout_run queue internal d qs e \<Longrightarrow> internal e e' \<Longrightarrow> payout_run queue internal d qs e'"

locale payout_ledger =
  fixes inv :: "'d \<Rightarrow> bool"
    and queue :: "string \<Rightarrow> string \<Rightarrow> rat \<Rightarrow> 'd \<Rightarrow> 'd"
    and internal :: "'d \<Rightarrow> 'd \<Rightarrow> bool"
    and account :: "'d \<Rightarrow> (string \<times> string) multiset"
    and worth :: "'d \<Rightarrow> rat"
  assumes inv_queue: "inv d \<Longrightarrow> inv (queue w j a d)"
    and inv_internal: "inv d \<Longrightarrow> internal d d' \<Longrightarrow> inv d'"
    and account_queue: "inv d \<Longrightarrow> account (queue w j a d) = add_mset (w, j) (account d)"
    and account_internal: "inv d \<Longrightarrow> internal d d' \<Longrightarrow> account d' = account d"
    and worth_queue: "inv d \<Longrightarrow> worth (queue w j a d) = worth d + a"
    and worth_internal: "inv d \<Longrightarrow> internal d d' \<Longrightarrow> worth d' = worth d"
begin

lemma run_conserves:
  assumes "payout_run queue internal d qs e" "inv d"
  shows "inv e \<and> account e = account d + mset (map (\<lambda>(w, j, a). (w, j)) qs)
     \<and> worth e = worth d + sum_list (map (\<lambda>(w, j, a). a) qs)"
  using assms
proof (induction rule: payout_run.induct)
  case (run_start d)
  then show ?case by simp
next
  case (run_queue d qs e w j a)
  then have IH: "inv e" "account e = account d + mset (map (\<lambda>(w, j, a). (w, j)) qs)"
    "worth e = worth d + sum_list (map (\<lambda>(w, j, a). a) qs)" by auto
  show ?case
    using IH account_queue [OF IH(1)] worth_queue [OF IH(1)] inv_queue [OF IH(1)] by simp
next
  case (run_internal d qs e e')
  then show ?case
    using inv_internal account_internal worth_internal by auto
qed

end

end
