(* ===== verification/BoltDist.thy ===== *)
theory BoltDist
  imports Payouts
begin

section \<open>\<open>BoltDistributor\<close>\<close>

text \<open>
  \<open>apps/coordinator-core/src/bolt/BoltDistributor.ts\<close>. An \<open>async\<close> method is split
  at its awaits: \<open>bolt_settleWorker\<close> is the part that runs before the first await (it takes
  the payout out of the map and builds the worker's public key), \<open>bolt_confirm\<close> and
  \<open>bolt_abort\<close> are the two ways the awaited chain ends. What is in flight in between is a
  list in the state, so any interleaving of settlements, new payouts and timer ticks is a run.

  \<open>new PublicKey(text)\<close> of \<open>@solana/web3.js\<close> is the argument \<open>pkError\<close>: the
  error text it throws for a base58 string, \<open>None\<close> when it accepts it (a 32-byte buffer, the
  hexadecimal branch, is always accepted). \<open>bd_transfers\<close> logs the token transfers that
  reached the chain; a failed confirmation may or may not have landed (\<open>landed\<close>).
\<close>

datatype BoltSettlementMode = AuthorityMode | JupiterMode

record bolt_dist =
  bd_pending :: "PendingPayout jsmap"
  bd_decimals :: nat
  bd_mode :: BoltSettlementMode
  bd_timer :: bool
  bd_settling :: bool
  bd_loop :: settle_loop
  bd_inflight :: inflight
  bd_settled :: "SettlementResult list"
  bd_failed :: "failed_call list"
  bd_transfers :: "(string \<times> string list \<times> int) list"

definition BOLT_JOBS_THRESHOLD :: nat where "BOLT_JOBS_THRESHOLD = 1"

definition bolt_new :: "nat option \<Rightarrow> BoltSettlementMode option \<Rightarrow> bolt_dist" where
  "bolt_new decimals mode =
     \<lparr>bd_pending = [], bd_decimals = (case decimals of Some n \<Rightarrow> n | None \<Rightarrow> 9),
      bd_mode = (case mode of Some m \<Rightarrow> m | None \<Rightarrow> AuthorityMode), bd_timer = True,
      bd_settling = False, bd_loop = LoopIdle, bd_inflight = [], bd_settled = [], bd_failed = [],
      bd_transfers = []\<rparr>"

text \<open>The test \<open>/^[0-9a-f]{64}$/i\<close>.\<close>

definition is_hex64 :: "string \<Rightarrow> bool" where
  "is_hex64 s \<longleftrightarrow> length s = 64 \<and> list_all (\<lambda>c. hex_value c \<noteq> None) s"

text \<open>The \<open>catch\<close> block of \<open>settleWorker\<close>.\<close>

definition bolt_catch :: "string \<Rightarrow> PendingPayout \<Rightarrow> string \<Rightarrow> bolt_dist \<Rightarrow> bolt_dist" where
  "bolt_catch workerPubkey p errMsg d =
     (let payout = p\<lparr>po_retryCount := po_retryCount p + 1\<rparr> in
      if po_retryCount payout < 3 then
        (case map_of (bd_pending d) workerPubkey of
           Some _ \<Rightarrow>
             d\<lparr>bd_pending := map_modify workerPubkey
                  (\<lambda>current. current\<lparr>po_jobIds := po_jobIds payout @ po_jobIds current,
                                      po_total := po_total current + po_total payout\<rparr>)
                  (bd_pending d)\<rparr>
         | None \<Rightarrow> d\<lparr>bd_pending := AList.update workerPubkey payout (bd_pending d)\<rparr>)
      else d\<lparr>bd_failed := bd_failed d @ [(workerPubkey, payout, errMsg)]\<rparr>)"

text \<open>\<open>settleWorker\<close> has returned: \<open>settleAll\<close>, if it was waiting for it, goes on.\<close>

definition bolt_return :: "bool \<Rightarrow> bolt_dist \<Rightarrow> bolt_dist" where
  "bolt_return awaited d = (if awaited then d\<lparr>bd_loop := loop_continue (bd_loop d)\<rparr> else d)"

definition bolt_settleWorker :: "(string \<Rightarrow> string option) \<Rightarrow> bool \<Rightarrow> string \<Rightarrow> bolt_dist \<Rightarrow> bolt_dist" where
  "bolt_settleWorker pkError awaited workerPubkey d =
     (case map_of (bd_pending d) workerPubkey of
        None \<Rightarrow> bolt_return awaited d
      | Some payout \<Rightarrow>
          if po_jobIds payout = [] then bolt_return awaited d
          else
            (let d1 = d\<lparr>bd_pending := AList.delete workerPubkey (bd_pending d)\<rparr> in
             case (if is_hex64 workerPubkey then None else pkError workerPubkey) of
               Some err \<Rightarrow> bolt_return awaited (bolt_catch workerPubkey payout err d1)
             | None \<Rightarrow> d1\<lparr>bd_inflight := bd_inflight d1 @ [(payout, awaited)]\<rparr>))"

definition bolt_queuePayout :: "(string \<Rightarrow> string option) \<Rightarrow> string \<Rightarrow> string \<Rightarrow> rat \<Rightarrow> bolt_dist \<Rightarrow> bolt_dist" where
  "bolt_queuePayout pkError workerPubkey jobId boltAmount d =
     (case map_of (bd_pending d) workerPubkey of
        Some existing \<Rightarrow>
          (let d1 = d\<lparr>bd_pending := map_modify workerPubkey
                  (\<lambda>e. e\<lparr>po_jobIds := po_jobIds e @ [jobId], po_total := po_total e + boltAmount\<rparr>)
                  (bd_pending d)\<rparr> in
           if length (po_jobIds existing @ [jobId]) \<ge> BOLT_JOBS_THRESHOLD
           then bolt_settleWorker pkError False workerPubkey d1 else d1)
      | None \<Rightarrow>
          d\<lparr>bd_pending := AList.update workerPubkey
               \<lparr>po_worker = workerPubkey, po_jobIds = [jobId], po_total = boltAmount, po_retryCount = 0\<rparr>
               (bd_pending d)\<rparr>)"

text \<open>One turn of the \<open>for\<close> loop of \<open>settleAll\<close>, and its \<open>finally\<close>.\<close>

definition bolt_settleAll_next :: "(string \<Rightarrow> string option) \<Rightarrow> bolt_dist \<Rightarrow> bolt_dist" where
  "bolt_settleAll_next pkError d =
     (case bd_loop d of
        LoopNext [] \<Rightarrow> d\<lparr>bd_loop := LoopIdle, bd_settling := False\<rparr>
      | LoopNext (k # ks) \<Rightarrow> bolt_settleWorker pkError True k (d\<lparr>bd_loop := LoopAwait ks\<rparr>)
      | _ \<Rightarrow> d)"

definition bolt_settleAll :: "(string \<Rightarrow> string option) \<Rightarrow> bolt_dist \<Rightarrow> bolt_dist" where
  "bolt_settleAll pkError d =
     (if bd_settling d then d
      else bolt_settleAll_next pkError
             (d\<lparr>bd_settling := True, bd_loop := LoopNext (map_keys (bd_pending d))\<rparr>))"

text \<open>The transfer was confirmed: log it, call \<open>onSettled\<close>.\<close>

definition bolt_confirm :: "PendingPayout \<times> bool \<Rightarrow> string \<Rightarrow> bolt_dist \<Rightarrow> bolt_dist" where
  "bolt_confirm f txHash d =
     (let payout = fst f;
          rawAmount = js_round (po_total payout * 10 ^ bd_decimals d) in
      bolt_return (snd f)
        (d\<lparr>bd_inflight := remove1 f (bd_inflight d),
           bd_transfers := bd_transfers d @ [(po_worker payout, po_jobIds payout, rawAmount)],
           bd_settled := bd_settled d @
             [\<lparr>sr_worker = po_worker payout, sr_jobIds = po_jobIds payout, sr_txHash = txHash,
               sr_amount = po_total payout\<rparr>]\<rparr>))"

text \<open>Something in the awaited chain threw; the transaction may have landed all the same.\<close>

definition bolt_abort :: "PendingPayout \<times> bool \<Rightarrow> string \<Rightarrow> bool \<Rightarrow> bolt_dist \<Rightarrow> bolt_dist" where
  "bolt_abort f errMsg landed d =
     (let payout = fst f;
          rawAmount = js_round (po_total payout * 10 ^ bd_decimals d);
          d1 = d\<lparr>bd_inflight := remove1 f (bd_inflight d),
                 bd_transfers := bd_transfers d @
                   (if landed then [(po_worker payout, po_jobIds payout, rawAmount)] else [])\<rparr> in
      bolt_return (snd f) (bolt_catch (po_worker payout) payout errMsg d1))"

definition bolt_shutdown :: "bolt_dist \<Rightarrow> bolt_dist" where
  "bolt_shutdown d = (if bd_timer d then d\<lparr>bd_timer := False\<rparr> else d)"

text \<open>The steps the class takes on its own; \<open>lands\<close> says whether a failed send may have
  landed.\<close>

inductive bolt_internal :: "(string \<Rightarrow> string option) \<Rightarrow> bool \<Rightarrow> bolt_dist \<Rightarrow> bolt_dist \<Rightarrow> bool"
  for pkError lands where
  bolt_tick: "bd_timer d \<Longrightarrow> bolt_internal pkError lands d (bolt_settleAll pkError d)"
| bolt_next: "bd_loop d = LoopNext ks \<Longrightarrow> bolt_internal pkError lands d (bolt_settleAll_next pkError d)"
| bolt_ok: "f \<in> set (bd_inflight d) \<Longrightarrow> bolt_internal pkError lands d (bolt_confirm f txHash d)"
| bolt_fail: "f \<in> set (bd_inflight d) \<Longrightarrow> (landed \<Longrightarrow> lands) \<Longrightarrow>
     bolt_internal pkError lands d (bolt_abort f errMsg landed d)"

subsection \<open>The ledger contract\<close>

definition bolt_inv :: "bolt_dist \<Rightarrow> bool" where
  "bolt_inv d \<longleftrightarrow>
     pending_wf (bd_pending d) \<and> (\<forall>f \<in> set (bd_inflight d). po_jobIds (fst f) \<noteq> []) \<and>
     loop_wf (bd_settling d) (bd_loop d) (bd_inflight d)"

definition bolt_account :: "bolt_dist \<Rightarrow> (string \<times> string) multiset" where
  "bolt_account d = held_jobs (bd_pending d) (bd_inflight d) (bd_settled d) (bd_failed d)"

definition bolt_worth :: "bolt_dist \<Rightarrow> rat" where
  "bolt_worth d = held_worth (bd_pending d) (bd_inflight d) (bd_settled d) (bd_failed d)"

lemmas bolt_ledger_defs =
  bolt_account_def bolt_worth_def held_jobs_def held_worth_def failed_jobs_def result_jobs_def

text \<open>Putting a failed payout back, or giving it up, keeps every job and the value.\<close>

lemma bolt_catch_fields [simp]:
  "bd_inflight (bolt_catch w p e d) = bd_inflight d" "bd_settling (bolt_catch w p e d) = bd_settling d"
  "bd_loop (bolt_catch w p e d) = bd_loop d" "bd_settled (bolt_catch w p e d) = bd_settled d"
  "bd_transfers (bolt_catch w p e d) = bd_transfers d" "bd_timer (bolt_catch w p e d) = bd_timer d"
  by (simp_all add: bolt_catch_def Let_def split: option.splits)

lemma bolt_return_fields [simp]:
  "bd_pending (bolt_return b d) = bd_pending d" "bd_inflight (bolt_return b d) = bd_inflight d"
  "bd_settled (bolt_return b d) = bd_settled d" "bd_failed (bolt_return b d) = bd_failed d"
  "bd_settling (bolt_return b d) = bd_settling d" "bd_transfers (bolt_return b d) = bd_transfers d"
  "bd_timer (bolt_return b d) = bd_timer d"
  "bolt_account (bolt_return b d) = bolt_account d" "bolt_worth (bolt_return b d) = bolt_worth d"
  by (simp_all add: bolt_return_def bolt_account_def bolt_worth_def)

lemma bolt_catch_wf:
  assumes "pending_wf (bd_pending d)" "po_worker p = w" "po_jobIds p \<noteq> []"
  shows "pending_wf (bd_pending (bolt_catch w p e d))"
  using assms
  by (auto simp: bolt_catch_def Let_def intro!: pending_wf_update pending_wf_modify split: option.splits)

lemma bolt_catch_account:
  assumes wf: "pending_wf (bd_pending d)" and w: "po_worker p = w"
  shows "bolt_account (bolt_catch w p e d) = bolt_account d + payout_jobs p"
    and "bolt_worth (bolt_catch w p e d) = bolt_worth d + po_total p"
proof -
  have "bolt_account (bolt_catch w p e d) = bolt_account d + payout_jobs p
      \<and> bolt_worth (bolt_catch w p e d) = bolt_worth d + po_total p"
  proof (cases "po_retryCount p + 1 < 3")
    case False
    then show ?thesis using w
      by (simp add: bolt_catch_def bolt_ledger_defs payout_jobs_def)
  next
    case retry: True
    show ?thesis
    proof (cases "map_of (bd_pending d) w")
      case None
      with retry show ?thesis
        by (simp add: bolt_catch_def bolt_ledger_defs pending_update_new payout_jobs_simps)
    next
      case (Some cur)
      with retry w show ?thesis
        by (simp add: bolt_catch_def bolt_ledger_defs payout_jobs_def pending_merge_front [OF wf Some])
    qed
  qed
  then show "bolt_account (bolt_catch w p e d) = bolt_account d + payout_jobs p"
    and "bolt_worth (bolt_catch w p e d) = bolt_worth d + po_total p" by auto
qed

text \<open>Taking a payout out of the map: it goes in flight, or straight to the catch block.\<close>

lemma bolt_settleWorker_cases:
  assumes "pending_wf (bd_pending d)"
  obtains
    (absent) "map_of (bd_pending d) w = None" "bolt_settleWorker pk b w d = bolt_return b d"
  | (rejected) p err where "map_of (bd_pending d) w = Some p" "\<not> is_hex64 w" "pk w = Some err"
      "bolt_settleWorker pk b w d =
         bolt_return b (bolt_catch w p err (d\<lparr>bd_pending := AList.delete w (bd_pending d)\<rparr>))"
  | (started) p where "map_of (bd_pending d) w = Some p"
      "bolt_settleWorker pk b w d =
         d\<lparr>bd_pending := AList.delete w (bd_pending d), bd_inflight := bd_inflight d @ [(p, b)]\<rparr>"
proof (cases "map_of (bd_pending d) w")
  case None
  then show ?thesis using absent by (simp add: bolt_settleWorker_def)
next
  case (Some p)
  with assms have "po_jobIds p \<noteq> []" by (blast dest: pending_wf_lookup)
  then show ?thesis
    using Some rejected started
    by (cases "is_hex64 w"; cases "pk w") (auto simp: bolt_settleWorker_def)
qed

lemma bolt_settleWorker_ledger:
  assumes wf: "pending_wf (bd_pending d)"
  shows "bolt_account (bolt_settleWorker pk b w d) = bolt_account d"
    and "bolt_worth (bolt_settleWorker pk b w d) = bolt_worth d"
proof -
  have "bolt_account (bolt_settleWorker pk b w d) = bolt_account d \<and>
        bolt_worth (bolt_settleWorker pk b w d) = bolt_worth d"
    using wf
  proof (cases rule: bolt_settleWorker_cases [where pk = pk and b = b and w = w])
    case absent
    then show ?thesis by simp
  next
    case (rejected p err)
    let ?d = "d\<lparr>bd_pending := AList.delete w (bd_pending d)\<rparr>"
    have "pending_wf (bd_pending ?d)" using wf by (simp add: pending_wf_delete)
    moreover have "po_worker p = w" using wf rejected by (blast dest: pending_wf_lookup)
    ultimately have "bolt_account (bolt_catch w p err ?d) = bolt_account ?d + payout_jobs p"
      and "bolt_worth (bolt_catch w p err ?d) = bolt_worth ?d + po_total p"
      by (simp_all only: bolt_catch_account)
    then show ?thesis
      using rejected wf pending_delete_split [of "bd_pending d" w p]
      by (simp add: bolt_ledger_defs pending_wf_def ac_simps)
  next
    case (started p)
    then show ?thesis
      using wf pending_delete_split [of "bd_pending d" w p]
      by (simp add: bolt_ledger_defs pending_wf_def ac_simps)
  qed
  then show "bolt_account (bolt_settleWorker pk b w d) = bolt_account d"
    and "bolt_worth (bolt_settleWorker pk b w d) = bolt_worth d" by auto
qed

text \<open>
  The loop state when \<open>settleWorker\<close> starts: started by \<open>queuePayout\<close> it leaves the
  loop alone; started by the loop (which then stands at \<open>LoopAwait\<close> with nothing awaited
  yet) it either is the awaited settlement or lets the loop go on.
\<close>

lemma bolt_settleWorker_inv:
  assumes wf: "pending_wf (bd_pending d)" and ne: "\<forall>f \<in> set (bd_inflight d). po_jobIds (fst f) \<noteq> []"
    and loop: "if b then bd_settling d \<and> awaited_count (bd_inflight d) = 0 \<and> bd_loop d = LoopAwait ks
               else loop_wf (bd_settling d) (bd_loop d) (bd_inflight d)"
  shows "bolt_inv (bolt_settleWorker pk b w d)"
  using wf
proof (cases rule: bolt_settleWorker_cases [where pk = pk and b = b and w = w])
  case absent
  then show ?thesis
    using assms by (auto simp: bolt_inv_def bolt_return_def loop_wf_def loop_continue_def split: if_splits)
next
  case (rejected p err)
  have "po_worker p = w \<and> po_jobIds p \<noteq> []" using wf rejected by (blast dest: pending_wf_lookup)
  then have "pending_wf (bd_pending (bolt_catch w p err (d\<lparr>bd_pending := AList.delete w (bd_pending d)\<rparr>)))"
    using wf by (intro bolt_catch_wf) (auto simp: pending_wf_delete)
  then show ?thesis
    using assms rejected
    by (auto simp: bolt_inv_def bolt_return_def loop_wf_def loop_continue_def split: if_splits)
next
  case (started p)
  have "po_jobIds p \<noteq> []" using wf started by (blast dest: pending_wf_lookup)
  then show ?thesis
    using assms started
    by (auto simp: bolt_inv_def loop_wf_def pending_wf_delete split: if_splits settle_loop.splits)
qed

subsection \<open>Every operation keeps the invariant and the ledger\<close>

lemma bolt_inv_new: "bolt_inv (bolt_new dec mode)"
  by (simp add: bolt_inv_def bolt_new_def loop_wf_def)

lemma bolt_queuePayout_new:
  assumes "map_of (bd_pending d) w = None"
  shows "bolt_queuePayout pk w j a d =
    d\<lparr>bd_pending := AList.update w
         \<lparr>po_worker = w, po_jobIds = [j], po_total = a, po_retryCount = 0\<rparr> (bd_pending d)\<rparr>"
  using assms by (simp add: bolt_queuePayout_def)

lemma bolt_queuePayout_existing:
  assumes "map_of (bd_pending d) w = Some p"
  shows "bolt_queuePayout pk w j a d =
    bolt_settleWorker pk False w
      (d\<lparr>bd_pending := map_modify w
         (\<lambda>e. e\<lparr>po_jobIds := po_jobIds e @ [j], po_total := po_total e + a\<rparr>) (bd_pending d)\<rparr>)"
  using assms by (simp add: bolt_queuePayout_def BOLT_JOBS_THRESHOLD_def)

lemma bolt_queuePayout_inv:
  assumes "bolt_inv d"
  shows "bolt_inv (bolt_queuePayout pk w j a d)"
proof (cases "map_of (bd_pending d) w")
  case None
  with assms show ?thesis
    by (simp add: bolt_queuePayout_new bolt_inv_def pending_wf_update)
next
  case (Some p)
  have wf: "pending_wf (bd_pending d)" using assms by (simp add: bolt_inv_def)
  show ?thesis
    unfolding bolt_queuePayout_existing [OF Some]
    using assms pending_merge_back(3) [OF wf Some, where xs = "[j]"]
    by (intro bolt_settleWorker_inv) (simp_all add: bolt_inv_def)
qed

lemma bolt_queuePayout_ledger:
  assumes "bolt_inv d"
  shows "bolt_account (bolt_queuePayout pk w j a d) = add_mset (w, j) (bolt_account d)"
    and "bolt_worth (bolt_queuePayout pk w j a d) = bolt_worth d + a"
proof -
  have wf: "pending_wf (bd_pending d)" using assms by (simp add: bolt_inv_def)
  have "bolt_account (bolt_queuePayout pk w j a d) = add_mset (w, j) (bolt_account d)
      \<and> bolt_worth (bolt_queuePayout pk w j a d) = bolt_worth d + a"
  proof (cases "map_of (bd_pending d) w")
    case None
    then show ?thesis
      by (simp add: bolt_queuePayout_new bolt_ledger_defs pending_update_new payout_jobs_def)
  next
    case (Some p)
    note merge = pending_merge_back [OF wf Some, where xs = "[j]" and v = a]
    then show ?thesis
      unfolding bolt_queuePayout_existing [OF Some]
      by (simp add: bolt_settleWorker_ledger) (simp add: bolt_ledger_defs)
  qed
  then show "bolt_account (bolt_queuePayout pk w j a d) = add_mset (w, j) (bolt_account d)"
    and "bolt_worth (bolt_queuePayout pk w j a d) = bolt_worth d + a" by auto
qed

lemma bolt_settleAll_next_inv:
  assumes "bolt_inv d"
  shows "bolt_inv (bolt_settleAll_next pk d)"
proof (cases "bd_loop d")
  case (LoopNext ks)
  show ?thesis
  proof (cases ks)
    case Nil
    with LoopNext assms show ?thesis by (simp add: bolt_settleAll_next_def bolt_inv_def loop_wf_def)
  next
    case (Cons k ks')
    have "bolt_inv (bolt_settleWorker pk True k (d\<lparr>bd_loop := LoopAwait ks'\<rparr>))"
      using assms LoopNext
      by (intro bolt_settleWorker_inv [where ks = ks']) (simp_all add: bolt_inv_def loop_wf_def)
    with LoopNext Cons show ?thesis by (simp add: bolt_settleAll_next_def)
  qed
qed (simp_all add: bolt_settleAll_next_def assms)

lemma bolt_settleAll_next_ledger:
  assumes "bolt_inv d"
  shows "bolt_account (bolt_settleAll_next pk d) = bolt_account d"
    and "bolt_worth (bolt_settleAll_next pk d) = bolt_worth d"
proof -
  have "pending_wf (bd_pending d)" using assms by (simp add: bolt_inv_def)
  then show "bolt_account (bolt_settleAll_next pk d) = bolt_account d"
    and "bolt_worth (bolt_settleAll_next pk d) = bolt_worth d"
    by (simp_all add: bolt_settleAll_next_def bolt_settleWorker_ledger split: settle_loop.splits list.splits)
      (simp_all add: bolt_account_def bolt_worth_def)
qed

lemma bolt_settleAll_start_inv:
  "bolt_inv d \<Longrightarrow> \<not> bd_settling d \<Longrightarrow>
   bolt_inv (d\<lparr>bd_settling := True, bd_loop := LoopNext (map_keys (bd_pending d))\<rparr>)"
  by (simp add: bolt_inv_def loop_wf_def)

lemma bolt_settleAll_inv: "bolt_inv d \<Longrightarrow> bolt_inv (bolt_settleAll pk d)"
  by (simp add: bolt_settleAll_def bolt_settleAll_next_inv bolt_settleAll_start_inv)

lemma bolt_settleAll_ledger:
  assumes "bolt_inv d"
  shows "bolt_account (bolt_settleAll pk d) = bolt_account d"
    and "bolt_worth (bolt_settleAll pk d) = bolt_worth d"
proof -
  have "bolt_account (d\<lparr>bd_settling := True, bd_loop := l\<rparr>) = bolt_account d"
    "bolt_worth (d\<lparr>bd_settling := True, bd_loop := l\<rparr>) = bolt_worth d" for l
    by (simp_all add: bolt_account_def bolt_worth_def)
  with assms show "bolt_account (bolt_settleAll pk d) = bolt_account d"
    and "bolt_worth (bolt_settleAll pk d) = bolt_worth d"
    by (simp_all add: bolt_settleAll_def bolt_settleAll_next_ledger bolt_settleAll_start_inv)
qed

lemma bolt_return_loop: "bd_loop (bolt_return b d) = (if b then loop_continue (bd_loop d) else bd_loop d)"
  by (simp add: bolt_return_def)

lemma bolt_confirm_inv:
  assumes "bolt_inv d" "f \<in> set (bd_inflight d)"
  shows "bolt_inv (bolt_confirm f tx d)"
  using assms loop_wf_return [of "bd_settling d" "bd_loop d" "bd_inflight d" "fst f" "snd f"]
  by (auto simp: bolt_inv_def bolt_confirm_def bolt_return_loop dest: notin_set_remove1)

lemma bolt_confirm_ledger:
  assumes "f \<in> set (bd_inflight d)"
  shows "bolt_account (bolt_confirm f tx d) = bolt_account d"
    and "bolt_worth (bolt_confirm f tx d) = bolt_worth d"
  using assms inflight_remove1 [of "fst f" "snd f" "bd_inflight d"]
  by (simp_all add: bolt_confirm_def bolt_ledger_defs payout_jobs_def ac_simps)

lemma bolt_abort_inv:
  assumes "bolt_inv d" "f \<in> set (bd_inflight d)"
  shows "bolt_inv (bolt_abort f err landed d)"
proof -
  have "po_jobIds (fst f) \<noteq> []" using assms by (auto simp: bolt_inv_def)
  then show ?thesis
    using assms loop_wf_return [of "bd_settling d" "bd_loop d" "bd_inflight d" "fst f" "snd f"]
    by (auto simp: bolt_inv_def bolt_abort_def Let_def bolt_return_loop intro: bolt_catch_wf
        dest: notin_set_remove1)
qed

lemma bolt_abort_ledger:
  assumes "bolt_inv d" "f \<in> set (bd_inflight d)"
  shows "bolt_account (bolt_abort f err landed d) = bolt_account d"
    and "bolt_worth (bolt_abort f err landed d) = bolt_worth d"
  using assms inflight_remove1 [of "fst f" "snd f" "bd_inflight d"]
  by (simp_all add: bolt_abort_def Let_def bolt_catch_account bolt_inv_def)
    (simp_all add: bolt_ledger_defs ac_simps)

lemma bolt_internal_inv:
  assumes "bolt_internal pk lands d d'" "bolt_inv d"
  shows "bolt_inv d'"
  using assms
  by (cases rule: bolt_internal.cases)
    (auto intro: bolt_settleAll_inv bolt_settleAll_next_inv bolt_confirm_inv bolt_abort_inv)

lemma bolt_internal_ledger:
  assumes "bolt_internal pk lands d d'" "bolt_inv d"
  shows "bolt_account d' = bolt_account d \<and> bolt_worth d' = bolt_worth d"
  using assms
  by (cases rule: bolt_internal.cases)
    (auto simp: bolt_settleAll_ledger bolt_settleAll_next_ledger bolt_confirm_ledger bolt_abort_ledger)

interpretation boltL: payout_ledger bolt_inv "bolt_queuePayout pk" "bolt_internal pk lands"
  bolt_account bolt_worth for pk lands
  by unfold_locales
    (simp_all add: bolt_queuePayout_inv bolt_queuePayout_ledger bolt_internal_inv bolt_internal_ledger)

subsection \<open>What reaches the chain\<close>

definition transfer_jobs :: "string \<times> string list \<times> int \<Rightarrow> (string \<times> string) multiset" where
  "transfer_jobs t = image_mset (Pair (fst t)) (mset (fst (snd t)))"

lemma bolt_settleWorker_logs [simp]:
  "bd_transfers (bolt_settleWorker pk b w d) = bd_transfers d"
  "bd_settled (bolt_settleWorker pk b w d) = bd_settled d"
  by (simp_all add: bolt_settleWorker_def split: option.splits)

lemma bolt_settleAll_next_logs [simp]:
  "bd_transfers (bolt_settleAll_next pk d) = bd_transfers d"
  "bd_settled (bolt_settleAll_next pk d) = bd_settled d"
  by (simp_all add: bolt_settleAll_next_def split: settle_loop.splits list.splits)

lemma bolt_settleAll_logs [simp]:
  "bd_transfers (bolt_settleAll pk d) = bd_transfers d"
  "bd_settled (bolt_settleAll pk d) = bd_settled d"
  by (simp_all add: bolt_settleAll_def)

lemma bolt_queuePayout_logs [simp]:
  "bd_transfers (bolt_queuePayout pk w j a d) = bd_transfers d"
  "bd_settled (bolt_queuePayout pk w j a d) = bd_settled d"
  by (simp_all add: bolt_queuePayout_def split: option.splits)

lemma bolt_run_transfers:
  assumes "payout_run (bolt_queuePayout pk) (bolt_internal pk False) d qs e"
    and "sum_list (map transfer_jobs (bd_transfers d)) = sum_list (map result_jobs (bd_settled d))"
  shows "sum_list (map transfer_jobs (bd_transfers e)) = sum_list (map result_jobs (bd_settled e))"
  using assms
proof (induction rule: payout_run.induct)
  case (run_internal d qs e e')
  then show ?case
    by (auto elim!: bolt_internal.cases
        simp: bolt_confirm_def bolt_abort_def transfer_jobs_def result_jobs_def)
qed simp_all

text \<open>Payouts of \<open>a\<close> per job: what is pending or in flight is worth \<open>a\<close> times its jobs, and what
  was sent is that, rounded to raw units.\<close>

definition priced :: "rat \<Rightarrow> PendingPayout \<Rightarrow> bool" where
  "priced a p \<longleftrightarrow> po_total p = a * of_nat (length (po_jobIds p))"

definition bolt_priced :: "rat \<Rightarrow> bolt_dist \<Rightarrow> bool" where
  "bolt_priced a d \<longleftrightarrow>
     (\<forall>(k, p) \<in> set (bd_pending d). priced a p) \<and> (\<forall>f \<in> set (bd_inflight d). priced a (fst f)) \<and>
     (\<forall>t \<in> set (bd_transfers d).
        snd (snd t) = js_round (a * of_nat (length (fst (snd t))) * 10 ^ bd_decimals d))"

lemma priced_merge:
  "priced a p \<Longrightarrow> priced a c \<Longrightarrow>
   priced a (c\<lparr>po_jobIds := po_jobIds p @ po_jobIds c, po_total := po_total c + po_total p\<rparr>)"
  "priced a c \<Longrightarrow> priced a (c\<lparr>po_jobIds := po_jobIds c @ [j], po_total := po_total c + a\<rparr>)"
  "priced a (c\<lparr>po_retryCount := n\<rparr>) = priced a c"
  by (simp_all add: priced_def algebra_simps)

lemma bolt_decimals [simp]:
  "bd_decimals (bolt_return b d) = bd_decimals d" "bd_decimals (bolt_catch w p e d) = bd_decimals d"
  "bd_decimals (bolt_settleWorker pk b w d) = bd_decimals d"
  "bd_decimals (bolt_settleAll_next pk d) = bd_decimals d"
  "bd_decimals (bolt_settleAll pk d) = bd_decimals d"
  "bd_decimals (bolt_queuePayout pk w j x d) = bd_decimals d"
  by (simp_all add: bolt_return_def bolt_catch_def bolt_settleWorker_def bolt_settleAll_next_def
      bolt_settleAll_def bolt_queuePayout_def split: option.splits settle_loop.splits list.splits)

lemma bolt_priced_return [simp]: "bolt_priced a (bolt_return b d) = bolt_priced a d"
  by (simp add: bolt_priced_def)

lemma bolt_priced_catch:
  assumes "bolt_priced a d" "priced a p"
  shows "bolt_priced a (bolt_catch w p e d)"
proof -
  have "\<forall>(k, p') \<in> set (bd_pending (bolt_catch w p e d)). priced a p'"
    using assms set_update_subset [of w "p\<lparr>po_retryCount := po_retryCount p + 1\<rparr>" "bd_pending d"]
    by (auto simp: bolt_catch_def bolt_priced_def set_map_modify priced_merge split: option.splits)
  with assms show ?thesis by (simp add: bolt_priced_def)
qed

lemma bolt_priced_settleWorker:
  assumes "bolt_priced a d"
  shows "bolt_priced a (bolt_settleWorker pk b w d)"
proof (cases "map_of (bd_pending d) w")
  case None
  with assms show ?thesis by (simp add: bolt_settleWorker_def)
next
  case (Some p)
  then have p: "priced a p" using assms by (auto simp: bolt_priced_def dest: map_of_SomeD)
  have del: "bolt_priced a (d\<lparr>bd_pending := AList.delete w (bd_pending d)\<rparr>)"
    using assms by (auto simp: bolt_priced_def set_delete_conv)
  then have "bolt_priced a (bolt_catch w p err (d\<lparr>bd_pending := AList.delete w (bd_pending d)\<rparr>))" for err
    using p by (rule bolt_priced_catch)
  with Some p del assms show ?thesis
    by (auto simp: bolt_settleWorker_def split: option.splits) (auto simp: bolt_priced_def)
qed

lemma bolt_priced_queue: "bolt_priced a d \<Longrightarrow> bolt_priced a (bolt_queuePayout pk w j a d)"
proof -
  assume d: "bolt_priced a d"
  show ?thesis
  proof (cases "map_of (bd_pending d) w")
    case None
    then show ?thesis
      using d set_update_subset [of w "\<lparr>po_worker = w, po_jobIds = [j], po_total = a, po_retryCount = 0\<rparr>" "bd_pending d"]
      by (auto simp: bolt_queuePayout_new bolt_priced_def priced_def)
  next
    case (Some p)
    show ?thesis
      unfolding bolt_queuePayout_existing [OF Some]
      by (rule bolt_priced_settleWorker) (use d in \<open>auto simp: bolt_priced_def set_map_modify priced_merge\<close>)
  qed
qed

lemma bolt_priced_next: "bolt_priced a d \<Longrightarrow> bolt_priced a (bolt_settleAll_next pk d)"
  by (auto simp: bolt_settleAll_next_def intro!: bolt_priced_settleWorker split: settle_loop.splits list.splits)
    (auto simp: bolt_priced_def)

lemma bolt_priced_internal:
  assumes "bolt_internal pk lands d d'" "bolt_priced a d"
  shows "bolt_priced a d'"
  using assms
proof (cases rule: bolt_internal.cases)
  case bolt_tick
  have "bolt_priced a (d\<lparr>bd_settling := True, bd_loop := l\<rparr>)" for l
    using assms by (simp add: bolt_priced_def)
  with bolt_tick assms show ?thesis by (simp add: bolt_settleAll_def bolt_priced_next)
next
  case (bolt_next ks)
  with assms show ?thesis by (simp add: bolt_priced_next)
next
  case (bolt_ok f txHash)
  then have "priced a (fst f)" using assms by (auto simp: bolt_priced_def)
  with bolt_ok assms show ?thesis
    by (auto simp: bolt_confirm_def bolt_priced_def priced_def dest: notin_set_remove1)
next
  case (bolt_fail f landed errMsg)
  then have f: "priced a (fst f)" using assms by (auto simp: bolt_priced_def)
  show ?thesis
    unfolding bolt_fail bolt_abort_def Let_def bolt_priced_return
    by (rule bolt_priced_catch)
      (use assms f in \<open>auto simp: bolt_priced_def priced_def dest: notin_set_remove1\<close>)
qed

lemma bolt_internal_decimals: "bolt_internal pk lands d d' \<Longrightarrow> bd_decimals d' = bd_decimals d"
  by (auto elim!: bolt_internal.cases simp: bolt_confirm_def bolt_abort_def)

lemma bolt_run_decimals:
  "payout_run (bolt_queuePayout pk) (bolt_internal pk lands) d qs e \<Longrightarrow> bd_decimals e = bd_decimals d"
  by (induction rule: payout_run.induct) (auto dest: bolt_internal_decimals)

lemma bolt_run_priced:
  assumes "payout_run (bolt_queuePayout pk) (bolt_internal pk lands) d qs e"
    and "\<forall>(w, j, x) \<in> set qs. x = a" "bolt_priced a d"
  shows "bolt_priced a e"
  using assms
  by (induction rule: payout_run.induct) (auto intro: bolt_priced_queue bolt_priced_internal)

subsection \<open>The properties of \<open>BoltDistributor\<close>\<close>

lemma bolt_new_facts:
  "bolt_inv (bolt_new dec mode)" "bolt_account (bolt_new dec mode) = {#}"
  "bolt_worth (bolt_new dec mode) = 0" "bolt_priced a (bolt_new dec mode)"
  "bd_transfers (bolt_new dec mode) = []" "bd_settled (bolt_new dec mode) = []"
  by (simp_all add: bolt_new_def bolt_inv_def bolt_ledger_defs loop_wf_def pending_jobs_def
      pending_value_def bolt_priced_def)

text \<open>A concrete run, for the witnesses: two jobs of a worker are queued, the second starts the
  settlement, and the transfer is confirmed.\<close>

definition bolt_demo :: bolt_dist where
  "bolt_demo =
     bolt_confirm (\<lparr>po_worker = ''w'', po_jobIds = [''a'', ''b''], po_total = 1 / 500, po_retryCount = 0\<rparr>, False) ''tx''
       (bolt_queuePayout (\<lambda>_. None) ''w'' ''b'' (1 / 1000)
         (bolt_queuePayout (\<lambda>_. None) ''w'' ''a'' (1 / 1000) (bolt_new None None)))"

lemma bolt_demo_run:
  "payout_run (bolt_queuePayout (\<lambda>_. None)) (bolt_internal (\<lambda>_. None) False) (bolt_new None None)
     [(''w'', ''a'', 1 / 1000), (''w'', ''b'', 1 / 1000)] bolt_demo"
proof -
  let ?q = "bolt_queuePayout (\<lambda>_. None)"
  let ?d = "?q ''w'' ''b'' (1 / 1000) (?q ''w'' ''a'' (1 / 1000) (bolt_new None None))"
  have run: "payout_run ?q (bolt_internal (\<lambda>_. None) False) (bolt_new None None)
      (([] @ [(''w'', ''a'', 1 / 1000)]) @ [(''w'', ''b'', 1 / 1000)]) ?d"
    by (intro run_queue run_start)
  have "(\<lparr>po_worker = ''w'', po_jobIds = [''a'', ''b''], po_total = 1 / 500, po_retryCount = 0\<rparr>, False)
      \<in> set (bd_inflight ?d)"
    by (simp add: bolt_queuePayout_def bolt_settleWorker_def bolt_new_def is_hex64_def
        BOLT_JOBS_THRESHOLD_def map_modify_def)
  then show ?thesis
    unfolding bolt_demo_def using run_internal [OF run bolt_ok] by simp
qed

text \<open>C5. Conservation in \<open>BoltDistributor\<close>. Over any interleaving of queued payouts,
  timer ticks, settlements that succeed and settlements that fail, each queued job of a worker
  is at the end in exactly one place (pending, in flight, reported settled, reported failed), as
  often as it was queued, and the amounts there sum to the amounts queued.\<close>

theorem bolt_conserves_payouts:
  assumes "payout_run (bolt_queuePayout pkError) (bolt_internal pkError lands) (bolt_new decimals mode) qs d"
  shows "bolt_account d = mset (map (\<lambda>(w, j, a). (w, j)) qs)
    \<and> bolt_worth d = sum_list (map (\<lambda>(w, j, a). a) qs)"
  using boltL.run_conserves [OF assms bolt_new_facts(1)] by (simp add: bolt_new_facts)

theorem bolt_conserves_payouts_witness:
  "bolt_account bolt_demo = {#(''w'', ''a''), (''w'', ''b'')#} \<and> bolt_worth bolt_demo = 1 / 500"
  using bolt_conserves_payouts [OF bolt_demo_run] by simp









end
