(* ===== verification/WBoltDist.thy ===== *)
theory WBoltDist
  imports Payouts
begin

section \<open>\<open>WrappedBoltDistributor\<close>\<close>

text \<open>
  \<open>apps/coordinator-core/src/bolt/WrappedBoltDistributor.ts\<close>: the distributor of the
  Monad coordinator. It mints wBOLT to the coordinator's own address and keeps a custodial
  balance per worker. Its asynchronous methods are split at their awaits, with the settlements in
  flight a list of the state; nothing before the first await of
  \<open>settleWorker\<close> can throw. \<open>txQueue\<close> only delays the transaction, so it adds no
  behaviour to those of an arbitrary order of confirmations. \<open>wb_mints\<close> logs the raw amounts
  minted on the chain; a mint whose confirmation times out may have landed (\<open>landed\<close>).
\<close>

record wbolt_dist =
  wb_pending :: "PendingPayout jsmap"
  wb_balances :: "rat jsmap"
  wb_timer :: bool
  wb_settling :: bool
  wb_loop :: settle_loop
  wb_inflight :: inflight
  wb_settled :: "SettlementResult list"
  wb_failed :: "failed_call list"
  wb_mints :: "int list"

definition WBOLT_JOBS_THRESHOLD :: nat where "WBOLT_JOBS_THRESHOLD = 5"

definition wbolt_new :: wbolt_dist where
  "wbolt_new =
     \<lparr>wb_pending = [], wb_balances = [], wb_timer = True, wb_settling = False, wb_loop = LoopIdle,
      wb_inflight = [], wb_settled = [], wb_failed = [], wb_mints = []\<rparr>"

text \<open>The \<open>catch\<close> block of \<open>settleWorker\<close>.\<close>

definition wbolt_catch :: "string \<Rightarrow> PendingPayout \<Rightarrow> string \<Rightarrow> wbolt_dist \<Rightarrow> wbolt_dist" where
  "wbolt_catch workerPubkey p errMsg d =
     (let payout = p\<lparr>po_retryCount := po_retryCount p + 1\<rparr> in
      if po_retryCount payout < 3 then
        (case map_of (wb_pending d) workerPubkey of
           Some _ \<Rightarrow>
             d\<lparr>wb_pending := map_modify workerPubkey
                  (\<lambda>current. current\<lparr>po_jobIds := po_jobIds payout @ po_jobIds current,
                                      po_total := po_total current + po_total payout\<rparr>)
                  (wb_pending d)\<rparr>
         | None \<Rightarrow> d\<lparr>wb_pending := AList.update workerPubkey payout (wb_pending d)\<rparr>)
      else d\<lparr>wb_failed := wb_failed d @ [(workerPubkey, payout, errMsg)]\<rparr>)"

text \<open>\<open>settleWorker\<close> has returned: \<open>settleAll\<close>, if it was waiting for it, goes on.\<close>

definition wbolt_return :: "bool \<Rightarrow> wbolt_dist \<Rightarrow> wbolt_dist" where
  "wbolt_return awaited d = (if awaited then d\<lparr>wb_loop := loop_continue (wb_loop d)\<rparr> else d)"

definition wbolt_settleWorker :: "bool \<Rightarrow> string \<Rightarrow> wbolt_dist \<Rightarrow> wbolt_dist" where
  "wbolt_settleWorker awaited workerPubkey d =
     (case map_of (wb_pending d) workerPubkey of
        None \<Rightarrow> wbolt_return awaited d
      | Some payout \<Rightarrow>
          if po_jobIds payout = [] then wbolt_return awaited d
          else d\<lparr>wb_pending := AList.delete workerPubkey (wb_pending d),
                 wb_inflight := wb_inflight d @ [(payout, awaited)]\<rparr>)"

definition wbolt_queuePayout :: "string \<Rightarrow> string \<Rightarrow> rat \<Rightarrow> wbolt_dist \<Rightarrow> wbolt_dist" where
  "wbolt_queuePayout workerPubkey jobId amount d =
     (case map_of (wb_pending d) workerPubkey of
        Some existing \<Rightarrow>
          (let d1 = d\<lparr>wb_pending := map_modify workerPubkey
                  (\<lambda>e. e\<lparr>po_jobIds := po_jobIds e @ [jobId], po_total := po_total e + amount\<rparr>)
                  (wb_pending d)\<rparr> in
           if length (po_jobIds existing @ [jobId]) \<ge> WBOLT_JOBS_THRESHOLD
           then wbolt_settleWorker False workerPubkey d1 else d1)
      | None \<Rightarrow>
          d\<lparr>wb_pending := AList.update workerPubkey
               \<lparr>po_worker = workerPubkey, po_jobIds = [jobId], po_total = amount, po_retryCount = 0\<rparr>
               (wb_pending d)\<rparr>)"

definition wbolt_getWorkerBalance :: "string \<Rightarrow> wbolt_dist \<Rightarrow> rat" where
  "wbolt_getWorkerBalance pubkey d = (case map_of (wb_balances d) pubkey of Some b \<Rightarrow> b | None \<Rightarrow> 0)"

text \<open>One turn of the \<open>for\<close> loop of \<open>settleAll\<close>, and its \<open>finally\<close>.\<close>

definition wbolt_settleAll_next :: "wbolt_dist \<Rightarrow> wbolt_dist" where
  "wbolt_settleAll_next d =
     (case wb_loop d of
        LoopNext [] \<Rightarrow> d\<lparr>wb_loop := LoopIdle, wb_settling := False\<rparr>
      | LoopNext (k # ks) \<Rightarrow> wbolt_settleWorker True k (d\<lparr>wb_loop := LoopAwait ks\<rparr>)
      | _ \<Rightarrow> d)"

definition wbolt_settleAll :: "wbolt_dist \<Rightarrow> wbolt_dist" where
  "wbolt_settleAll d =
     (if wb_settling d then d
      else wbolt_settleAll_next
             (d\<lparr>wb_settling := True, wb_loop := LoopNext (map_keys (wb_pending d))\<rparr>))"

text \<open>The mint was confirmed: credit the worker, call \<open>onSettled\<close>.\<close>

definition wbolt_confirm :: "PendingPayout \<times> bool \<Rightarrow> string \<Rightarrow> wbolt_dist \<Rightarrow> wbolt_dist" where
  "wbolt_confirm f txHash d =
     (let payout = fst f;
          rawAmount = js_round (po_total payout * 10 ^ 9);
          prevBalance = wbolt_getWorkerBalance (po_worker payout) d in
      wbolt_return (snd f)
        (d\<lparr>wb_inflight := remove1 f (wb_inflight d),
           wb_mints := wb_mints d @ [rawAmount],
           wb_balances := AList.update (po_worker payout) (prevBalance + po_total payout) (wb_balances d),
           wb_settled := wb_settled d @
             [\<lparr>sr_worker = po_worker payout, sr_jobIds = po_jobIds payout, sr_txHash = txHash,
               sr_amount = po_total payout\<rparr>]\<rparr>))"

text \<open>The write or the wait for its receipt threw; the mint may have landed all the same.\<close>

definition wbolt_abort :: "PendingPayout \<times> bool \<Rightarrow> string \<Rightarrow> bool \<Rightarrow> wbolt_dist \<Rightarrow> wbolt_dist" where
  "wbolt_abort f errMsg landed d =
     (let payout = fst f;
          rawAmount = js_round (po_total payout * 10 ^ 9);
          d1 = d\<lparr>wb_inflight := remove1 f (wb_inflight d),
                 wb_mints := wb_mints d @ (if landed then [rawAmount] else [])\<rparr> in
      wbolt_return (snd f) (wbolt_catch (po_worker payout) payout errMsg d1))"

definition wbolt_shutdown :: "wbolt_dist \<Rightarrow> wbolt_dist" where
  "wbolt_shutdown d = (if wb_timer d then d\<lparr>wb_timer := False\<rparr> else d)"

inductive wbolt_internal :: "bool \<Rightarrow> wbolt_dist \<Rightarrow> wbolt_dist \<Rightarrow> bool"
  for lands where
  wbolt_tick: "wb_timer d \<Longrightarrow> wbolt_internal lands d (wbolt_settleAll d)"
| wbolt_next: "wb_loop d = LoopNext ks \<Longrightarrow> wbolt_internal lands d (wbolt_settleAll_next d)"
| wbolt_ok: "f \<in> set (wb_inflight d) \<Longrightarrow> wbolt_internal lands d (wbolt_confirm f txHash d)"
| wbolt_fail: "f \<in> set (wb_inflight d) \<Longrightarrow> (landed \<Longrightarrow> lands) \<Longrightarrow>
     wbolt_internal lands d (wbolt_abort f errMsg landed d)"

subsection \<open>The ledger contract\<close>

definition wbolt_inv :: "wbolt_dist \<Rightarrow> bool" where
  "wbolt_inv d \<longleftrightarrow>
     pending_wf (wb_pending d) \<and> (\<forall>f \<in> set (wb_inflight d). po_jobIds (fst f) \<noteq> []) \<and>
     loop_wf (wb_settling d) (wb_loop d) (wb_inflight d)"

definition wbolt_account :: "wbolt_dist \<Rightarrow> (string \<times> string) multiset" where
  "wbolt_account d = held_jobs (wb_pending d) (wb_inflight d) (wb_settled d) (wb_failed d)"

definition wbolt_worth :: "wbolt_dist \<Rightarrow> rat" where
  "wbolt_worth d = held_worth (wb_pending d) (wb_inflight d) (wb_settled d) (wb_failed d)"

lemmas wbolt_ledger_defs =
  wbolt_account_def wbolt_worth_def held_jobs_def held_worth_def failed_jobs_def result_jobs_def

text \<open>Putting a failed payout back, or giving it up, keeps every job and the value.\<close>

lemma wbolt_catch_fields [simp]:
  "wb_inflight (wbolt_catch w p e d) = wb_inflight d" "wb_settling (wbolt_catch w p e d) = wb_settling d"
  "wb_loop (wbolt_catch w p e d) = wb_loop d" "wb_settled (wbolt_catch w p e d) = wb_settled d"
  "wb_mints (wbolt_catch w p e d) = wb_mints d" "wb_timer (wbolt_catch w p e d) = wb_timer d"
  by (simp_all add: wbolt_catch_def Let_def split: option.splits)

lemma wbolt_return_fields [simp]:
  "wb_pending (wbolt_return b d) = wb_pending d" "wb_inflight (wbolt_return b d) = wb_inflight d"
  "wb_settled (wbolt_return b d) = wb_settled d" "wb_failed (wbolt_return b d) = wb_failed d"
  "wb_settling (wbolt_return b d) = wb_settling d" "wb_mints (wbolt_return b d) = wb_mints d"
  "wb_timer (wbolt_return b d) = wb_timer d"
  "wbolt_account (wbolt_return b d) = wbolt_account d" "wbolt_worth (wbolt_return b d) = wbolt_worth d"
  by (simp_all add: wbolt_return_def wbolt_account_def wbolt_worth_def)

lemma wbolt_catch_wf:
  assumes "pending_wf (wb_pending d)" "po_worker p = w" "po_jobIds p \<noteq> []"
  shows "pending_wf (wb_pending (wbolt_catch w p e d))"
  using assms
  by (auto simp: wbolt_catch_def Let_def intro!: pending_wf_update pending_wf_modify split: option.splits)

lemma wbolt_catch_account:
  assumes wf: "pending_wf (wb_pending d)" and w: "po_worker p = w"
  shows "wbolt_account (wbolt_catch w p e d) = wbolt_account d + payout_jobs p"
    and "wbolt_worth (wbolt_catch w p e d) = wbolt_worth d + po_total p"
proof -
  have "wbolt_account (wbolt_catch w p e d) = wbolt_account d + payout_jobs p
      \<and> wbolt_worth (wbolt_catch w p e d) = wbolt_worth d + po_total p"
  proof (cases "po_retryCount p + 1 < 3")
    case False
    then show ?thesis using w
      by (simp add: wbolt_catch_def wbolt_ledger_defs payout_jobs_def)
  next
    case retry: True
    show ?thesis
    proof (cases "map_of (wb_pending d) w")
      case None
      with retry show ?thesis
        by (simp add: wbolt_catch_def wbolt_ledger_defs pending_update_new payout_jobs_simps)
    next
      case (Some cur)
      with retry w show ?thesis
        by (simp add: wbolt_catch_def wbolt_ledger_defs payout_jobs_def pending_merge_front [OF wf Some])
    qed
  qed
  then show "wbolt_account (wbolt_catch w p e d) = wbolt_account d + payout_jobs p"
    and "wbolt_worth (wbolt_catch w p e d) = wbolt_worth d + po_total p" by auto
qed

text \<open>Taking a payout out of the map puts it in flight. Started by \<open>queuePayout\<close> it leaves
  the loop alone; started by the loop (which then stands at \<open>LoopAwait\<close> with nothing awaited
  yet) it either is the awaited settlement or lets the loop go on.\<close>

lemma wbolt_settleWorker_cases:
  assumes "pending_wf (wb_pending d)"
  obtains
    (absent) "map_of (wb_pending d) w = None" "wbolt_settleWorker b w d = wbolt_return b d"
  | (started) p where "map_of (wb_pending d) w = Some p" "po_jobIds p \<noteq> []"
      "wbolt_settleWorker b w d =
         d\<lparr>wb_pending := AList.delete w (wb_pending d), wb_inflight := wb_inflight d @ [(p, b)]\<rparr>"
proof (cases "map_of (wb_pending d) w")
  case None
  then show ?thesis using absent by (simp add: wbolt_settleWorker_def)
next
  case (Some p)
  with assms have "po_jobIds p \<noteq> []" by (blast dest: pending_wf_lookup)
  then show ?thesis using Some started by (simp add: wbolt_settleWorker_def)
qed

lemma wbolt_settleWorker_ledger:
  assumes "pending_wf (wb_pending d)"
  shows "wbolt_account (wbolt_settleWorker b w d) = wbolt_account d"
    and "wbolt_worth (wbolt_settleWorker b w d) = wbolt_worth d"
  using assms pending_delete_split [of "wb_pending d" w]
  by (cases rule: wbolt_settleWorker_cases [where b = b and w = w];
      simp add: wbolt_ledger_defs pending_wf_def ac_simps)+

lemma wbolt_settleWorker_inv:
  assumes wf: "pending_wf (wb_pending d)" and ne: "\<forall>f \<in> set (wb_inflight d). po_jobIds (fst f) \<noteq> []"
    and loop: "if b then wb_settling d \<and> awaited_count (wb_inflight d) = 0 \<and> wb_loop d = LoopAwait ks
               else loop_wf (wb_settling d) (wb_loop d) (wb_inflight d)"
  shows "wbolt_inv (wbolt_settleWorker b w d)"
  using wf
proof (cases rule: wbolt_settleWorker_cases [where b = b and w = w])
  case absent
  then show ?thesis
    using assms by (auto simp: wbolt_inv_def wbolt_return_def loop_wf_def loop_continue_def split: if_splits)
next
  case (started p)
  then show ?thesis
    using assms
    by (auto simp: wbolt_inv_def loop_wf_def pending_wf_delete split: if_splits settle_loop.splits)
qed

subsection \<open>Every operation keeps the invariant and the ledger\<close>

lemma wbolt_inv_new: "wbolt_inv (wbolt_new)"
  by (simp add: wbolt_inv_def wbolt_new_def loop_wf_def)

lemma wbolt_queuePayout_new:
  assumes "map_of (wb_pending d) w = None"
  shows "wbolt_queuePayout w j a d =
    d\<lparr>wb_pending := AList.update w
         \<lparr>po_worker = w, po_jobIds = [j], po_total = a, po_retryCount = 0\<rparr> (wb_pending d)\<rparr>"
  using assms by (simp add: wbolt_queuePayout_def)

lemma wbolt_queuePayout_existing:
  assumes "map_of (wb_pending d) w = Some p"
  shows "wbolt_queuePayout w j a d =
    (if length (po_jobIds p) \<ge> 4 then wbolt_settleWorker False w else id)
      (d\<lparr>wb_pending := map_modify w
         (\<lambda>e. e\<lparr>po_jobIds := po_jobIds e @ [j], po_total := po_total e + a\<rparr>) (wb_pending d)\<rparr>)"
  using assms by (simp add: wbolt_queuePayout_def WBOLT_JOBS_THRESHOLD_def)

lemma wbolt_queuePayout_inv:
  assumes "wbolt_inv d"
  shows "wbolt_inv (wbolt_queuePayout w j a d)"
proof (cases "map_of (wb_pending d) w")
  case None
  with assms show ?thesis
    by (simp add: wbolt_queuePayout_new wbolt_inv_def pending_wf_update)
next
  case (Some p)
  have wf: "pending_wf (wb_pending d)" using assms by (simp add: wbolt_inv_def)
  let ?d = "d\<lparr>wb_pending := map_modify w
         (\<lambda>e. e\<lparr>po_jobIds := po_jobIds e @ [j], po_total := po_total e + a\<rparr>) (wb_pending d)\<rparr>"
  have inv: "wbolt_inv ?d"
    using assms pending_merge_back(3) [OF wf Some, where xs = "[j]"] by (simp add: wbolt_inv_def)
  then have "wbolt_inv (wbolt_settleWorker False w ?d)"
    by (intro wbolt_settleWorker_inv) (simp_all add: wbolt_inv_def)
  with inv show ?thesis unfolding wbolt_queuePayout_existing [OF Some] by simp
qed

lemma wbolt_queuePayout_ledger:
  assumes "wbolt_inv d"
  shows "wbolt_account (wbolt_queuePayout w j a d) = add_mset (w, j) (wbolt_account d)"
    and "wbolt_worth (wbolt_queuePayout w j a d) = wbolt_worth d + a"
proof -
  have wf: "pending_wf (wb_pending d)" using assms by (simp add: wbolt_inv_def)
  have "wbolt_account (wbolt_queuePayout w j a d) = add_mset (w, j) (wbolt_account d)
      \<and> wbolt_worth (wbolt_queuePayout w j a d) = wbolt_worth d + a"
  proof (cases "map_of (wb_pending d) w")
    case None
    then show ?thesis
      by (simp add: wbolt_queuePayout_new wbolt_ledger_defs pending_update_new payout_jobs_def)
  next
    case (Some p)
    note merge = pending_merge_back [OF wf Some, where xs = "[j]" and v = a]
    then show ?thesis
      unfolding wbolt_queuePayout_existing [OF Some]
      by (simp add: wbolt_settleWorker_ledger) (simp add: wbolt_ledger_defs)
  qed
  then show "wbolt_account (wbolt_queuePayout w j a d) = add_mset (w, j) (wbolt_account d)"
    and "wbolt_worth (wbolt_queuePayout w j a d) = wbolt_worth d + a" by auto
qed

lemma wbolt_settleAll_next_inv:
  assumes "wbolt_inv d"
  shows "wbolt_inv (wbolt_settleAll_next d)"
proof (cases "wb_loop d")
  case (LoopNext ks)
  show ?thesis
  proof (cases ks)
    case Nil
    with LoopNext assms show ?thesis by (simp add: wbolt_settleAll_next_def wbolt_inv_def loop_wf_def)
  next
    case (Cons k ks')
    have "wbolt_inv (wbolt_settleWorker True k (d\<lparr>wb_loop := LoopAwait ks'\<rparr>))"
      using assms LoopNext
      by (intro wbolt_settleWorker_inv [where ks = ks']) (simp_all add: wbolt_inv_def loop_wf_def)
    with LoopNext Cons show ?thesis by (simp add: wbolt_settleAll_next_def)
  qed
qed (simp_all add: wbolt_settleAll_next_def assms)

lemma wbolt_settleAll_next_ledger:
  assumes "wbolt_inv d"
  shows "wbolt_account (wbolt_settleAll_next d) = wbolt_account d"
    and "wbolt_worth (wbolt_settleAll_next d) = wbolt_worth d"
proof -
  have "pending_wf (wb_pending d)" using assms by (simp add: wbolt_inv_def)
  then show "wbolt_account (wbolt_settleAll_next d) = wbolt_account d"
    and "wbolt_worth (wbolt_settleAll_next d) = wbolt_worth d"
    by (simp_all add: wbolt_settleAll_next_def wbolt_settleWorker_ledger split: settle_loop.splits list.splits)
      (simp_all add: wbolt_account_def wbolt_worth_def)
qed

lemma wbolt_settleAll_start_inv:
  "wbolt_inv d \<Longrightarrow> \<not> wb_settling d \<Longrightarrow>
   wbolt_inv (d\<lparr>wb_settling := True, wb_loop := LoopNext (map_keys (wb_pending d))\<rparr>)"
  by (simp add: wbolt_inv_def loop_wf_def)

lemma wbolt_settleAll_inv: "wbolt_inv d \<Longrightarrow> wbolt_inv (wbolt_settleAll d)"
  by (simp add: wbolt_settleAll_def wbolt_settleAll_next_inv wbolt_settleAll_start_inv)

lemma wbolt_settleAll_ledger:
  assumes "wbolt_inv d"
  shows "wbolt_account (wbolt_settleAll d) = wbolt_account d"
    and "wbolt_worth (wbolt_settleAll d) = wbolt_worth d"
proof -
  have "wbolt_account (d\<lparr>wb_settling := True, wb_loop := l\<rparr>) = wbolt_account d"
    "wbolt_worth (d\<lparr>wb_settling := True, wb_loop := l\<rparr>) = wbolt_worth d" for l
    by (simp_all add: wbolt_account_def wbolt_worth_def)
  with assms show "wbolt_account (wbolt_settleAll d) = wbolt_account d"
    and "wbolt_worth (wbolt_settleAll d) = wbolt_worth d"
    by (simp_all add: wbolt_settleAll_def wbolt_settleAll_next_ledger wbolt_settleAll_start_inv)
qed

lemma wbolt_return_loop: "wb_loop (wbolt_return b d) = (if b then loop_continue (wb_loop d) else wb_loop d)"
  by (simp add: wbolt_return_def)

lemma wbolt_confirm_inv:
  assumes "wbolt_inv d" "f \<in> set (wb_inflight d)"
  shows "wbolt_inv (wbolt_confirm f tx d)"
  using assms loop_wf_return [of "wb_settling d" "wb_loop d" "wb_inflight d" "fst f" "snd f"]
  by (auto simp: wbolt_inv_def wbolt_confirm_def wbolt_return_loop dest: notin_set_remove1)

lemma wbolt_confirm_ledger:
  assumes "f \<in> set (wb_inflight d)"
  shows "wbolt_account (wbolt_confirm f tx d) = wbolt_account d"
    and "wbolt_worth (wbolt_confirm f tx d) = wbolt_worth d"
  using assms inflight_remove1 [of "fst f" "snd f" "wb_inflight d"]
  by (simp_all add: wbolt_confirm_def wbolt_ledger_defs payout_jobs_def ac_simps)

lemma wbolt_abort_inv:
  assumes "wbolt_inv d" "f \<in> set (wb_inflight d)"
  shows "wbolt_inv (wbolt_abort f err landed d)"
proof -
  have "po_jobIds (fst f) \<noteq> []" using assms by (auto simp: wbolt_inv_def)
  then show ?thesis
    using assms loop_wf_return [of "wb_settling d" "wb_loop d" "wb_inflight d" "fst f" "snd f"]
    by (auto simp: wbolt_inv_def wbolt_abort_def Let_def wbolt_return_loop intro: wbolt_catch_wf
        dest: notin_set_remove1)
qed

lemma wbolt_abort_ledger:
  assumes "wbolt_inv d" "f \<in> set (wb_inflight d)"
  shows "wbolt_account (wbolt_abort f err landed d) = wbolt_account d"
    and "wbolt_worth (wbolt_abort f err landed d) = wbolt_worth d"
  using assms inflight_remove1 [of "fst f" "snd f" "wb_inflight d"]
  by (simp_all add: wbolt_abort_def Let_def wbolt_catch_account wbolt_inv_def)
    (simp_all add: wbolt_ledger_defs ac_simps)

lemma wbolt_internal_inv:
  assumes "wbolt_internal lands d d'" "wbolt_inv d"
  shows "wbolt_inv d'"
  using assms
  by (cases rule: wbolt_internal.cases)
    (auto intro: wbolt_settleAll_inv wbolt_settleAll_next_inv wbolt_confirm_inv wbolt_abort_inv)

lemma wbolt_internal_ledger:
  assumes "wbolt_internal lands d d'" "wbolt_inv d"
  shows "wbolt_account d' = wbolt_account d \<and> wbolt_worth d' = wbolt_worth d"
  using assms
  by (cases rule: wbolt_internal.cases)
    (auto simp: wbolt_settleAll_ledger wbolt_settleAll_next_ledger wbolt_confirm_ledger wbolt_abort_ledger)

interpretation wboltL: payout_ledger wbolt_inv wbolt_queuePayout "wbolt_internal lands"
  wbolt_account wbolt_worth for lands
  by unfold_locales
    (simp_all add: wbolt_queuePayout_inv wbolt_queuePayout_ledger wbolt_internal_inv wbolt_internal_ledger)

subsection \<open>Custodial balances\<close>

definition settled_for :: "string \<Rightarrow> SettlementResult list \<Rightarrow> rat" where
  "settled_for w rs = sum_list (map sr_amount (filter (\<lambda>r. sr_worker r = w) rs))"

definition wbolt_balances_ok :: "wbolt_dist \<Rightarrow> bool" where
  "wbolt_balances_ok d \<longleftrightarrow> (\<forall>w. wbolt_getWorkerBalance w d = settled_for w (wb_settled d))"

lemma wbolt_catch_balances [simp]: "wb_balances (wbolt_catch w p e d) = wb_balances d"
  by (simp add: wbolt_catch_def split: option.splits)

lemma wbolt_return_balances [simp]: "wb_balances (wbolt_return b d) = wb_balances d"
  by (simp add: wbolt_return_def)

lemma wbolt_settleWorker_balances [simp]:
  "wb_balances (wbolt_settleWorker b w d) = wb_balances d" "wb_settled (wbolt_settleWorker b w d) = wb_settled d"
  by (simp_all add: wbolt_settleWorker_def split: option.splits)

lemma wbolt_settleAll_balances [simp]:
  "wb_balances (wbolt_settleAll_next d) = wb_balances d" "wb_settled (wbolt_settleAll_next d) = wb_settled d"
  "wb_balances (wbolt_settleAll d) = wb_balances d" "wb_settled (wbolt_settleAll d) = wb_settled d"
  by (simp_all add: wbolt_settleAll_next_def wbolt_settleAll_def split: settle_loop.splits list.splits)

lemma wbolt_queuePayout_balances [simp]:
  "wb_balances (wbolt_queuePayout w j a d) = wb_balances d" "wb_settled (wbolt_queuePayout w j a d) = wb_settled d"
  by (simp_all add: wbolt_queuePayout_def split: option.splits)

lemma wbolt_balances_cong:
  "wb_balances d' = wb_balances d \<Longrightarrow> wb_settled d' = wb_settled d \<Longrightarrow>
   wbolt_balances_ok d' = wbolt_balances_ok d"
  by (simp add: wbolt_balances_ok_def wbolt_getWorkerBalance_def)

lemma wbolt_confirm_balances:
  "wbolt_balances_ok d \<Longrightarrow> wbolt_balances_ok (wbolt_confirm f tx d)"
  by (auto simp: wbolt_balances_ok_def wbolt_getWorkerBalance_def settled_for_def wbolt_confirm_def
      update_conv split: option.splits)

lemma wbolt_internal_balances:
  assumes "wbolt_internal lands d d'" "wbolt_balances_ok d"
  shows "wbolt_balances_ok d'"
  using assms
  by (cases rule: wbolt_internal.cases)
    (auto simp: wbolt_confirm_balances wbolt_abort_def cong: wbolt_balances_cong
      elim!: wbolt_balances_cong [THEN iffD2, rotated -1])

lemma wbolt_run_balances:
  assumes "payout_run wbolt_queuePayout (wbolt_internal lands) d qs e" "wbolt_balances_ok d"
  shows "wbolt_balances_ok e"
  using assms
  by (induction rule: payout_run.induct)
    (auto intro: wbolt_internal_balances wbolt_balances_cong [THEN iffD2, rotated -1])

subsection \<open>The properties of \<open>WrappedBoltDistributor\<close>\<close>

lemma wbolt_new_facts:
  "wbolt_inv wbolt_new" "wbolt_account wbolt_new = {#}" "wbolt_worth wbolt_new = 0"
  "wbolt_balances_ok wbolt_new"
  by (simp_all add: wbolt_new_def wbolt_inv_def wbolt_ledger_defs loop_wf_def pending_jobs_def
      pending_value_def wbolt_balances_ok_def wbolt_getWorkerBalance_def settled_for_def)

text \<open>A concrete run, for the witness: one job is queued, the timer starts its settlement, and
  the mint is confirmed.\<close>

definition wbolt_demo :: wbolt_dist where
  "wbolt_demo =
     wbolt_confirm (\<lparr>po_worker = ''w'', po_jobIds = [''a''], po_total = 1 / 1000, po_retryCount = 0\<rparr>, True) ''0x1''
       (wbolt_settleAll (wbolt_queuePayout ''w'' ''a'' (1 / 1000) wbolt_new))"

lemma wbolt_demo_run:
  "payout_run wbolt_queuePayout (wbolt_internal False) wbolt_new [(''w'', ''a'', 1 / 1000)] wbolt_demo"
proof -
  let ?d = "wbolt_queuePayout ''w'' ''a'' (1 / 1000) wbolt_new"
  have "payout_run wbolt_queuePayout (wbolt_internal False) wbolt_new ([] @ [(''w'', ''a'', 1 / 1000)]) ?d"
    by (intro run_queue run_start)
  moreover have "wbolt_internal False ?d (wbolt_settleAll ?d)"
    by (rule wbolt_tick) (simp add: wbolt_queuePayout_def wbolt_new_def)
  moreover have "(\<lparr>po_worker = ''w'', po_jobIds = [''a''], po_total = 1 / 1000, po_retryCount = 0\<rparr>, True)
      \<in> set (wb_inflight (wbolt_settleAll ?d))"
    by (simp add: wbolt_queuePayout_def wbolt_new_def wbolt_settleAll_def wbolt_settleAll_next_def
        wbolt_settleWorker_def)
  ultimately show ?thesis
    unfolding wbolt_demo_def by (auto intro: run_internal wbolt_ok)
qed

text \<open>C9. Conservation in \<open>WrappedBoltDistributor\<close>. Over any interleaving of queued
  payouts, timer ticks and settlements, every queued job is held exactly as often as it was queued
  and no amount is lost; and the custodial balance \<open>getWorkerBalance\<close> reports for a
  worker is the sum of the amounts reported settled for it.\<close>

theorem wbolt_conserves_payouts:
  assumes "payout_run wbolt_queuePayout (wbolt_internal lands) wbolt_new qs d"
  shows "wbolt_account d = mset (map (\<lambda>(w, j, a). (w, j)) qs)
    \<and> wbolt_worth d = sum_list (map (\<lambda>(w, j, a). a) qs)
    \<and> wbolt_getWorkerBalance w d = settled_for w (wb_settled d)"
  using wboltL.run_conserves [OF assms wbolt_new_facts(1)] wbolt_run_balances [OF assms wbolt_new_facts(4)]
  by (simp add: wbolt_new_facts wbolt_balances_ok_def)

theorem wbolt_conserves_payouts_witness:
  "wbolt_account wbolt_demo = {#(''w'', ''a'')#} \<and> wbolt_getWorkerBalance ''w'' wbolt_demo = 1 / 1000"
proof -
  have "wb_settled wbolt_demo = [\<lparr>sr_worker = ''w'', sr_jobIds = [''a''], sr_txHash = ''0x1'', sr_amount = 1 / 1000\<rparr>]"
    by (simp add: wbolt_demo_def wbolt_confirm_def wbolt_new_def wbolt_return_def)
  then show ?thesis
    using wbolt_conserves_payouts [OF wbolt_demo_run, of "''w''"] by (simp add: settled_for_def)
qed

end
