(* ===== verification/Hub.thy ===== *)
theory Hub
  imports Db Codec BoltDist WBoltDist
begin

section \<open>\<open>WorkerHub\<close>\<close>

text \<open>
  \<open>apps/coordinator-core/src/ws/workerHub.ts\<close>: the registry of connected workers, the
  handlers of their messages, and the matching of jobs to workers.

  A socket is a number; \<open>h_open\<close> are the sockets in \<open>readyState\<close> OPEN, \<open>h_conns\<close> the
  connections with the closure variable \<open>workerId\<close> of each, \<open>h_out\<close> the messages sent so
  far. Handlers run to completion, so each is one function on the state; promises the hub leaves
  pending are lists in the state (\<open>h_repCalls\<close>, \<open>h_stakeCalls\<close>, \<open>h_feedback\<close>) whose
  results arrive by functions of their own. \<open>uuid()\<close>, \<open>Date.now()\<close> are arguments. An exception
  a handler lets escape is \<open>Inl\<close>. A message that parses is taken to have the fields its
  TypeScript interface declares; the other cases are \<open>InvalidJson\<close>, \<open>JsonNull\<close> (the text
  \<open>null\<close>) and \<open>UnknownType\<close>.

  \<open>x_verify\<close> is \<open>nacl.sign.detached.verify\<close> (message, signature, public key; \<open>None\<close> when it
  throws), \<open>x_pkError\<close> the \<open>PublicKey\<close> constructor used by the distributor.
\<close>

record hub_env =
  x_verify :: "string \<Rightarrow> string \<Rightarrow> string \<Rightarrow> bool option"
  x_pkError :: "string \<Rightarrow> string option"

datatype worker_status = Idle | Busy

record TrackedWorker =
  w_id :: string
  w_ws :: nat
  w_pubkey :: string
  w_type :: ProviderType
  w_capabilities :: "JobType list"
  w_status :: worker_status
  w_lastHeartbeat :: int
  w_activeJobId :: "string option"
  w_reputationScore :: "rat option"
  w_stakeLevel :: "StakeTier option"

datatype hub_error = DbError db_error | TypeError

datatype inbound = InvalidJson | JsonNull | KnownMsg WorkerToCoordinator | UnknownType string

record hub =
  h_db :: database
  h_workers :: "TrackedWorker jsmap"
  h_conns :: "(nat \<times> string option) list"
  h_open :: "nat list"
  h_out :: "(nat \<times> CoordinatorToWorker) list"
  h_erc8004 :: "bool option" \<comment> \<open>configured? with \<open>postFeedback\<close>?\<close>
  h_stakeConfig :: bool
  h_bolt :: "bolt_dist option"
  h_wbolt :: "wbolt_dist option"
  h_repCalls :: "string list"
  h_stakeCalls :: "string list"
  h_feedback :: "(nat \<times> string \<times> string) list" \<comment> \<open>socket, worker key, job\<close>
  h_heartbeatCheck :: bool

definition HEARTBEAT_TIMEOUT_MS :: int where "HEARTBEAT_TIMEOUT_MS = 30000"

definition hub_new ::
  "database \<Rightarrow> bool option \<Rightarrow> bool \<Rightarrow> bolt_dist option \<Rightarrow> wbolt_dist option \<Rightarrow> hub" where
  "hub_new db erc8004 stakeConfig bolt wbolt =
     \<lparr>h_db = db, h_workers = [], h_conns = [], h_open = [], h_out = [], h_erc8004 = erc8004,
      h_stakeConfig = stakeConfig, h_bolt = bolt, h_wbolt = wbolt, h_repCalls = [], h_stakeCalls = [],
      h_feedback = [], h_heartbeatCheck = True\<rparr>"

subsection \<open>Helpers\<close>

definition ws_send :: "nat \<Rightarrow> CoordinatorToWorker \<Rightarrow> hub \<Rightarrow> hub" where
  "ws_send ws msg h = (if ws \<in> set (h_open h) then h\<lparr>h_out := h_out h @ [(ws, msg)]\<rparr> else h)"

definition ws_close :: "nat \<Rightarrow> hub \<Rightarrow> hub" where
  "ws_close ws h = h\<lparr>h_open := removeAll ws (h_open h)\<rparr>"

definition findByPubkey :: "string \<Rightarrow> hub \<Rightarrow> TrackedWorker option" where
  "findByPubkey pubkey h = List.find (\<lambda>w. w_pubkey w = pubkey) (map_values (h_workers h))"

definition findByActiveJob :: "string \<Rightarrow> hub \<Rightarrow> TrackedWorker option" where
  "findByActiveJob jobId h = List.find (\<lambda>w. w_activeJobId w = Some jobId) (map_values (h_workers h))"

definition modify_worker :: "string \<Rightarrow> (TrackedWorker \<Rightarrow> TrackedWorker) \<Rightarrow> hub \<Rightarrow> hub" where
  "modify_worker i f h = h\<lparr>h_workers := map_modify i f (h_workers h)\<rparr>"

definition set_idle :: "TrackedWorker \<Rightarrow> TrackedWorker" where
  "set_idle w = w\<lparr>w_status := Idle, w_activeJobId := None\<rparr>"

definition is_demo :: "string \<Rightarrow> bool" where
  "is_demo jobId = startsWith jobId ''demo-''"

text \<open>The canonical text of a receipt; it contains no numbers.\<close>

definition receipt_text :: "Receipt \<Rightarrow> string" where
  "receipt_text r = stringify (\<lambda>_. []) (receipt_json r)"

definition verifyReceiptSignature :: "hub_env \<Rightarrow> Receipt \<Rightarrow> string \<Rightarrow> string \<Rightarrow> bool" where
  "verifyReceiptSignature X receipt signatureBase64 pubkeyHex =
     (case x_verify X (receipt_text receipt) (b64_decode signatureBase64) (hex_decode pubkeyHex) of
        Some valid \<Rightarrow> valid
      | None \<Rightarrow> False)"

text \<open>\<open>postFeedback(pubkey, jobId, true)\<close>, if configured, left pending.\<close>

definition call_postFeedback :: "TrackedWorker \<Rightarrow> string \<Rightarrow> hub \<Rightarrow> hub" where
  "call_postFeedback w jobId h =
     (if h_erc8004 h = Some True then h\<lparr>h_feedback := h_feedback h @ [(w_ws w, w_pubkey w, jobId)]\<rparr> else h)"

text \<open>The two \<open>queuePayout(pubkey, jobId, 0.001)\<close> calls.\<close>

definition queue_payouts :: "hub_env \<Rightarrow> string \<Rightarrow> string \<Rightarrow> hub \<Rightarrow> hub" where
  "queue_payouts X pubkey jobId h =
     h\<lparr>h_bolt := map_option (bolt_queuePayout (x_pkError X) pubkey jobId (1 / 1000)) (h_bolt h),
       h_wbolt := map_option (wbolt_queuePayout pubkey jobId (1 / 1000)) (h_wbolt h)\<rparr>"

subsection \<open>Message handlers\<close>

definition handleRegister :: "int \<Rightarrow> string \<Rightarrow> nat \<Rightarrow> RegisterMsg \<Rightarrow> hub \<Rightarrow> hub" where
  "handleRegister now uuid ws msg h =
     (let worker = \<lparr>w_id = uuid, w_ws = ws, w_pubkey = reg_provider_pubkey msg,
            w_type = reg_provider_type msg, w_capabilities = reg_capabilities msg, w_status = Idle,
            w_lastHeartbeat = now, w_activeJobId = None, w_reputationScore = None, w_stakeLevel = None\<rparr>;
          h1 = h\<lparr>h_workers := AList.update uuid worker (h_workers h),
                 h_repCalls := h_repCalls h @ (if h_erc8004 h \<noteq> None then [uuid] else []),
                 h_stakeCalls := h_stakeCalls h @ (if h_stakeConfig h then [uuid] else [])\<rparr> in
      ws_send ws (RegisterAck uuid) h1)"

definition handleHeartbeat :: "int \<Rightarrow> HeartbeatMsg \<Rightarrow> hub \<Rightarrow> hub" where
  "handleHeartbeat now msg h =
     (case findByPubkey (hb_provider_pubkey msg) h of
        Some worker \<Rightarrow>
          ws_send (w_ws worker) HeartbeatAck (modify_worker (w_id worker) (\<lambda>w. w\<lparr>w_lastHeartbeat := now\<rparr>) h)
      | None \<Rightarrow> h)"

text \<open>The transaction of \<open>handleJobComplete\<close>: both statements or none.\<close>

definition complete_txn ::
  "hub_env \<Rightarrow> int \<Rightarrow> string \<Rightarrow> TrackedWorker \<Rightarrow> JobCompleteMsg \<Rightarrow> database \<Rightarrow> db_error + database" where
  "complete_txn X now uuid worker msg db =
     (let db1 = sql_complete_job now (jc_output msg) (jc_job_id msg) db in
      case (jc_receipt msg, jc_receipt_signature msg) of
        (Some receipt, Some sig) \<Rightarrow>
          if sig = [] then Inr db1
          else insert_receipt
                 \<lparr>rr_id = uuid, rr_job_id = r_job_id receipt, rr_provider_pubkey = r_provider_pubkey receipt,
                  rr_receipt = receipt, rr_signature = sig,
                  rr_verified = verifyReceiptSignature X receipt sig (w_pubkey worker),
                  rr_created_at = sql_now now\<rparr> db1
      | _ \<Rightarrow> Inr db1)"

definition handleJobComplete ::
  "hub_env \<Rightarrow> int \<Rightarrow> string \<Rightarrow> JobCompleteMsg \<Rightarrow> hub \<Rightarrow> hub_error + hub" where
  "handleJobComplete X now uuid msg h =
     (case findByActiveJob (jc_job_id msg) h of
        None \<Rightarrow> Inr h
      | Some worker \<Rightarrow>
          if is_demo (jc_job_id msg) then
            Inr (queue_payouts X (w_pubkey worker) (jc_job_id msg)
                  (call_postFeedback worker (jc_job_id msg)
                    (modify_worker (w_id worker) set_idle h)))
          else
            (case complete_txn X now uuid worker msg (h_db h) of
               Inl e \<Rightarrow> Inl (DbError e)
             | Inr db \<Rightarrow>
                 Inr (modify_worker (w_id worker) set_idle
                       (queue_payouts X (w_pubkey worker) (jc_job_id msg)
                         (call_postFeedback worker (jc_job_id msg) (h\<lparr>h_db := db\<rparr>))))))"

definition handleJobReject :: "JobRejectMsg \<Rightarrow> hub \<Rightarrow> hub" where
  "handleJobReject msg h =
     (case findByActiveJob (jr_job_id msg) h of
        None \<Rightarrow> h
      | Some worker \<Rightarrow>
          (let h1 = (if \<not> is_demo (jr_job_id msg) then h\<lparr>h_db := sql_reject_job (jr_job_id msg) (h_db h)\<rparr> else h) in
           modify_worker (w_id worker) set_idle h1))"

definition handleReceiptSubmit ::
  "hub_env \<Rightarrow> int \<Rightarrow> string \<Rightarrow> ReceiptSubmitMsg \<Rightarrow> hub \<Rightarrow> hub_error + hub" where
  "handleReceiptSubmit X now uuid msg h =
     (let receipt = rs_receipt msg;
          pubkey = (case findByPubkey (r_provider_pubkey receipt) h of
                      Some worker \<Rightarrow> w_pubkey worker | None \<Rightarrow> r_provider_pubkey receipt);
          verified = verifyReceiptSignature X receipt (rs_signature msg) pubkey in
      case insert_receipt
             \<lparr>rr_id = uuid, rr_job_id = r_job_id receipt, rr_provider_pubkey = r_provider_pubkey receipt,
              rr_receipt = receipt, rr_signature = rs_signature msg, rr_verified = verified,
              rr_created_at = sql_now now\<rparr> (h_db h) of
        Inl e \<Rightarrow> Inl (DbError e)
      | Inr db \<Rightarrow> Inr (h\<lparr>h_db := db\<rparr>))"

definition handleDisconnect :: "string \<Rightarrow> hub \<Rightarrow> hub" where
  "handleDisconnect workerId h =
     (case map_of (h_workers h) workerId of
        None \<Rightarrow> h
      | Some worker \<Rightarrow>
          (let h1 = (case w_activeJobId worker of
                       Some jobId \<Rightarrow>
                         if jobId = [] \<or> is_demo jobId then h
                         else h\<lparr>h_db := sql_fail_job ''worker_disconnected'' jobId (h_db h)\<rparr>
                     | None \<Rightarrow> h) in
           h1\<lparr>h_workers := AList.delete workerId (h_workers h1)\<rparr>))"

subsection \<open>Connections\<close>

definition handleConnection :: "nat \<Rightarrow> hub \<Rightarrow> hub" where
  "handleConnection ws h = h\<lparr>h_conns := h_conns h @ [(ws, None)], h_open := h_open h @ [ws]\<rparr>"

definition hub_onMessage ::
  "hub_env \<Rightarrow> int \<Rightarrow> string \<Rightarrow> nat \<Rightarrow> inbound \<Rightarrow> hub \<Rightarrow> hub_error + hub" where
  "hub_onMessage X now uuid ws m h =
     (case m of
        InvalidJson \<Rightarrow> Inr (ws_send ws (ErrorMsg ''PARSE_ERROR'' ''Invalid JSON'') h)
      | JsonNull \<Rightarrow> Inl TypeError
      | KnownMsg (Register msg) \<Rightarrow>
          Inr ((handleRegister now uuid ws msg h)\<lparr>h_conns := map_modify ws (\<lambda>_. Some uuid) (h_conns h)\<rparr>)
      | KnownMsg (Heartbeat msg) \<Rightarrow> Inr (handleHeartbeat now msg h)
      | KnownMsg (JobComplete msg) \<Rightarrow> handleJobComplete X now uuid msg h
      | KnownMsg (JobReject msg) \<Rightarrow> Inr (handleJobReject msg h)
      | KnownMsg (ReceiptSubmit msg) \<Rightarrow> handleReceiptSubmit X now uuid msg h
      | UnknownType t \<Rightarrow> Inr (ws_send ws (ErrorMsg ''UNKNOWN_MSG'' (''Unknown type: '' @ t)) h))"

definition hub_onClose :: "nat \<Rightarrow> hub \<Rightarrow> hub" where
  "hub_onClose ws h =
     (let h1 = (ws_close ws h)\<lparr>h_conns := AList.delete ws (h_conns h)\<rparr> in
      case map_of (h_conns h) ws of
        Some (Some workerId) \<Rightarrow> if workerId = [] then h1 else handleDisconnect workerId h1
      | _ \<Rightarrow> h1)"

definition prune_one :: "int \<Rightarrow> string \<Rightarrow> hub \<Rightarrow> hub" where
  "prune_one now i h =
     (case map_of (h_workers h) i of
        Some w \<Rightarrow>
          if now - w_lastHeartbeat w > HEARTBEAT_TIMEOUT_MS then handleDisconnect i (ws_close (w_ws w) h) else h
      | None \<Rightarrow> h)"

definition pruneStale :: "int \<Rightarrow> hub \<Rightarrow> hub" where
  "pruneStale now h = fold (prune_one now) (map_keys (h_workers h)) h"

text \<open>The promises \<open>handleRegister\<close> and \<open>handleJobComplete\<close> leave pending settle.\<close>

definition reputation_resolved :: "string \<Rightarrow> rat option \<Rightarrow> hub \<Rightarrow> hub" where
  "reputation_resolved i score h =
     (let h1 = h\<lparr>h_repCalls := remove1 i (h_repCalls h)\<rparr> in
      case score of
        Some s \<Rightarrow>
          if i \<in> set (map_keys (h_workers h)) then modify_worker i (\<lambda>w. w\<lparr>w_reputationScore := Some s\<rparr>) h1 else h1
      | None \<Rightarrow> h1)"

definition stake_resolved :: "string \<Rightarrow> StakeTier \<Rightarrow> hub \<Rightarrow> hub" where
  "stake_resolved i tier h =
     (let h1 = h\<lparr>h_stakeCalls := remove1 i (h_stakeCalls h)\<rparr> in
      if i \<in> set (map_keys (h_workers h)) then modify_worker i (\<lambda>w. w\<lparr>w_stakeLevel := Some tier\<rparr>) h1 else h1)"

definition monadvision_url :: "string \<Rightarrow> string" where
  "monadvision_url txHash = ''https://testnet.monadvision.com/tx/'' @ txHash"

definition feedback_resolved :: "nat \<times> string \<times> string \<Rightarrow> string option \<Rightarrow> hub \<Rightarrow> hub" where
  "feedback_resolved f txHash h =
     (let (ws, pubkey, jobId) = f; h1 = h\<lparr>h_feedback := remove1 f (h_feedback h)\<rparr> in
      case txHash of
        Some t \<Rightarrow> if t = [] then h1 else ws_send ws (FeedbackPosted jobId t ''monad-testnet'' (monadvision_url t)) h1
      | None \<Rightarrow> h1)"

definition feedback_rejected :: "nat \<times> string \<times> string \<Rightarrow> string \<Rightarrow> hub \<Rightarrow> hub" where
  "feedback_rejected f err h =
     (let (ws, pubkey, jobId) = f in
      ws_send ws (FeedbackFailed jobId err) (h\<lparr>h_feedback := remove1 f (h_feedback h)\<rparr>))"

subsection \<open>Job matching\<close>

definition workerScore :: "int \<Rightarrow> TrackedWorker \<Rightarrow> Policy \<Rightarrow> JobType \<Rightarrow> rat" where
  "workerScore now w policy jobType =
     (let stakeBonus = STAKE_PRIORITY (case w_stakeLevel w of Some t \<Rightarrow> t | None \<Rightarrow> OPEN) in
      (if policy = FAST then (if w_type w = DESKTOP then 10 else 0)
       else (if jobType = TASK \<and> w_type w = SEEKER then 10 else 0))
      + max 0 (5 - of_int (now - w_lastHeartbeat w) / 10000)
      + (case w_reputationScore w of
           Some rep \<Rightarrow> rep / 100 * 10 * sp_repMultiplier stakeBonus
         | None \<Rightarrow> 0)
      + sp_bonus stakeBonus)"

definition claim_candidates :: "JobType \<Rightarrow> PrivacyClass \<Rightarrow> string \<Rightarrow> hub \<Rightarrow> TrackedWorker list" where
  "claim_candidates jobType privacyClass userId h =
     (let trusted = map t_provider_pubkey (select_trusted userId (h_db h)) in
      filter (\<lambda>w. w_status w = Idle \<and> jobType \<in> set (w_capabilities w) \<and>
                  (privacyClass = PRIVATE \<longrightarrow> Some (w_pubkey w) \<in> set trusted))
        (map_values (h_workers h)))"

definition claimWorker ::
  "int \<Rightarrow> JobType \<Rightarrow> Policy \<Rightarrow> PrivacyClass \<Rightarrow> string \<Rightarrow> hub \<Rightarrow> TrackedWorker option \<times> hub" where
  "claimWorker now jobType policy privacyClass userId h =
     (if privacyClass = PRIVATE \<and> select_trusted userId (h_db h) = [] then (None, h)
      else
        (case sort_key (\<lambda>w. - workerScore now w policy jobType) (claim_candidates jobType privacyClass userId h) of
           [] \<Rightarrow> (None, h)
         | best # _ \<Rightarrow>
             (Some (best\<lparr>w_status := Busy\<rparr>), modify_worker (w_id best) (\<lambda>w. w\<lparr>w_status := Busy\<rparr>) h)))"

definition assignJob :: "TrackedWorker \<Rightarrow> string \<Rightarrow> JobAssignMsg \<Rightarrow> hub \<Rightarrow> hub" where
  "assignJob worker jobId msg h =
     ws_send (w_ws worker) (JobAssign msg) (modify_worker (w_id worker) (\<lambda>w. w\<lparr>w_activeJobId := Some jobId\<rparr>) h)"

definition getIdleWorkers :: "hub \<Rightarrow> TrackedWorker list" where
  "getIdleWorkers h = filter (\<lambda>w. w_status w = Idle) (map_values (h_workers h))"

definition injectDemoJob :: "string \<Rightarrow> JobAssignMsg \<Rightarrow> hub \<Rightarrow> bool \<times> hub" where
  "injectDemoJob workerId msg h =
     (case map_of (h_workers h) workerId of
        Some worker \<Rightarrow>
          if w_status worker \<noteq> Idle then (False, h)
          else (True, ws_send (w_ws worker) (JobAssign msg)
                  (modify_worker workerId (\<lambda>w. w\<lparr>w_status := Busy, w_activeJobId := Some (ja_job_id msg)\<rparr>) h))
      | None \<Rightarrow> (False, h))"

definition sendToWorker :: "string \<Rightarrow> CoordinatorToWorker \<Rightarrow> hub \<Rightarrow> hub" where
  "sendToWorker pubkey msg h =
     (case findByPubkey pubkey h of Some worker \<Rightarrow> ws_send (w_ws worker) msg h | None \<Rightarrow> h)"

definition onlineCount :: "hub \<Rightarrow> nat" where
  "onlineCount h = length (h_workers h)"

definition hub_shutdown :: "hub \<Rightarrow> hub" where
  "hub_shutdown h = h\<lparr>h_heartbeatCheck := False\<rparr>"

subsection \<open>What the helpers change\<close>

lemma ws_send_fields [simp]:
  "h_db (ws_send ws m h) = h_db h" "h_workers (ws_send ws m h) = h_workers h"
  "h_conns (ws_send ws m h) = h_conns h" "h_open (ws_send ws m h) = h_open h"
  "h_bolt (ws_send ws m h) = h_bolt h" "h_wbolt (ws_send ws m h) = h_wbolt h"
  by (simp_all add: ws_send_def)

lemma ws_close_fields [simp]:
  "h_db (ws_close ws h) = h_db h" "h_workers (ws_close ws h) = h_workers h"
  "h_conns (ws_close ws h) = h_conns h" "h_out (ws_close ws h) = h_out h"
  "h_bolt (ws_close ws h) = h_bolt h" "h_wbolt (ws_close ws h) = h_wbolt h"
  by (simp_all add: ws_close_def)

lemma modify_worker_fields [simp]:
  "h_db (modify_worker i f h) = h_db h" "h_workers (modify_worker i f h) = map_modify i f (h_workers h)"
  "h_conns (modify_worker i f h) = h_conns h" "h_open (modify_worker i f h) = h_open h"
  "h_bolt (modify_worker i f h) = h_bolt h" "h_wbolt (modify_worker i f h) = h_wbolt h"
  by (simp_all add: modify_worker_def)

lemma call_postFeedback_fields [simp]:
  "h_db (call_postFeedback w j h) = h_db h" "h_workers (call_postFeedback w j h) = h_workers h"
  "h_conns (call_postFeedback w j h) = h_conns h" "h_open (call_postFeedback w j h) = h_open h"
  "h_bolt (call_postFeedback w j h) = h_bolt h" "h_wbolt (call_postFeedback w j h) = h_wbolt h"
  by (simp_all add: call_postFeedback_def)

lemma queue_payouts_fields [simp]:
  "h_db (queue_payouts X pk j h) = h_db h" "h_workers (queue_payouts X pk j h) = h_workers h"
  "h_conns (queue_payouts X pk j h) = h_conns h" "h_open (queue_payouts X pk j h) = h_open h"
  by (simp_all add: queue_payouts_def)

text \<open>Well-formed registry: one entry per id, filed under its id.\<close>

definition workers_wf :: "TrackedWorker jsmap \<Rightarrow> bool" where
  "workers_wf ws \<longleftrightarrow> distinct (map_keys ws) \<and> (\<forall>(k, w) \<in> set ws. w_id w = k)"

lemma workers_wf_lookup: "workers_wf ws \<Longrightarrow> map_of ws k = Some w \<Longrightarrow> w_id w = k"
  by (auto simp: workers_wf_def dest: map_of_SomeD)

lemma workers_wf_mem: "workers_wf ws \<Longrightarrow> w \<in> set (map_values ws) \<longleftrightarrow> map_of ws (w_id w) = Some w"
  by (auto simp: workers_wf_def map_of_eq_Some_iff image_iff) force

lemma workers_wf_modify: "workers_wf ws \<Longrightarrow> (\<And>w. w_id (f w) = w_id w) \<Longrightarrow> workers_wf (map_modify i f ws)"
  by (auto simp: workers_wf_def set_map_modify)

lemma workers_wf_delete: "workers_wf ws \<Longrightarrow> workers_wf (AList.delete i ws)"
  by (auto simp: workers_wf_def set_delete_conv distinct_delete)

lemma workers_wf_update: "workers_wf ws \<Longrightarrow> w_id w = i \<Longrightarrow> workers_wf (AList.update i w ws)"
  using set_update_subset [of i w ws] by (fastforce simp: workers_wf_def distinct_update)

lemma findByPubkey_Some:
  "workers_wf (h_workers h) \<Longrightarrow> findByPubkey pk h = Some w \<Longrightarrow>
   map_of (h_workers h) (w_id w) = Some w \<and> w_pubkey w = pk"
  using find_value_mem by (fastforce simp: findByPubkey_def workers_wf_mem [symmetric])

lemma findByActiveJob_Some:
  "workers_wf (h_workers h) \<Longrightarrow> findByActiveJob j h = Some w \<Longrightarrow>
   map_of (h_workers h) (w_id w) = Some w \<and> w_activeJobId w = Some j"
  using find_value_mem by (fastforce simp: findByActiveJob_def workers_wf_mem [symmetric])

lemma findByActiveJob_None:
  "findByActiveJob j h = None \<Longrightarrow> map_of (h_workers h) k = Some w \<Longrightarrow> w_activeJobId w \<noteq> Some j"
  by (force simp: findByActiveJob_def find_None_ball dest: map_of_SomeD)

subsection \<open>Matching\<close>

definition eligible :: "database \<Rightarrow> JobType \<Rightarrow> PrivacyClass \<Rightarrow> string \<Rightarrow> TrackedWorker \<Rightarrow> bool" where
  "eligible db jobType privacyClass userId w \<longleftrightarrow>
     w_status w = Idle \<and> jobType \<in> set (w_capabilities w) \<and>
     (privacyClass = PRIVATE \<longrightarrow>
        (\<exists>p \<in> set (db_pairings db). t_user_id p = userId \<and> t_claimed p \<and> t_provider_pubkey p = Some (w_pubkey w)))"

lemma claim_candidates_eligible:
  "claim_candidates jobType privacyClass userId h
     = filter (eligible (h_db h) jobType privacyClass userId) (map_values (h_workers h))"
  unfolding claim_candidates_def Let_def
  by (rule filter_cong) (auto simp: eligible_def select_trusted_def image_iff)

lemma claimWorker_None:
  "claimWorker now jt pol pc u h = (None, h') \<longleftrightarrow>
     h' = h \<and> (\<forall>w \<in> set (map_values (h_workers h)). \<not> eligible (h_db h) jt pc u w)"
proof -
  let ?c = "filter (eligible (h_db h) jt pc u) (map_values (h_workers h))"
  have "pc = PRIVATE \<and> select_trusted u (h_db h) = [] \<Longrightarrow> \<not> eligible (h_db h) jt pc u w" for w
    by (auto simp: eligible_def select_trusted_def filter_empty_conv)
  then have "pc = PRIVATE \<and> select_trusted u (h_db h) = [] \<Longrightarrow> ?c = []" by (simp add: filter_empty_conv)
  then have "claimWorker now jt pol pc u h = (None, h') \<longleftrightarrow> h' = h \<and> ?c = []"
    using sort_key_Nil_iff [of "\<lambda>w. - workerScore now w pol jt" ?c]
    by (auto simp: claimWorker_def claim_candidates_eligible split: list.splits)
  then show ?thesis by (simp only: filter_empty_conv)
qed

lemma claimWorker_Some:
  assumes "claimWorker now jt pol pc u h = (Some b, h')"
  obtains w pre post where "map_values (h_workers h) = pre @ w # post" "b = w\<lparr>w_status := Busy\<rparr>"
    "h' = modify_worker (w_id w) (\<lambda>w. w\<lparr>w_status := Busy\<rparr>) h" "eligible (h_db h) jt pc u w"
    "\<forall>v \<in> set pre. eligible (h_db h) jt pc u v \<longrightarrow> workerScore now v pol jt < workerScore now w pol jt"
    "\<forall>v \<in> set post. eligible (h_db h) jt pc u v \<longrightarrow> workerScore now v pol jt \<le> workerScore now w pol jt"
proof -
  let ?E = "eligible (h_db h) jt pc u" and ?s = "\<lambda>w. - workerScore now w pol jt"
  obtain w ws where sorted: "sort_key ?s (filter ?E (map_values (h_workers h))) = w # ws"
    and b: "b = w\<lparr>w_status := Busy\<rparr>" "h' = modify_worker (w_id w) (\<lambda>w. w\<lparr>w_status := Busy\<rparr>) h"
    using assms by (auto simp: claimWorker_def claim_candidates_eligible split: if_splits list.splits)
  obtain p q where pq: "filter ?E (map_values (h_workers h)) = p @ w # q"
    "\<forall>v \<in> set p. ?s w < ?s v" "\<forall>v \<in> set q. ?s w \<le> ?s v"
    using sort_key_head [OF sorted] by blast
  obtain pre post where 1: "map_values (h_workers h) = pre @ w # post" "filter ?E pre = p" "?E w" "filter ?E post = q"
    using filter_split [OF pq(1)] by blast
  show ?thesis
    by (rule that [of pre w post]) (use 1 b pq in auto)
qed

subsection \<open>Pruning\<close>

lemma handleDisconnect_workers:
  "h_workers (handleDisconnect i h) = AList.delete i (h_workers h)"
  by (cases "map_of (h_workers h) i")
    (simp_all add: handleDisconnect_def delete_id map_of_eq_None_iff split: option.splits)

lemma handleDisconnect_db:
  "h_db (handleDisconnect i h) =
     (case map_of (h_workers h) i of
        Some w \<Rightarrow> (case w_activeJobId w of
                     Some j \<Rightarrow> if j = [] \<or> is_demo j then h_db h else sql_fail_job ''worker_disconnected'' j (h_db h)
                   | None \<Rightarrow> h_db h)
      | None \<Rightarrow> h_db h)"
  by (auto simp: handleDisconnect_def split: option.splits)

lemma prune_one_workers:
  "h_workers (prune_one now i h) =
     filter (\<lambda>(k, w). k = i \<longrightarrow> \<not> (case map_of (h_workers h) i of Some v \<Rightarrow> now - w_lastHeartbeat v > HEARTBEAT_TIMEOUT_MS | None \<Rightarrow> False))
       (h_workers h)"
  by (auto simp: prune_one_def handleDisconnect_workers AList.delete_eq filter_id_conv
      intro!: filter_cong split: option.splits)

lemma prune_fold_workers:
  assumes "distinct (map_keys (h_workers h))"
  shows "h_workers (fold (prune_one now) ks h) =
     filter (\<lambda>(k, w). k \<in> set ks \<longrightarrow> now - w_lastHeartbeat w \<le> HEARTBEAT_TIMEOUT_MS) (h_workers h)"
  using assms
proof (induction ks arbitrary: h)
  case (Cons i ks)
  have one: "h_workers (prune_one now i h) =
      filter (\<lambda>(k, w). k = i \<longrightarrow> now - w_lastHeartbeat w \<le> HEARTBEAT_TIMEOUT_MS) (h_workers h)"
    unfolding prune_one_workers
    by (rule filter_cong) (use Cons.prems in \<open>auto simp: not_less dest: map_of_is_SomeI\<close>)
  have "distinct (map_keys (h_workers (prune_one now i h)))"
    using Cons.prems by (simp add: one distinct_map_filter)
  then show ?case
    using Cons.IH [of "prune_one now i h"] by (auto simp: one intro!: filter_cong)
qed simp

subsection \<open>The properties of the hub\<close>

text \<open>C7. Matching. \<open>claimWorker\<close> returns no worker exactly when no registered worker is
  idle, capable of the job type and, for a PRIVATE job, paired with the user; otherwise it returns
  the eligible worker with the highest score, the earliest registered among equals, and marks
  that worker, and only that one, busy.\<close>

theorem claimWorker_best:
  "case claimWorker now jobType policy privacyClass userId h of
     (None, h') \<Rightarrow> h' = h \<and> (\<forall>w \<in> set (map_values (h_workers h)). \<not> eligible (h_db h) jobType privacyClass userId w)
   | (Some b, h') \<Rightarrow>
       (\<exists>pre w post. map_values (h_workers h) = pre @ w # post \<and> b = w\<lparr>w_status := Busy\<rparr> \<and>
          eligible (h_db h) jobType privacyClass userId w \<and>
          (\<forall>v \<in> set pre. eligible (h_db h) jobType privacyClass userId v \<longrightarrow>
             workerScore now v policy jobType < workerScore now w policy jobType) \<and>
          (\<forall>v \<in> set post. eligible (h_db h) jobType privacyClass userId v \<longrightarrow>
             workerScore now v policy jobType \<le> workerScore now w policy jobType) \<and>
          h' = modify_worker (w_id w) (\<lambda>w. w\<lparr>w_status := Busy\<rparr>) h)"
proof -
  obtain r h' where c: "claimWorker now jobType policy privacyClass userId h = (r, h')" by fastforce
  show ?thesis
  proof (cases r)
    case None
    with c show ?thesis using claimWorker_None [of now jobType policy privacyClass userId h h'] by simp
  next
    case (Some b)
    with c have "claimWorker now jobType policy privacyClass userId h = (Some b, h')" by simp
    then show ?thesis using c Some by (elim claimWorker_Some) auto
  qed
qed

definition demo_worker :: TrackedWorker where
  "demo_worker = \<lparr>w_id = ''u1'', w_ws = 1, w_pubkey = ''ab'', w_type = SEEKER, w_capabilities = [TASK],
     w_status = Idle, w_lastHeartbeat = 0, w_activeJobId = None, w_reputationScore = None, w_stakeLevel = None\<rparr>"

definition demo_hub :: hub where
  "demo_hub = (hub_new (createDb None) None False None None)\<lparr>h_workers := [(''u1'', demo_worker)], h_open := [1],
     h_conns := [(1, Some ''u1'')]\<rparr>"

theorem claimWorker_best_witness:
  "fst (claimWorker 0 TASK CHEAP PUBLIC ''user'' demo_hub) = Some (demo_worker\<lparr>w_status := Busy\<rparr>) \<and>
   fst (claimWorker 0 LLM_INFER FAST PUBLIC ''user'' demo_hub) = None"
  using claimWorker_best [where now = 0 and jobType = TASK and policy = CHEAP and privacyClass = PUBLIC
      and userId = "''user''" and h = demo_hub]
    claimWorker_best [where now = 0 and jobType = LLM_INFER and policy = FAST and privacyClass = PUBLIC
      and userId = "''user''" and h = demo_hub]
  by (auto simp: demo_hub_def demo_worker_def eligible_def hub_new_def Cons_eq_append_conv
      split: prod.splits option.splits)

lemma workerScore_parts:
  assumes "w_lastHeartbeat w \<le> now" "\<forall>r. w_reputationScore w = Some r \<longrightarrow> 0 \<le> r \<and> r \<le> 100"
  obtains A R :: rat where "0 \<le> A" "A \<le> 15" "0 \<le> R" "R \<le> 10"
    "\<And>s. workerScore now (w\<lparr>w_stakeLevel := Some s\<rparr>) policy jobType =
       A + R * sp_repMultiplier (STAKE_PRIORITY s) + sp_bonus (STAKE_PRIORITY s)"
proof -
  define A where "A = (if policy = FAST then (if w_type w = DESKTOP then 10 else 0)
       else (if jobType = TASK \<and> w_type w = SEEKER then 10 else 0))
      + (max 0 (5 - of_int (now - w_lastHeartbeat w) / 10000) :: rat)"
  define R where "R = (case w_reputationScore w of Some r \<Rightarrow> r / 100 * 10 | None \<Rightarrow> 0)"
  have F: "max 0 (5 - of_int (now - w_lastHeartbeat w) / 10000 :: rat) \<le> 5"
    "0 \<le> max 0 (5 - of_int (now - w_lastHeartbeat w) / 10000 :: rat)" using assms(1) by simp_all
  have "0 \<le> A" "A \<le> 10 + 5"
    unfolding A_def using F by (intro add_nonneg_nonneg add_mono; simp)+
  moreover have "0 \<le> R" "R \<le> 10" using assms(2) by (auto simp: R_def split: option.splits)
  ultimately show ?thesis
    by (intro that [of A R]) (simp_all add: workerScore_def A_def R_def split: option.splits)
qed

lemma STAKE_PRIORITY_bounds:
  "1 \<le> sp_repMultiplier (STAKE_PRIORITY s) \<and> sp_repMultiplier (STAKE_PRIORITY s) \<le> 2 \<and>
   0 \<le> sp_bonus (STAKE_PRIORITY s) \<and> sp_bonus (STAKE_PRIORITY s) \<le> 10"
  by (cases s) simp_all

lemma STAKE_PRIORITY_mono:
  "t \<le> u \<Longrightarrow> sp_repMultiplier (STAKE_PRIORITY t) \<le> sp_repMultiplier (STAKE_PRIORITY u)
     \<and> sp_bonus (STAKE_PRIORITY t) \<le> sp_bonus (STAKE_PRIORITY u)"
  by (cases t; cases u) (simp_all add: less_eq_StakeTier_def)

lemma workerScore_default_tier:
  "workerScore now w policy jobType =
     workerScore now (w\<lparr>w_stakeLevel := Some (case w_stakeLevel w of Some t \<Rightarrow> t | None \<Rightarrow> OPEN)\<rparr>) policy jobType"
  by (simp add: workerScore_def)

text \<open>C15. The score is between 0 and 45 for a worker whose last heartbeat is not in the future
  and whose reputation, if known, is a percentage; and a worker never scores lower for a higher
  stake tier.\<close>

theorem workerScore_bounds:
  assumes "w_lastHeartbeat w \<le> now" and "\<forall>r. w_reputationScore w = Some r \<longrightarrow> 0 \<le> r \<and> r \<le> 100"
  shows "0 \<le> workerScore now w policy jobType \<and> workerScore now w policy jobType \<le> 45 \<and>
    (t \<le> u \<longrightarrow> workerScore now (w\<lparr>w_stakeLevel := Some t\<rparr>) policy jobType
               \<le> workerScore now (w\<lparr>w_stakeLevel := Some u\<rparr>) policy jobType)"
proof -
  obtain A R :: rat where AR: "0 \<le> A" "A \<le> 15" "0 \<le> R" "R \<le> 10"
    and eq: "\<And>s. workerScore now (w\<lparr>w_stakeLevel := Some s\<rparr>) policy jobType =
       A + R * sp_repMultiplier (STAKE_PRIORITY s) + sp_bonus (STAKE_PRIORITY s)"
    using workerScore_parts [OF assms] by blast
  have RM: "0 \<le> R * sp_repMultiplier (STAKE_PRIORITY s) \<and> R * sp_repMultiplier (STAKE_PRIORITY s) \<le> 10 * 2" for s
    using AR STAKE_PRIORITY_bounds [of s] by (intro conjI mult_nonneg_nonneg mult_mono) auto
  have b: "0 \<le> workerScore now (w\<lparr>w_stakeLevel := Some s\<rparr>) policy jobType \<and>
    workerScore now (w\<lparr>w_stakeLevel := Some s\<rparr>) policy jobType \<le> 45" for s
    using AR RM [of s] STAKE_PRIORITY_bounds [of s] unfolding eq by linarith
  have "t \<le> u \<Longrightarrow> R * sp_repMultiplier (STAKE_PRIORITY t) \<le> R * sp_repMultiplier (STAKE_PRIORITY u)"
    using AR STAKE_PRIORITY_mono by (simp add: mult_left_mono)
  then have "t \<le> u \<Longrightarrow> workerScore now (w\<lparr>w_stakeLevel := Some t\<rparr>) policy jobType
               \<le> workerScore now (w\<lparr>w_stakeLevel := Some u\<rparr>) policy jobType"
    unfolding eq using STAKE_PRIORITY_mono [of t u] by simp
  with b show ?thesis by (subst (1 2) workerScore_default_tier) blast
qed

theorem workerScore_bounds_witness:
  "0 \<le> workerScore 0 demo_worker CHEAP TASK \<and> workerScore 0 demo_worker CHEAP TASK \<le> 45"
  using workerScore_bounds [where w = demo_worker and now = 0 and policy = CHEAP and jobType = TASK] by (simp add: demo_worker_def)

lemma prune_one_map_of:
  "k \<noteq> i \<Longrightarrow> map_of (h_workers (prune_one now i h)) k = map_of (h_workers h) k"
  by (simp add: prune_one_def handleDisconnect_workers delete_conv split: option.splits)

text \<open>The real (not demo) jobs whose worker, among the keys \<open>ks\<close>, has gone stale.\<close>

definition stale_job :: "int \<Rightarrow> string list \<Rightarrow> TrackedWorker jsmap \<Rightarrow> string \<Rightarrow> bool" where
  "stale_job now ks ws j \<longleftrightarrow> j \<noteq> [] \<and> \<not> is_demo j \<and>
     (\<exists>k \<in> set ks. \<exists>w. map_of ws k = Some w \<and> now - w_lastHeartbeat w > HEARTBEAT_TIMEOUT_MS \<and> w_activeJobId w = Some j)"

definition fail_row :: "job_row \<Rightarrow> job_row" where
  "fail_row r = r\<lparr>j_status := FAILED, j_result := Some (JObj [(''error'', JStr ''worker_disconnected'')])\<rparr>"

lemma prune_one_select:
  "select_job j (h_db (prune_one now i h)) =
     (if stale_job now [i] (h_workers h) j then map_option fail_row (select_job j (h_db h)) else select_job j (h_db h))"
  by (auto simp: prune_one_def handleDisconnect_db stale_job_def select_sql fail_row_def [abs_def] split: option.splits)

lemma stale_job_Cons:
  assumes "i \<notin> set ks"
  shows "stale_job now (i # ks) (h_workers h) j \<longleftrightarrow>
    stale_job now [i] (h_workers h) j \<or> stale_job now ks (h_workers (prune_one now i h)) j"
proof -
  have "map_of (h_workers (prune_one now i h)) k = map_of (h_workers h) k" if "k \<in> set ks" for k
    using assms that prune_one_map_of [of k i now h] by metis
  then show ?thesis by (auto simp: stale_job_def)
qed

lemma prune_fold_select:
  assumes "distinct ks"
  shows "select_job j (h_db (fold (prune_one now) ks h)) =
     (if stale_job now ks (h_workers h) j then map_option fail_row (select_job j (h_db h)) else select_job j (h_db h))"
  using assms
proof (induction ks arbitrary: h)
  case Nil
  then show ?case by (simp add: stale_job_def)
next
  case (Cons i ks)
  have "fail_row \<circ> fail_row = fail_row" by (auto simp: fail_row_def fun_eq_iff)
  with Cons show ?case
    by (simp add: prune_one_select stale_job_Cons [of i ks now h j] option.map_comp)
qed

lemma pruneStale_workers:
  assumes "workers_wf (h_workers h)"
  shows "h_workers (pruneStale now h) = filter (\<lambda>(k, w). now - w_lastHeartbeat w \<le> 30000) (h_workers h)"
proof -
  have d: "distinct (map_keys (h_workers h))" using assms by (simp add: workers_wf_def)
  show ?thesis
    unfolding pruneStale_def prune_fold_workers [OF d] HEARTBEAT_TIMEOUT_MS_def
    by (rule filter_cong) force+
qed

lemma map_of_filter_value:
  "distinct (map_keys m) \<Longrightarrow> map_of (filter (\<lambda>(k, w). P w) m) k =
     (case map_of m k of Some w \<Rightarrow> if P w then Some w else None | None \<Rightarrow> None)"
  by (induction m) (auto simp: map_of_eq_None_iff split: option.splits dest: map_of_SomeD)

lemma pruneStale_workers_lookup:
  assumes "workers_wf (h_workers h)"
  shows "map_of (h_workers (pruneStale now h)) k =
    (case map_of (h_workers h) k of Some w \<Rightarrow> if now - w_lastHeartbeat w \<le> 30000 then Some w else None | None \<Rightarrow> None)"
  using assms unfolding pruneStale_workers [OF assms]
  by (intro map_of_filter_value) (simp add: workers_wf_def)

text \<open>C11. Pruning. \<open>pruneStale\<close> removes exactly the workers not heard of for more than
  30 seconds, and marks failed exactly the jobs (demo jobs apart) those workers were running.\<close>

theorem pruneStale_exact:
  assumes "workers_wf (h_workers h)"
  shows "h_workers (pruneStale now h) = filter (\<lambda>(k, w). now - w_lastHeartbeat w \<le> 30000) (h_workers h) \<and>
    select_job j (h_db (pruneStale now h)) =
      (if j \<noteq> [] \<and> \<not> is_demo j \<and>
          (\<exists>(k, w) \<in> set (h_workers h). now - w_lastHeartbeat w > 30000 \<and> w_activeJobId w = Some j)
       then map_option (\<lambda>r. r\<lparr>j_status := FAILED, j_result := Some (JObj [(''error'', JStr ''worker_disconnected'')])\<rparr>)
              (select_job j (h_db h))
       else select_job j (h_db h))"
proof -
  have d: "distinct (map_keys (h_workers h))" using assms by (simp add: workers_wf_def)
  have "stale_job now (map_keys (h_workers h)) (h_workers h) j \<longleftrightarrow> j \<noteq> [] \<and> \<not> is_demo j \<and>
          (\<exists>(k, w) \<in> set (h_workers h). now - w_lastHeartbeat w > 30000 \<and> w_activeJobId w = Some j)"
    using d by (force simp: stale_job_def HEARTBEAT_TIMEOUT_MS_def)
  then have "select_job j (h_db (pruneStale now h)) =
      (if j \<noteq> [] \<and> \<not> is_demo j \<and>
          (\<exists>(k, w) \<in> set (h_workers h). now - w_lastHeartbeat w > 30000 \<and> w_activeJobId w = Some j)
       then map_option fail_row (select_job j (h_db h)) else select_job j (h_db h))"
    unfolding pruneStale_def prune_fold_select [OF d] by (simp only:)
  with pruneStale_workers [OF assms] show ?thesis unfolding fail_row_def [abs_def] by blast
qed

theorem pruneStale_exact_witness:
  "h_workers (pruneStale 30000 demo_hub) = [(''u1'', demo_worker)] \<and> h_workers (pruneStale 30001 demo_hub) = []"
proof -
  have "workers_wf (h_workers demo_hub)" by (simp add: workers_wf_def demo_hub_def demo_worker_def)
  then show ?thesis
    using pruneStale_exact [of demo_hub 30000 "[]"] pruneStale_exact [of demo_hub 30001 "[]"]
    by (simp add: demo_hub_def demo_worker_def)
qed

text \<open>C16. Heartbeats of a reconnected worker. When two entries have the same public key (the
  worker came back before its old connection was noticed dead), \<open>handleHeartbeat\<close> refreshes the
  older entry only; the entry of the live connection keeps its old time stamp, so the next
  \<open>pruneStale\<close> more than 30 seconds after its registration removes it, heartbeats or not.\<close>

theorem heartbeat_refreshes_first_entry:
  assumes "workers_wf (h_workers h)" and "h_workers h = pre @ (k1, w1) # mid @ (k2, w2) # post"
    and "w_pubkey w1 = hb_provider_pubkey msg" and "\<forall>(k, w) \<in> set pre. w_pubkey w \<noteq> hb_provider_pubkey msg"
    and "w_pubkey w2 = w_pubkey w1" and "t - w_lastHeartbeat w2 > 30000"
  shows "map_of (h_workers (handleHeartbeat now msg h)) k1 = Some (w1\<lparr>w_lastHeartbeat := now\<rparr>) \<and>
    map_of (h_workers (handleHeartbeat now msg h)) k2 = Some w2 \<and>
    map_of (h_workers (pruneStale t (handleHeartbeat now msg h))) k2 = None"
proof -
  have ids: "w_id w1 = k1" "k2 \<noteq> k1" using assms(1,2) by (auto simp: workers_wf_def)
  have "List.find (\<lambda>w. w_pubkey w = hb_provider_pubkey msg) (map_values pre) = None"
    using assms(4) by (auto simp: find_None_ball)
  then have "findByPubkey (hb_provider_pubkey msg) h = Some w1"
    using assms(2,3) by (simp add: findByPubkey_def find_append)
  then have hb: "h_workers (handleHeartbeat now msg h) = map_modify k1 (\<lambda>w. w\<lparr>w_lastHeartbeat := now\<rparr>) (h_workers h)"
    by (simp add: handleHeartbeat_def ids)
  have "distinct (map_keys (h_workers h))" "(k1, w1) \<in> set (h_workers h)" "(k2, w2) \<in> set (h_workers h)"
    using assms(1) by (simp_all add: workers_wf_def assms(2))
  then have m: "map_of (h_workers h) k1 = Some w1" "map_of (h_workers h) k2 = Some w2"
    by simp_all
  have wf: "workers_wf (h_workers (handleHeartbeat now msg h))"
    unfolding hb using assms(1) by (rule workers_wf_modify) simp
  have k2: "map_of (h_workers (handleHeartbeat now msg h)) k2 = Some w2" using ids m by (simp add: hb map_of_modify)
  have "map_of (h_workers (pruneStale t (handleHeartbeat now msg h))) k2 = None"
    using pruneStale_workers_lookup [OF wf] k2 assms(6) by simp
  with k2 m show ?thesis by (simp add: hb map_of_modify)
qed

theorem heartbeat_refreshes_first_entry_witness:
  "let w2 = demo_worker\<lparr>w_id := ''u2'', w_ws := 2\<rparr>;
       h = demo_hub\<lparr>h_workers := [(''u1'', demo_worker), (''u2'', w2)]\<rparr>;
       h' = handleHeartbeat 29000 \<lparr>hb_provider_pubkey = ''ab'', hb_metrics = None\<rparr> h in
     map_of (h_workers h') ''u2'' = Some w2 \<and> map_of (h_workers (pruneStale 30001 h')) ''u2'' = None"
proof -
  let ?w2 = "demo_worker\<lparr>w_id := ''u2'', w_ws := 2\<rparr>"
  let ?h = "demo_hub\<lparr>h_workers := [(''u1'', demo_worker), (''u2'', ?w2)]\<rparr>"
  have "workers_wf (h_workers ?h)" by (simp add: workers_wf_def demo_worker_def)
  then show ?thesis
    using heartbeat_refreshes_first_entry [where h = ?h and pre = "[]" and mid = "[]" and post = "[]"
        and ?k1.0 = "''u1''" and ?w1.0 = demo_worker and ?k2.0 = "''u2''" and ?w2.0 = ?w2
        and msg = "\<lparr>hb_provider_pubkey = ''ab'', hb_metrics = None\<rparr>" and now = 29000 and t = 30001]
    by (simp add: demo_worker_def)
qed

lemma complete_stores_receipt:
  assumes "findByActiveJob (jc_job_id msg) h = Some w" and "\<not> is_demo (jc_job_id msg)"
    and "jc_receipt msg = Some r" and "jc_receipt_signature msg = Some sig" and "sig \<noteq> []"
    and "uuid \<notin> rr_id ` set (db_receipts (h_db h))" and "r_job_id r \<in> j_id ` set (db_jobs (h_db h))"
  shows "\<exists>h'. handleJobComplete X now uuid msg h = Inr h' \<and>
        select_job (jc_job_id msg) (h_db h') =
          map_option (\<lambda>row. row\<lparr>j_status := COMPLETED, j_result := Some (jc_output msg),
                              j_completed_at := Some (now div 1000)\<rparr>)
            (select_job (jc_job_id msg) (h_db h)) \<and>
        db_receipts (h_db h') = db_receipts (h_db h) @
          [\<lparr>rr_id = uuid, rr_job_id = r_job_id r, rr_provider_pubkey = r_provider_pubkey r, rr_receipt = r,
            rr_signature = sig, rr_verified = verifyReceiptSignature X r sig (w_pubkey w),
            rr_created_at = now div 1000\<rparr>]"
proof -
  let ?db = "sql_complete_job now (jc_output msg) (jc_job_id msg) (h_db h)"
  let ?row = "\<lparr>rr_id = uuid, rr_job_id = r_job_id r, rr_provider_pubkey = r_provider_pubkey r, rr_receipt = r,
      rr_signature = sig, rr_verified = verifyReceiptSignature X r sig (w_pubkey w), rr_created_at = now div 1000\<rparr>"
  have txn: "complete_txn X now uuid w msg (h_db h) = insert_receipt ?row ?db"
    using assms by (simp add: complete_txn_def sql_now_def)
  have ids: "j_id ` set (db_jobs ?db) = j_id ` set (db_jobs (h_db h))"
    using sql_ids(1) [of now "jc_output msg" "jc_job_id msg" "h_db h"] by (metis list.set_map)
  have sel: "select_job k (db\<lparr>db_receipts := x\<rparr>) = select_job k db" for k db x by (simp add: select_job_def)
  have "insert_receipt ?row ?db = Inr (?db\<lparr>db_receipts := db_receipts (h_db h) @ [?row]\<rparr>)"
    using assms ids by (simp add: insert_receipt_Inr)
  with assms txn show ?thesis by (simp add: handleJobComplete_def sel select_sql sql_now_def)
qed

lemma complete_unknown_job:
  assumes "findByActiveJob (jc_job_id msg) h = Some w" and "\<not> is_demo (jc_job_id msg)"
    and "jc_receipt msg = Some r" and "jc_receipt_signature msg = Some sig" and "sig \<noteq> []"
    and "uuid \<notin> rr_id ` set (db_receipts (h_db h))" and "r_job_id r \<notin> j_id ` set (db_jobs (h_db h))"
  shows "handleJobComplete X now uuid msg h = Inl (DbError ForeignKeyViolation)"
proof -
  have "j_id ` set (db_jobs (sql_complete_job now (jc_output msg) (jc_job_id msg) (h_db h))) = j_id ` set (db_jobs (h_db h))"
    using sql_ids(1) [of now "jc_output msg" "jc_job_id msg" "h_db h"] by (metis list.set_map)
  with assms show ?thesis by (simp add: handleJobComplete_def complete_txn_def insert_receipt_def)
qed



end
