(* ===== verification/JsString.thy ===== *)
theory JsString
  imports Codec
begin

section \<open>JavaScript strings over UTF-8 text\<close>

text \<open>
  The string operations the executors, the clients and the command line use, on the byte strings
  that stand for JavaScript strings (see \<open>Json\<close>).

  \<^item> \<open>js_chars\<close> splits UTF-8 text into its code points, and \<open>js_length\<close>, \<open>js_slice0\<close> count
    UTF-16 code units, as \<open>length\<close> and \<open>slice(0, n)\<close> do: a code point outside the basic plane
    counts two. A slice that ends between the two halves of a surrogate pair keeps the first half,
    which is written as the three bytes of that lone surrogate.
  \<^item> \<open>js_trim\<close> and \<open>js_split_ws\<close> are \<open>trim()\<close> and \<open>split(/\s+/)\<close>, with the white space and
    line terminators of ECMAScript.
  \<^item> \<open>js_lower\<close> lowers the ASCII letters and the two other letters whose lower case has ASCII letters
    (the Kelvin sign and the dotted capital I). The sources use \<open>toLowerCase()\<close> only to compare with
    ASCII words or to look for them, which the lower case of any other letter does not affect.
  \<^item> \<open>nat_text\<close> is the decimal text of a natural number.
\<close>

subsection \<open>Code points\<close>

definition is_cont :: "char \<Rightarrow> bool" where
  "is_cont c \<longleftrightarrow> 128 \<le> byte_nat c \<and> byte_nat c < 192"

function js_chars :: "string \<Rightarrow> string list" where
  "js_chars [] = []"
| "js_chars (c # cs) = (c # takeWhile is_cont cs) # js_chars (dropWhile is_cont cs)"
  by pat_completeness auto
termination by (relation "measure length") (auto simp: le_imp_less_Suc length_dropWhile_le)

definition char_units :: "string \<Rightarrow> nat" where
  "char_units p = (case p of [] \<Rightarrow> 0 | c # _ \<Rightarrow> if 240 \<le> byte_nat c then 2 else 1)"

definition js_length :: "string \<Rightarrow> nat" where
  "js_length s = sum_list (map char_units (js_chars s))"

definition utf8_encode :: "nat \<Rightarrow> string" where
  "utf8_encode x =
     (if x < 0x80 then [char_of x]
      else if x < 0x800 then [char_of (0xC0 + x div 0x40), char_of (0x80 + x mod 0x40)]
      else if x < 0x10000 then
        [char_of (0xE0 + x div 0x1000), char_of (0x80 + x div 0x40 mod 0x40), char_of (0x80 + x mod 0x40)]
      else [char_of (0xF0 + x div 0x40000), char_of (0x80 + x div 0x1000 mod 0x40),
            char_of (0x80 + x div 0x40 mod 0x40), char_of (0x80 + x mod 0x40)])"

fun code_point :: "string \<Rightarrow> nat" where
  "code_point [a, b, c, d] =
     byte_nat a mod 8 * 0x40000 + byte_nat b mod 0x40 * 0x1000 + byte_nat c mod 0x40 * 0x40 + byte_nat d mod 0x40"
| "code_point [a, b, c] = byte_nat a mod 16 * 0x1000 + byte_nat b mod 0x40 * 0x40 + byte_nat c mod 0x40"
| "code_point [a, b] = byte_nat a mod 32 * 0x40 + byte_nat b mod 0x40"
| "code_point [a] = byte_nat a"
| "code_point _ = 0xFFFD"

definition high_surrogate :: "nat \<Rightarrow> nat" where
  "high_surrogate x = 0xD800 + (x - 0x10000) div 0x400"

fun js_take :: "nat \<Rightarrow> string list \<Rightarrow> string" where
  "js_take n [] = []"
| "js_take n (p # ps) =
     (if n = 0 then []
      else if char_units p \<le> n then p @ js_take (n - char_units p) ps
      else utf8_encode (high_surrogate (code_point p)))"

definition js_slice0 :: "nat \<Rightarrow> string \<Rightarrow> string" where
  "js_slice0 n s = js_take n (js_chars s)"

lemma concat_js_chars [simp, js_string]: "concat (js_chars s) = s"
  by (induction s rule: js_chars.induct) simp_all

lemma js_chars_nonempty: "p \<in> set (js_chars s) \<Longrightarrow> p \<noteq> []"
  by (induction s rule: js_chars.induct) auto

lemma char_units_pos: "p \<noteq> [] \<Longrightarrow> 0 < char_units p"
  by (cases p) (simp_all add: char_units_def)

lemma js_length_Nil [simp]: "js_length [] = 0"
  by (simp add: js_length_def)

lemma js_length_zero: "js_length s = 0 \<longleftrightarrow> s = []"
  by (cases s) (simp_all add: js_length_def char_units_def)

lemma js_take_all: "sum_list (map char_units ps) \<le> n \<Longrightarrow> js_take n ps = concat ps"
proof (induction ps arbitrary: n)
  case (Cons p ps)
  show ?case
  proof (cases "n = 0")
    case True
    with Cons.prems have p: "char_units p = 0" and ps: "sum_list (map char_units ps) \<le> 0" by simp_all
    from p have "p = []" using char_units_pos [of p] by (cases "p = []") simp_all
    moreover have "js_take 0 ps = concat ps" using Cons.IH ps by blast
    moreover have "js_take 0 ps = []" by (cases ps) simp_all
    ultimately show ?thesis using True by simp
  next
    case False
    with Cons show ?thesis by simp
  qed
qed simp

text \<open>A slice at least as long as the string is the string.\<close>

lemma js_slice0_all [js_string]: "js_length s \<le> n \<Longrightarrow> js_slice0 n s = s"
  by (simp add: js_slice0_def js_length_def js_take_all)

subsection \<open>ASCII text\<close>

definition is_ascii :: "string \<Rightarrow> bool" where
  "is_ascii s \<longleftrightarrow> list_all (\<lambda>c. byte_nat c < 128) s"

lemma js_chars_ascii: "is_ascii s \<Longrightarrow> js_chars s = map (\<lambda>c. [c]) s"
proof (induction s)
  case (Cons c cs)
  then have "takeWhile is_cont cs = []" "dropWhile is_cont cs = cs"
    by (cases cs; simp add: is_ascii_def is_cont_def)+
  with Cons show ?case by (simp add: is_ascii_def)
qed simp

lemma js_length_ascii [js_string]: "is_ascii s \<Longrightarrow> js_length s = length s"
proof -
  assume a: "is_ascii s"
  then have "map char_units (map (\<lambda>c. [c]) s) = map (\<lambda>_. 1) s"
    by (auto simp: is_ascii_def char_units_def list_all_iff)
  with a show ?thesis by (simp only: js_length_def js_chars_ascii) (simp add: sum_list_triv)
qed

lemma js_take_ascii: "is_ascii s \<Longrightarrow> js_take n (map (\<lambda>c. [c]) s) = take n s"
  by (induction s arbitrary: n) (auto simp: is_ascii_def char_units_def take_Cons')

lemma js_slice0_ascii [js_string]: "is_ascii s \<Longrightarrow> js_slice0 n s = take n s"
  by (simp add: js_slice0_def js_chars_ascii js_take_ascii)

subsection \<open>White space\<close>

definition js_spaces :: "string list" where
  "js_spaces =
     map utf8_encode ([9, 10, 11, 12, 13, 32, 0xA0, 0x1680] @ [0x2000..<0x200B] @
       [0x2028, 0x2029, 0x202F, 0x205F, 0x3000, 0xFEFF])"

definition is_space :: "string \<Rightarrow> bool" where
  "is_space p \<longleftrightarrow> p \<in> set js_spaces"

lemma utf8_single: "utf8_encode x = [c] \<longleftrightarrow> x < 128 \<and> c = char_of x"
  by (auto simp: utf8_encode_def)

lemma is_space_single: "is_space [c] \<longleftrightarrow> byte_nat c \<in> {9, 10, 11, 12, 13, 32}"
proof -
  have "is_space [c] \<longleftrightarrow> (\<exists>x \<in> {9, 10, 11, 12, 13, 32}. c = char_of (x :: nat))"
    unfolding is_space_def js_spaces_def by (auto simp: utf8_single image_iff eq_commute [of "[c]"])
  also have "\<dots> \<longleftrightarrow> byte_nat c \<in> {9, 10, 11, 12, 13, 32}"
    by (auto simp: byte_nat_def of_char_of) (metis char_of_char)+
  finally show ?thesis .
qed

definition trim_chars :: "string list \<Rightarrow> string list" where
  "trim_chars ps = rev (dropWhile is_space (rev (dropWhile is_space ps)))"

definition js_trim :: "string \<Rightarrow> string" where
  "js_trim s = concat (trim_chars (js_chars s))"

function split_chars :: "string list \<Rightarrow> string list" where
  "split_chars ps =
     concat (takeWhile (\<lambda>p. \<not> is_space p) ps) #
     (case dropWhile (\<lambda>p. \<not> is_space p) ps of [] \<Rightarrow> [] | _ # qs \<Rightarrow> split_chars (dropWhile is_space qs))"
  by pat_completeness auto
termination
proof (relation "measure length", goal_cases)
  case (2 ps q qs)
  have "length (dropWhile is_space qs) \<le> length qs" by (rule length_dropWhile_le)
  also have "\<dots> < length (dropWhile (\<lambda>p. \<not> is_space p) ps)" using 2 by simp
  also have "\<dots> \<le> length ps" by (rule length_dropWhile_le)
  finally show ?case by simp
qed simp

declare split_chars.simps [simp del]

definition js_split_ws :: "string \<Rightarrow> string list" where
  "js_split_ws s = split_chars (js_chars s)"

definition is_blank :: "string \<Rightarrow> bool" where
  "is_blank s \<longleftrightarrow> list_all is_space (js_chars s)"

lemma trim_chars_Nil: "trim_chars ps = [] \<longleftrightarrow> list_all is_space ps"
proof
  assume "trim_chars ps = []"
  then have "\<forall>p \<in> set (dropWhile is_space ps). is_space p"
    by (simp only: trim_chars_def rev_is_Nil_conv dropWhile_eq_Nil_conv set_rev)
  moreover have "\<forall>p \<in> set (takeWhile is_space ps). is_space p" by (blast dest: set_takeWhileD)
  ultimately show "list_all is_space ps"
    by (metis list_all_append list_all_iff takeWhile_dropWhile_id)
next
  assume "list_all is_space ps"
  then have "dropWhile is_space ps = []" by (simp only: list_all_iff dropWhile_eq_Nil_conv)
  then show "trim_chars ps = []" by (simp only: trim_chars_def rev.simps dropWhile.simps)
qed

lemma set_trim_chars: "set (trim_chars ps) \<subseteq> set ps"
  unfolding trim_chars_def by (auto dest!: set_dropWhileD)

lemma is_blank_trim: "is_blank s \<longleftrightarrow> js_trim s = []"
proof -
  have "js_trim s = [] \<longleftrightarrow> (\<forall>p \<in> set (trim_chars (js_chars s)). p = [])" by (simp only: js_trim_def concat_eq_Nil_conv)
  also have "\<dots> \<longleftrightarrow> set (trim_chars (js_chars s)) = {}"
    using set_trim_chars [of "js_chars s"] js_chars_nonempty [of _ s] by (simp only: set_eq_iff empty_iff) (meson subsetD)
  also have "\<dots> \<longleftrightarrow> is_blank s" by (simp only: set_empty trim_chars_Nil is_blank_def)
  finally show ?thesis by (rule sym)
qed

text \<open>White space does not change a word of printable ASCII characters.\<close>

lemma js_trim_ascii:
  assumes "is_ascii s"
  shows "js_trim s = rev (dropWhile (\<lambda>c. is_space [c]) (rev (dropWhile (\<lambda>c. is_space [c]) s)))"
  by (simp add: js_trim_def trim_chars_def js_chars_ascii [OF assms] dropWhile_map rev_map comp_def concat_map_singleton)

lemma js_trim_word:
  assumes "is_ascii s" and "s = [] \<or> \<not> is_space [hd s] \<and> \<not> is_space [last s]"
  shows "js_trim s = s"
proof (cases "s = []")
  case False
  with assms(2) have "dropWhile (\<lambda>c. is_space [c]) s = s" "dropWhile (\<lambda>c. is_space [c]) (rev s) = rev s"
    by (simp_all add: dropWhile_eq_self_iff hd_rev)
  then show ?thesis using js_trim_ascii [OF assms(1)] by simp
qed (simp add: js_trim_ascii is_ascii_def)

definition plain_word :: "string \<Rightarrow> bool" where
  "plain_word s \<longleftrightarrow> s \<noteq> [] \<and> list_all (\<lambda>c. 32 < byte_nat c \<and> byte_nat c < 128) s"

lemma js_trim_plain: "plain_word s \<Longrightarrow> js_trim s = s"
proof -
  assume s: "plain_word s"
  then have "is_ascii s" by (auto simp: plain_word_def is_ascii_def list_all_iff)
  moreover have "\<not> is_space [c]" if "c \<in> set s" for c
    using s that by (auto simp: plain_word_def list_all_iff is_space_single)
  ultimately show "js_trim s = s" using s by (intro js_trim_word) (auto simp: plain_word_def)
qed

subsection \<open>Case and numbers\<close>

definition char_lower :: "char \<Rightarrow> char" where
  "char_lower c = (if 65 \<le> byte_nat c \<and> byte_nat c \<le> 90 then char_of (byte_nat c + 32) else c)"

definition lower_point :: "string \<Rightarrow> string" where
  "lower_point p =
     (if p = utf8_encode 0x212A then ''k''
      else if p = utf8_encode 0x130 then ''i'' @ utf8_encode 0x307
      else map char_lower p)"

definition js_lower :: "string \<Rightarrow> string" where
  "js_lower s = concat (map lower_point (js_chars s))"

lemma lower_point_ascii: "byte_nat c < 128 \<Longrightarrow> lower_point [c] = [char_lower c]"
  by (simp add: lower_point_def utf8_encode_def)

lemma js_lower_ascii: "is_ascii s \<Longrightarrow> js_lower s = map char_lower s"
  unfolding js_lower_def by (simp only: js_chars_ascii) (induction s; simp add: is_ascii_def lower_point_ascii)

definition digit_char :: "nat \<Rightarrow> char" where
  "digit_char n = char_of (48 + n)"

fun nat_text :: "nat \<Rightarrow> string" where
  "nat_text n = (if n < 10 then [digit_char n] else nat_text (n div 10) @ [digit_char (n mod 10)])"

declare nat_text.simps [simp del]

definition is_digit :: "char \<Rightarrow> bool" where
  "is_digit c \<longleftrightarrow> 48 \<le> byte_nat c \<and> byte_nat c \<le> 57"

definition digits_value :: "string \<Rightarrow> nat" where
  "digits_value ds = foldl (\<lambda>a c. 10 * a + (byte_nat c - 48)) 0 ds"

lemma byte_digit_char [simp]: "n < 10 \<Longrightarrow> byte_nat (digit_char n) = 48 + n"
  by (simp add: byte_nat_def digit_char_def of_char_of)

lemma is_digit_digit_char [simp]: "n < 10 \<Longrightarrow> is_digit (digit_char n)"
  by (simp add: is_digit_def)

lemma digits_value_nat_text: "digits_value (nat_text n) = n"
proof (induction n rule: nat_text.induct)
  case (1 n)
  show ?case
  proof (cases "n < 10")
    case True
    then show ?thesis by (subst nat_text.simps) (simp add: digits_value_def)
  next
    case False
    with 1 show ?thesis by (subst nat_text.simps) (simp add: digits_value_def)
  qed
qed

lemma nat_text_digits: "list_all is_digit (nat_text n)"
proof (induction n rule: nat_text.induct)
  case (1 n)
  then show ?case by (subst nat_text.simps) simp
qed

lemma nat_text_nonempty [simp]: "nat_text n \<noteq> []"
  by (subst nat_text.simps) simp

lemma nat_text_inj: "nat_text m = nat_text n \<longleftrightarrow> m = n"
  by (metis digits_value_nat_text)

text \<open>No leading zero but for zero itself.\<close>

lemma nat_text_no_zero: "hd (nat_text n) = CHR 0x30 \<Longrightarrow> tl (nat_text n) = []"
proof (induction n rule: nat_text.induct)
  case (1 n)
  show ?case
  proof (cases "n < 10")
    case True
    then show ?thesis by (subst nat_text.simps) simp
  next
    case False
    have t: "nat_text n = nat_text (n div 10) @ [digit_char (n mod 10)]"
      using False by (subst nat_text.simps) simp
    with 1(2) have "hd (nat_text (n div 10)) = CHR 0x30" by simp
    with 1(1) [OF False] have "nat_text (n div 10) = [CHR 0x30]"
      by (metis list.collapse nat_text_nonempty)
    then have "n div 10 = 0"
      using digits_value_nat_text [of "n div 10"] by (simp add: digits_value_def byte_nat_def)
    with False show ?thesis by simp
  qed
qed

end
