(* ===== verification/JsonParse.thy ===== *)
theory JsonParse
  imports JsString
begin

section \<open>\<open>JSON.parse\<close>\<close>

text \<open>
  A recursive-descent reader of JSON text, as ECMAScript's \<open>JSON.parse\<close>: \<open>None\<close> where it throws
  a \<open>SyntaxError\<close>. A repeated member keeps its first place and its last value, and members whose
  names are array indices come first in ascending order, as the properties of the object the run
  time builds do (\<open>obj_set\<close>). A number is the exact rational its text denotes.

  The reader is bounded by fuel, two units for every character: a value spends one unit and at
  least one character, or two units before the first character of an array or object member is
  read. \<open>json_value_mono\<close> shows that more fuel changes nothing once there is a result, and
  \<open>JSON_parse_stringify\<close> that the fuel is enough for every text \<open>JSON.stringify\<close> produces.
\<close>

subsection \<open>Tokens\<close>

definition json_ws :: "string \<Rightarrow> string" where
  "json_ws s = dropWhile (\<lambda>c. byte_nat c \<in> {9, 10, 13, 32}) s"

fun json_hex4 :: "string \<Rightarrow> (nat \<times> string) option" where
  "json_hex4 (a # b # c # d # r) =
     (case (hex_value a, hex_value b, hex_value c, hex_value d) of
        (Some w, Some x, Some y, Some z) \<Rightarrow> Some (((w * 16 + x) * 16 + y) * 16 + z, r)
      | _ \<Rightarrow> None)"
| "json_hex4 _ = None"

definition json_unicode :: "string \<Rightarrow> (string \<times> string) option" where
  "json_unicode s =
     (case json_hex4 s of
        None \<Rightarrow> None
      | Some (u, r) \<Rightarrow>
          if 0xD800 \<le> u \<and> u < 0xDC00 then
            (case r of
               a # b # r' \<Rightarrow>
                 if a = CHR 0x5C \<and> b = CHR 0x75 then
                   (case json_hex4 r' of
                      Some (l, r'') \<Rightarrow>
                        if 0xDC00 \<le> l \<and> l < 0xE000
                        then Some (utf8_encode (0x10000 + (u - 0xD800) * 0x400 + (l - 0xDC00)), r'')
                        else Some (utf8_encode u, r)
                    | None \<Rightarrow> None)
                 else Some (utf8_encode u, r)
             | _ \<Rightarrow> Some (utf8_encode u, r))
          else Some (utf8_encode u, r))"

fun json_char :: "string \<Rightarrow> (string \<times> string) option" where
  "json_char [] = None"
| "json_char (c # r) =
     (if c = CHR 0x5C then
        (case r of
           [] \<Rightarrow> None
         | e # r' \<Rightarrow>
             if e = CHR 0x75 then json_unicode r'
             else map_option (\<lambda>x. ([x], r')) (json_simple_escape e))
      else if c = CHR 0x22 \<or> byte_nat c < 32 then None
      else Some ([c], r))"

text \<open>The rest of a string literal, after its opening quote.\<close>

fun json_string :: "nat \<Rightarrow> string \<Rightarrow> (string \<times> string) option" where
  "json_string n [] = None"
| "json_string 0 (c # r) = (if c = CHR 0x22 then Some ([], r) else None)"
| "json_string (Suc n) (c # r) =
     (if c = CHR 0x22 then Some ([], r)
      else (case json_char (c # r) of
              None \<Rightarrow> None
            | Some (x, r') \<Rightarrow> map_option (\<lambda>(y, r''). (x @ y, r'')) (json_string n r')))"

definition num_sign :: "string \<Rightarrow> bool \<times> string" where
  "num_sign s = (case s of c # r \<Rightarrow> if c = CHR 0x2D then (True, r) else (False, s) | [] \<Rightarrow> (False, s))"

definition num_frac :: "string \<Rightarrow> (string \<times> string) option" where
  "num_frac s =
     (case s of
        c # r \<Rightarrow>
          if c = CHR 0x2E then
            (if takeWhile is_digit r = [] then None else Some (takeWhile is_digit r, dropWhile is_digit r))
          else Some ([], s)
      | [] \<Rightarrow> Some ([], s))"

definition num_exp :: "string \<Rightarrow> (int \<times> string) option" where
  "num_exp s =
     (case s of
        c # r \<Rightarrow>
          if c = CHR 0x65 \<or> c = CHR 0x45 then
            (let (neg, t) = (case r of d # r' \<Rightarrow>
                   if d = CHR 0x2D then (True, r') else if d = CHR 0x2B then (False, r') else (False, r)
                 | [] \<Rightarrow> (False, r));
                 ds = takeWhile is_digit t in
             if ds = [] then None
             else Some ((if neg then - int (digits_value ds) else int (digits_value ds)), dropWhile is_digit t))
          else Some (0, s)
      | [] \<Rightarrow> Some (0, s))"

definition rat_pow10 :: "int \<Rightarrow> rat" where
  "rat_pow10 e = (if 0 \<le> e then 10 ^ nat e else 1 / 10 ^ nat (- e))"

definition json_number :: "string \<Rightarrow> (rat \<times> string) option" where
  "json_number s =
     (let (neg, s1) = num_sign s; ds = takeWhile is_digit s1 in
      if ds = [] \<or> (hd ds = CHR 0x30 \<and> tl ds \<noteq> []) then None
      else (case num_frac (dropWhile is_digit s1) of
              None \<Rightarrow> None
            | Some (fs, s2) \<Rightarrow>
                (case num_exp s2 of
                   None \<Rightarrow> None
                 | Some (e, s3) \<Rightarrow>
                     (let v = of_nat (digits_value (ds @ fs)) * rat_pow10 (e - int (length fs)) in
                      Some (if neg then - v else v, s3)))))"

subsection \<open>Values\<close>

definition is_index :: "string \<Rightarrow> bool" where
  "is_index k \<longleftrightarrow> k \<noteq> [] \<and> list_all is_digit k \<and> (hd k = CHR 0x30 \<longrightarrow> tl k = []) \<and> digits_value k < 0xFFFFFFFF"

fun obj_set :: "string \<Rightarrow> json \<Rightarrow> (string \<times> json) list \<Rightarrow> (string \<times> json) list" where
  "obj_set k v [] = [(k, v)]"
| "obj_set k v ((k', v') # m) =
     (if k = k' then (k, v) # m
      else if is_index k \<and> (\<not> is_index k' \<or> digits_value k < digits_value k') then (k, v) # (k', v') # m
      else (k', v') # obj_set k v m)"

definition obj_of :: "(string \<times> json) list \<Rightarrow> (string \<times> json) list" where
  "obj_of kvs = fold (\<lambda>(k, v). obj_set k v) kvs []"

definition json_literal :: "string \<Rightarrow> (json \<times> string) option" where
  "json_literal s =
     (if startsWith s ''true'' then Some (JBool True, drop 4 s)
      else if startsWith s ''false'' then Some (JBool False, drop 5 s)
      else if startsWith s ''null'' then Some (JNull, drop 4 s)
      else map_option (\<lambda>(q, r). (JNum q, r)) (json_number s))"

fun json_value :: "nat \<Rightarrow> string \<Rightarrow> (json \<times> string) option"
  and json_elems :: "nat \<Rightarrow> string \<Rightarrow> (json list \<times> string) option"
  and json_membs :: "nat \<Rightarrow> string \<Rightarrow> ((string \<times> json) list \<times> string) option" where
  "json_value 0 s = None"
| "json_value (Suc n) s =
     (case json_ws s of
        [] \<Rightarrow> None
      | c # r \<Rightarrow>
          if c = CHR 0x7B then
            (case json_ws r of
               [] \<Rightarrow> None
             | d # r' \<Rightarrow>
                 if d = CHR 0x7D then Some (JObj [], r')
                 else map_option (\<lambda>(kvs, r''). (JObj (obj_of kvs), r'')) (json_membs n r))
          else if c = CHR 0x5B then
            (case json_ws r of
               [] \<Rightarrow> None
             | d # r' \<Rightarrow>
                 if d = CHR 0x5D then Some (JArr [], r')
                 else map_option (\<lambda>(vs, r''). (JArr vs, r'')) (json_elems n r))
          else if c = CHR 0x22 then map_option (\<lambda>(x, r'). (JStr x, r')) (json_string (length r) r)
          else json_literal (c # r))"
| "json_elems 0 s = None"
| "json_elems (Suc n) s =
     (case json_value n s of
        None \<Rightarrow> None
      | Some (v, r) \<Rightarrow>
          (case json_ws r of
             [] \<Rightarrow> None
           | c # r' \<Rightarrow>
               if c = CHR 0x2C then map_option (\<lambda>(vs, r''). (v # vs, r'')) (json_elems n r')
               else if c = CHR 0x5D then Some ([v], r')
               else None))"
| "json_membs 0 s = None"
| "json_membs (Suc n) s =
     (case json_ws s of
        [] \<Rightarrow> None
      | q # r \<Rightarrow>
          if q \<noteq> CHR 0x22 then None
          else (case json_string (length r) r of
                  None \<Rightarrow> None
                | Some (k, r1) \<Rightarrow>
                    (case json_ws r1 of
                       [] \<Rightarrow> None
                     | c # r2 \<Rightarrow>
                         if c \<noteq> CHR 0x3A then None
                         else (case json_value n r2 of
                                 None \<Rightarrow> None
                               | Some (v, r3) \<Rightarrow>
                                   (case json_ws r3 of
                                      [] \<Rightarrow> None
                                    | d # r4 \<Rightarrow>
                                        if d = CHR 0x2C then map_option (\<lambda>(m, r5). ((k, v) # m, r5)) (json_membs n r4)
                                        else if d = CHR 0x7D then Some ([(k, v)], r4)
                                        else None)))))"

definition JSON_parse :: "string \<Rightarrow> json option" where
  "JSON_parse s =
     (case json_value (2 * length s + 2) s of
        Some (v, r) \<Rightarrow> if json_ws r = [] then Some v else None
      | None \<Rightarrow> None)"

subsection \<open>Fuel\<close>

lemma json_value_Suc_mono:
  "json_value n s = Some x \<Longrightarrow> json_value (Suc n) s = Some x"
  "json_elems n s = Some y \<Longrightarrow> json_elems (Suc n) s = Some y"
  "json_membs n s = Some z \<Longrightarrow> json_membs (Suc n) s = Some z"
proof (induction n arbitrary: s x y z)
  case (Suc n)
  { case 1
    then show ?case
      by (subst json_value.simps(2), subst (asm) json_value.simps(2))
        (auto split: list.splits if_splits dest: Suc.IH simp del: json_value.simps json_elems.simps json_membs.simps)
  next
    case 2
    then show ?case
      by (subst json_elems.simps(2), subst (asm) json_elems.simps(2))
        (auto split: list.splits if_splits option.splits dest!: Suc.IH
          simp del: json_value.simps json_elems.simps json_membs.simps)
  next
    case 3
    then show ?case
      by (subst json_membs.simps(2), subst (asm) json_membs.simps(2))
        (auto split: list.splits if_splits option.splits dest!: Suc.IH
          simp del: json_value.simps json_elems.simps json_membs.simps)
  }
qed simp_all

lemma json_value_mono: "n \<le> m \<Longrightarrow> json_value n s = Some x \<Longrightarrow> json_value m s = Some x"
  by (induction rule: dec_induct) (auto dest: json_value_Suc_mono(1) simp del: json_value.simps)

lemma json_ws_length: "length (json_ws s) \<le> length s"
  by (simp add: json_ws_def length_dropWhile_le)

lemma json_ws_Cons: "json_ws s = c # r \<Longrightarrow> Suc (length r) \<le> length s"
  using json_ws_length [of s] by simp

lemma json_hex4_length: "json_hex4 s = Some (u, r) \<Longrightarrow> length r < length s"
  by (induction s rule: json_hex4.induct) (auto split: option.splits)

lemma json_char_length: "json_char s = Some (x, r) \<Longrightarrow> length r < length s"
  by (induction s rule: json_char.induct)
    (auto simp: json_unicode_def dest!: json_hex4_length split: if_splits list.splits option.splits)

lemma json_string_length: "json_string n s = Some (x, r) \<Longrightarrow> length r < length s"
proof (induction n s arbitrary: x rule: json_string.induct)
  case (3 n c r')
  then show ?case
    by (auto split: if_splits option.splits simp del: json_char.simps dest!: json_char_length) fastforce
qed (auto split: if_splits)

lemma num_frac_length: "num_frac s = Some (x, r) \<Longrightarrow> length r \<le> length s"
  by (auto simp: num_frac_def split: list.splits if_splits intro: le_SucI length_dropWhile_le)

lemma num_exp_length: "num_exp s = Some (x, r) \<Longrightarrow> length r \<le> length s"
  by (auto simp: num_exp_def split: list.splits if_splits intro: le_SucI length_dropWhile_le)

lemma num_sign_length: "num_sign s = (b, r) \<Longrightarrow> length r \<le> length s"
  by (auto simp: num_sign_def split: list.splits if_splits)

lemma drop_digits_length: "takeWhile is_digit s \<noteq> [] \<Longrightarrow> length (dropWhile is_digit s) < length s"
  by (cases s) (auto simp: le_imp_less_Suc length_dropWhile_le split: if_splits)

lemma json_number_length:
  assumes "json_number s = Some (q, r)"
  shows "length r < length s"
proof -
  obtain neg s1 where 1: "num_sign s = (neg, s1)" by fastforce
  from assms 1 obtain fs s2 e where ds: "takeWhile is_digit s1 \<noteq> []"
    and 2: "num_frac (dropWhile is_digit s1) = Some (fs, s2)" and 3: "num_exp s2 = Some (e, r)"
    by (auto simp: json_number_def split: if_splits option.splits)
  show ?thesis
    using num_sign_length [OF 1] drop_digits_length [OF ds] num_frac_length [OF 2] num_exp_length [OF 3] by linarith
qed

lemma json_literal_length: "json_literal s = Some (v, r) \<Longrightarrow> length r < length s"
  by (auto simp: json_literal_def startsWith_iff dest!: json_number_length split: if_splits)

text \<open>Two units of fuel for a character are enough: whatever some fuel reads, this fuel reads.\<close>

lemma json_fuel_enough:
  "json_value n s = Some (v, r) \<Longrightarrow> length r < length s \<and> (\<forall>m \<ge> 2 * length s. json_value m s = Some (v, r))"
  "json_elems n s = Some (vs, r) \<Longrightarrow> length r < length s \<and> (\<forall>m \<ge> 2 * length s + 1. json_elems m s = Some (vs, r))"
  "json_membs n s = Some (kvs, r) \<Longrightarrow> length r < length s \<and> (\<forall>m \<ge> 2 * length s + 1. json_membs m s = Some (kvs, r))"
proof (induction n arbitrary: s v vs kvs r)
  case (Suc n)
  { case 1
    then obtain c t where ws: "json_ws s = c # t" by (auto split: list.splits)
    note len = json_ws_Cons [OF ws]
    have fuel: "\<exists>k. m = Suc k \<and> 2 * length t + 1 \<le> k" if "m \<ge> 2 * length s" for m
      using that len by (cases m) auto
    show ?case
    proof (cases "c = CHR 0x7B \<or> c = CHR 0x5B")
      case False
      with 1 ws have "length r \<le> length t" "\<And>k. json_value (Suc k) s = Some (v, r)"
        by (auto split: if_splits dest: json_string_length json_literal_length)
      with len fuel show ?thesis by fastforce
    next
      case True
      then consider (obj) kvs where "c = CHR 0x7B" "v = JObj (obj_of kvs)" "json_membs n t = Some (kvs, r)"
          "json_ws t \<noteq> []" "hd (json_ws t) \<noteq> CHR 0x7D"
        | (arr) vs where "c = CHR 0x5B" "v = JArr vs" "json_elems n t = Some (vs, r)"
          "json_ws t \<noteq> []" "hd (json_ws t) \<noteq> CHR 0x5D"
        | (empty) d where "json_ws t = d # r" "\<And>k. json_value (Suc k) s = Some (v, r)"
        using 1 ws by (auto split: list.splits if_splits)
      then show ?thesis
      proof cases
        case obj
        with Suc.IH(3) [OF obj(3)] fuel len ws show ?thesis by (fastforce split: list.splits)
      next
        case arr
        with Suc.IH(2) [OF arr(3)] fuel len ws show ?thesis by (fastforce split: list.splits)
      next
        case empty
        with json_ws_Cons [OF empty(1)] fuel len show ?thesis by fastforce
      qed
    qed
  next
    case 2
    then obtain v t c t' where v: "json_value n s = Some (v, t)" and ws: "json_ws t = c # t'"
      by (auto split: option.splits list.splits)
    note V = Suc.IH(1) [OF v] and len = json_ws_Cons [OF ws]
    have fuel: "\<exists>k. m = Suc k \<and> 2 * length s \<le> k \<and> 2 * length t' + 1 \<le> k" if "m \<ge> 2 * length s + 1" for m
      using that V len by (cases m) auto
    from 2 v ws consider vs' where "c = CHR 0x2C" "json_elems n t' = Some (vs', r)" "vs = v # vs'"
      | "c = CHR 0x5D" "vs = [v]" "r = t'" by (auto split: if_splits)
    then show ?case
    proof cases
      case 1
      with Suc.IH(2) [OF 1(2)] V fuel len ws show ?thesis by fastforce
    next
      case 2
      with V fuel len ws show ?thesis by fastforce
    qed
  next
    case 3
    then obtain t k t1 t2 v t3 c t4 where ws: "json_ws s = CHR 0x22 # t" "json_string (length t) t = Some (k, t1)"
        "json_ws t1 = CHR 0x3A # t2" "json_ws t3 = c # t4" and v: "json_value n t2 = Some (v, t3)"
      by (auto split: option.splits list.splits if_splits)
    note V = Suc.IH(1) [OF v]
    have len: "length t4 < length t2" "length t2 < length s"
      using V json_ws_Cons [OF ws(1)] json_ws_Cons [OF ws(3)] json_ws_Cons [OF ws(4)] json_string_length [OF ws(2)]
      by linarith+
    have fuel: "\<exists>k. m = Suc k \<and> 2 * length t2 \<le> k \<and> 2 * length t4 + 1 \<le> k" if "m \<ge> 2 * length s + 1" for m
      using that len by (cases m) auto
    from 3 v ws consider m' where "c = CHR 0x2C" "json_membs n t4 = Some (m', r)" "kvs = (k, v) # m'"
      | "c = CHR 0x7D" "kvs = [(k, v)]" "r = t4" by (auto split: if_splits)
    then show ?case
    proof cases
      case 1
      with Suc.IH(3) [OF 1(2)] V fuel len ws show ?thesis by fastforce
    next
      case 2
      with V fuel len ws show ?thesis by fastforce
    qed
  }
qed simp_all

declare json_value.simps [simp del] json_elems.simps [simp del] json_membs.simps [simp del]

lemma JSON_parse_iff: "JSON_parse s = Some v \<longleftrightarrow> (\<exists>n r. json_value n s = Some (v, r) \<and> json_ws r = [])"
proof
  assume parse: "JSON_parse s = Some v"
  show "\<exists>n r. json_value n s = Some (v, r) \<and> json_ws r = []"
  proof (cases "json_value (2 * length s + 2) s")
    case None
    with parse show ?thesis unfolding JSON_parse_def by simp
  next
    case (Some p)
    obtain w r where p: "p = (w, r)" by fastforce
    from parse have "json_ws r = []" "w = v"
      unfolding JSON_parse_def Some p option.case prod.case by (simp_all split: if_splits)
    then have "json_value (2 * length s + 2) s = Some (v, r) \<and> json_ws r = []" using Some p by blast
    then show ?thesis by (intro exI)
  qed
next
  assume "\<exists>n r. json_value n s = Some (v, r) \<and> json_ws r = []"
  then obtain n r where *: "json_value n s = Some (v, r)" and ws: "json_ws r = []" by blast
  from json_fuel_enough(1) [OF *] have "json_value (2 * length s + 2) s = Some (v, r)" by simp
  then show "JSON_parse s = Some v" unfolding JSON_parse_def by (simp add: ws)
qed

subsection \<open>Reading back what \<open>JSON.stringify\<close> wrote\<close>

text \<open>
  \<open>json_text\<close> is \<open>JSON.stringify\<close> with and without an indentation argument: \<open>lay i\<close> is the white
  space it writes before a member at nesting depth \<open>i\<close>, and \<open>col\<close> is the colon of a member
  with the blank that follows it. \<open>stringify\<close> is the compact instance and \<open>stringify2\<close> is
  \<open>JSON.stringify(v, null, 2)\<close>.

  \<open>num_ok ns q\<close>: the text of the number \<open>q\<close> reads back as \<open>q\<close> in front of whatever may follow a
  number in JSON text. \<open>json_ok\<close>: every number in the value has such a text, and every object has
  distinct members none of which is named by an array index.
\<close>

definition json_stop :: "string \<Rightarrow> bool" where
  "json_stop r \<longleftrightarrow> r = [] \<or> hd r \<in> {CHR 0x2C, CHR 0x5D, CHR 0x7D, CHR 0x09, CHR 0x0A, CHR 0x0D, CHR 0x20}"

definition num_ok :: "(rat \<Rightarrow> string) \<Rightarrow> rat \<Rightarrow> bool" where
  "num_ok ns q \<longleftrightarrow>
     ns q \<noteq> [] \<and> (hd (ns q) = CHR 0x2D \<or> is_digit (hd (ns q))) \<and>
     (\<forall>r. json_stop r \<longrightarrow> json_number (ns q @ r) = Some (q, r))"

fun json_ok :: "(rat \<Rightarrow> string) \<Rightarrow> json \<Rightarrow> bool" where
  "json_ok ns (JNum q) \<longleftrightarrow> num_ok ns q"
| "json_ok ns (JArr vs) \<longleftrightarrow> (\<forall>v \<in> set vs. json_ok ns v)"
| "json_ok ns (JObj kvs) \<longleftrightarrow>
     distinct (map fst kvs) \<and> (\<forall>kv \<in> set kvs. \<not> is_index (fst kv) \<and> json_ok ns (snd kv))"
| "json_ok ns _ \<longleftrightarrow> True"

lemma utf8_encode_byte: "n < 128 \<Longrightarrow> utf8_encode n = [char_of n]"
  by (simp add: utf8_encode_def)

lemma json_char_escape: "json_char (json_escape c @ r) = Some ([c], r)"
proof -
  let ?n = "of_char c :: nat"
  consider "?n \<in> {34, 92, 8, 12, 10, 13, 9}" | "?n \<notin> {34, 92, 8, 12, 10, 13, 9}" "?n < 32"
    | "?n \<notin> {34, 92}" "32 \<le> ?n" by force
  then show ?thesis
  proof cases
    case 1
    then have "c \<in> {CHR 0x22, CHR 0x5C, CHR 0x08, CHR 0x0C, CHR 0x0A, CHR 0x0D, CHR 0x09}"
      by (simp only: char_eq_of_char insert_iff empty_iff) simp
    then show ?thesis
      by (elim insertE emptyE) (simp_all add: json_escape_def json_simple_escape_def)
  next
    case 2
    then have "json_escape c =
        [CHR 0x5C, CHR 0x75, CHR 0x30, CHR 0x30, hex_digit (?n div 16), hex_digit (?n mod 16)]"
      by (simp add: json_escape_def)
    moreover have "?n div 16 < 16" "?n mod 16 < 16" "?n < 128" using 2 by auto
    ultimately show ?thesis using 2
      by (simp add: hex_value_digit hex_value_zero json_unicode_def utf8_encode_byte)
  next
    case 3
    then have "c \<noteq> CHR 0x5C" "c \<noteq> CHR 0x22" by auto
    with 3 show ?thesis by (auto simp: json_escape_def byte_nat_def)
  qed
qed

lemma json_escape_nonempty: "json_escape c \<noteq> []"
  by (simp add: json_escape_def)

lemma json_string_quote:
  "length s \<le> n \<Longrightarrow> json_string n (concat (map json_escape s) @ CHR 0x22 # r) = Some (s, r)"
proof (induction s arbitrary: n)
  case Nil
  then show ?case by (cases n) simp_all
next
  case (Cons c s)
  obtain d t where t: "json_escape c @ concat (map json_escape s) @ CHR 0x22 # r = d # t"
    using json_escape_nonempty [of c] by (cases "json_escape c") simp_all
  then have "d \<noteq> CHR 0x22" using json_escape_not_quote by metis
  moreover have "json_char (d # t) = Some ([c], concat (map json_escape s) @ CHR 0x22 # r)"
    using json_char_escape t by metis
  moreover obtain k where "n = Suc k" "length s \<le> k" using Cons.prems by (cases n) auto
  ultimately show ?case using Cons.IH [of k] t by (simp del: json_char.simps)
qed

lemma length_escapes: "length s \<le> length (concat (map json_escape s))"
proof (induction s)
  case (Cons c s)
  then show ?case using json_escape_nonempty [of c] by (cases "json_escape c") simp_all
qed simp

lemma json_string_quoted:
  "json_quote s @ r = CHR 0x22 # (concat (map json_escape s) @ CHR 0x22 # r)"
  "json_string (length (concat (map json_escape s) @ CHR 0x22 # r)) (concat (map json_escape s) @ CHR 0x22 # r) = Some (s, r)"
  using length_escapes [of s] by (simp_all add: json_quote_def json_string_quote)

lemma obj_set_fresh: "\<not> is_index k \<Longrightarrow> k \<notin> fst ` set m \<Longrightarrow> obj_set k v m = m @ [(k, v)]"
  by (induction m) auto

lemma obj_of_distinct:
  assumes "distinct (map fst kvs)" "\<forall>kv \<in> set kvs. \<not> is_index (fst kv)"
  shows "obj_of kvs = kvs"
proof -
  have "fold (\<lambda>(k, v). obj_set k v) kvs m = m @ kvs" if "fst ` set m \<inter> fst ` set kvs = {}" for m
    using assms that
  proof (induction kvs arbitrary: m)
    case (Cons p kvs)
    obtain k v where p: "p = (k, v)" by fastforce
    with Cons.prems have "obj_set k v m = m @ [(k, v)]" by (intro obj_set_fresh) auto
    moreover have "fst ` set (m @ [(k, v)]) \<inter> fst ` set kvs = {}" using Cons.prems p by auto
    ultimately show ?case using Cons.IH [of "m @ [(k, v)]"] Cons.prems p by simp
  qed simp
  from this [of "[]"] show ?thesis by (simp add: obj_of_def)
qed

fun json_text :: "(rat \<Rightarrow> string) \<Rightarrow> (nat \<Rightarrow> string) \<Rightarrow> string \<Rightarrow> nat \<Rightarrow> json \<Rightarrow> string" where
  "json_text ns lay col i JNull = ''null''"
| "json_text ns lay col i (JBool b) = (if b then ''true'' else ''false'')"
| "json_text ns lay col i (JNum q) = ns q"
| "json_text ns lay col i (JStr s) = json_quote s"
| "json_text ns lay col i (JArr vs) =
     (if vs = [] then ''[]''
      else ''['' @ lay (Suc i) @ join_with ('','' @ lay (Suc i)) (map (json_text ns lay col (Suc i)) vs) @ lay i @ '']'')"
| "json_text ns lay col i (JObj kvs) =
     (if kvs = [] then ''{}''
      else ''{'' @ lay (Suc i) @
           join_with ('','' @ lay (Suc i)) (map (\<lambda>(k, v). json_quote k @ col @ json_text ns lay col (Suc i) v) kvs) @
           lay i @ ''}'')"

definition stringify2 :: "(rat \<Rightarrow> string) \<Rightarrow> json \<Rightarrow> string" where
  "stringify2 ns v = json_text ns (\<lambda>i. CHR 0x0A # replicate (2 * i) (CHR 0x20)) '': '' 0 v"

lemma stringify_json_text: "stringify ns v = json_text ns (\<lambda>_. []) '':'' i v"
proof (induction v arbitrary: i)
  case (JArr vs)
  then have eq: "map (stringify ns) vs = map (json_text ns (\<lambda>_. []) '':'' (Suc i)) vs" by simp
  show ?case by (simp only: stringify.simps json_text.simps eq) simp
next
  case (JObj kvs)
  then have eq: "map (\<lambda>(k, v). json_quote k @ '':'' @ stringify ns v) kvs =
      map (\<lambda>(k, v). json_quote k @ '':'' @ json_text ns (\<lambda>_. []) '':'' (Suc i) v) kvs" by auto
  show ?case by (simp only: stringify.simps json_text.simps eq) simp
qed simp_all

definition json_blank :: "string \<Rightarrow> bool" where
  "json_blank w \<longleftrightarrow> list_all (\<lambda>c. byte_nat c \<in> {9, 10, 13, 32}) w"

lemma json_ws_blank: "json_blank w \<Longrightarrow> json_ws (w @ r) = json_ws r"
  by (simp add: json_ws_def json_blank_def list_all_iff dropWhile_append2)

lemma json_ws_nonblank: "byte_nat c \<notin> {9, 10, 13, 32} \<Longrightarrow> json_ws (c # r) = c # r"
  by (simp add: json_ws_def)

lemma json_value_blank: "json_blank w \<Longrightarrow> json_value n (w @ s) = json_value n s"
  by (cases n) (simp_all add: json_value.simps json_ws_blank)

lemma json_stop_blank: "json_blank w \<Longrightarrow> json_stop (w @ c # r) \<longleftrightarrow> w \<noteq> [] \<or> json_stop (c # r)"
proof (cases w)
  case (Cons d w')
  assume "json_blank w"
  with Cons have "byte_nat d \<in> {9, 10, 13, 32}" by (simp add: json_blank_def)
  then have "d \<in> {CHR 0x09, CHR 0x0A, CHR 0x0D, CHR 0x20}"
    by (simp only: char_eq_of_char insert_iff empty_iff byte_nat_def) simp
  with Cons show ?thesis by (auto simp: json_stop_def)
qed simp

lemma json_text_head:
  assumes "json_ok ns v"
  shows "json_text ns lay col i v \<noteq> []" "json_ws (json_text ns lay col i v @ r) = json_text ns lay col i v @ r"
    "hd (json_text ns lay col i v) \<notin> {CHR 0x5D, CHR 0x7D}"
proof -
  let ?t = "json_text ns lay col i v"
  have "?t \<noteq> [] \<and> byte_nat (hd ?t) \<notin> {9, 10, 13, 32, 0x5D, 0x7D}"
  proof (cases v)
    case (JNum q)
    with assms have "ns q \<noteq> []" "hd (ns q) = CHR 0x2D \<or> is_digit (hd (ns q))" by (simp_all add: num_ok_def)
    with JNum show ?thesis by (auto simp: is_digit_def byte_nat_def)
  qed (auto simp: json_quote_def byte_nat_def)
  then show "?t \<noteq> []" "json_ws (?t @ r) = ?t @ r" "hd ?t \<notin> {CHR 0x5D, CHR 0x7D}"
    by (cases ?t; auto simp: json_ws_def byte_nat_def)+
qed

lemma json_literal_number:
  assumes "num_ok ns q" "json_stop r"
  shows "json_literal (ns q @ r) = Some (JNum q, r)"
proof -
  from assms have "ns q \<noteq> []" "hd (ns q) = CHR 0x2D \<or> is_digit (hd (ns q))" "json_number (ns q @ r) = Some (q, r)"
    unfolding num_ok_def by blast+
  moreover from this have "\<not> startsWith (ns q @ r) ''true''" "\<not> startsWith (ns q @ r) ''false''"
    "\<not> startsWith (ns q @ r) ''null''"
    by (cases "ns q"; auto simp: startsWith_def is_digit_def byte_nat_def)+
  ultimately show ?thesis by (simp add: json_literal_def)
qed

lemma json_elems_text:
  assumes "vs \<noteq> []" "json_blank w" "json_blank w'"
    and "\<And>v n r. v \<in> set vs \<Longrightarrow> json_stop r \<Longrightarrow> 2 * length (f v) \<le> n \<Longrightarrow> json_value n (f v @ r) = Some (v, r)"
    and "2 * length (join_with ('','' @ w) (map f vs)) + 1 \<le> n"
  shows "json_elems n (join_with ('','' @ w) (map f vs) @ w' @ '']'' @ r) = Some (vs, r)"
  using assms(1,4,5)
proof (induction vs arbitrary: n)
  case (Cons v vs)
  then obtain k where n: "n = Suc k" by (cases n) auto
  show ?case
  proof (cases vs)
    case Nil
    have "json_stop (w' @ '']'' @ r)" using json_stop_blank [OF assms(3)] by (simp add: json_stop_def)
    with Cons.prems(2) [of v "w' @ '']'' @ r" k] Cons.prems(3) n Nil show ?thesis
      by (simp add: json_elems.simps(2) json_ws_blank [OF assms(3)] json_ws_nonblank byte_nat_def)
  next
    case (Cons x xs)
    let ?rest = "join_with ('','' @ w) (map f vs) @ w' @ '']'' @ r"
    have "json_value k (f v @ '','' @ w @ ?rest) = Some (v, '','' @ w @ ?rest)"
      using Cons.prems(2) [of v "'','' @ w @ ?rest" k] Cons.prems(3) n Cons by (simp add: json_stop_def)
    moreover have "json_elems k ?rest = Some (vs, r)"
      using Cons.IH [of k] Cons.prems(2,3) n Cons by simp
    moreover have "json_elems k (w @ ?rest) = json_elems k ?rest"
      by (cases k) (simp_all only: json_elems.simps json_value_blank [OF assms(2)])
    ultimately show ?thesis using n Cons
      by (simp add: json_elems.simps(2) json_ws_nonblank byte_nat_def)
  qed
qed simp

lemma json_membs_text:
  assumes "kvs \<noteq> []" "json_blank w" "json_blank w'" "json_blank u"
    and "\<And>k v n r. (k, v) \<in> set kvs \<Longrightarrow> json_stop r \<Longrightarrow> 2 * length (f v) \<le> n \<Longrightarrow> json_value n (f v @ r) = Some (v, r)"
    and "2 * length (join_with ('','' @ w) (map (\<lambda>(k, v). json_quote k @ ('':'' @ u) @ f v) kvs)) + 1 \<le> n"
  shows "json_membs n (join_with ('','' @ w) (map (\<lambda>(k, v). json_quote k @ ('':'' @ u) @ f v) kvs) @ w' @ ''}'' @ r) =
         Some (kvs, r)"
  using assms(1,5,6)
proof (induction kvs arbitrary: n)
  case (Cons p kvs)
  obtain k v where p: "p = (k, v)" by fastforce
  from Cons obtain m where n: "n = Suc m" by (cases n) auto
  have step: "json_membs (Suc m) (json_quote k @ ('':'' @ u) @ t) =
      (case json_value m t of
         None \<Rightarrow> None
       | Some (v, r3) \<Rightarrow>
           (case json_ws r3 of
              [] \<Rightarrow> None
            | d # r4 \<Rightarrow>
                if d = CHR 0x2C then map_option (\<lambda>(m, r5). ((k, v) # m, r5)) (json_membs m r4)
                else if d = CHR 0x7D then Some ([(k, v)], r4)
                else None))" for t
    using json_string_quoted(2) [of k "('':'' @ u) @ t"] json_value_blank [OF assms(4), of m t]
    by (simp only: json_membs.simps(2) json_string_quoted(1)) (simp add: json_ws_nonblank byte_nat_def split: option.splits)
  show ?case
  proof (cases kvs)
    case Nil
    have "json_stop (w' @ ''}'' @ r)" using json_stop_blank [OF assms(3)] by (simp add: json_stop_def)
    with Cons.prems(2) [of k v "w' @ ''}'' @ r" m] Cons.prems(3) n p step [of "f v @ w' @ ''}'' @ r"] Nil show ?thesis
      by (simp add: json_ws_blank [OF assms(3)] json_ws_nonblank byte_nat_def)
  next
    case (Cons x xs)
    let ?rest = "join_with ('','' @ w) (map (\<lambda>(k, v). json_quote k @ ('':'' @ u) @ f v) kvs) @ w' @ ''}'' @ r"
    have "json_value m (f v @ '','' @ w @ ?rest) = Some (v, '','' @ w @ ?rest)"
      using Cons.prems(2) [of k v "'','' @ w @ ?rest" m] Cons.prems(3) n Cons p by (simp add: json_stop_def)
    moreover have "json_membs m ?rest = Some (kvs, r)"
    proof (rule Cons.IH)
      show "json_value n (f v @ r) = Some (v, r)"
        if "(k, v) \<in> set kvs" "json_stop r" "2 * length (f v) \<le> n" for k v n r
        using Cons.prems(2) [of k v r n] that by simp
    qed (use Cons.prems(3) n Cons p in simp_all)
    moreover have "json_membs m (w @ ?rest) = json_membs m ?rest"
      by (cases m) (simp_all only: json_membs.simps json_ws_blank [OF assms(2)])
    ultimately show ?thesis using n Cons p step [of "f v @ '','' @ w @ ?rest"]
      by (simp add: json_ws_nonblank byte_nat_def)
  qed
qed simp

lemma join_with_head: "xs \<noteq> [] \<Longrightarrow> hd xs \<noteq> [] \<Longrightarrow> \<exists>t. join_with sep xs = hd xs @ t"
  by (cases "(sep, xs)" rule: join_with.cases) auto

lemma json_value_text:
  assumes lay: "\<And>i. json_blank (lay i)" and u: "json_blank u"
  shows "json_ok ns v \<Longrightarrow> json_stop r \<Longrightarrow> 2 * length (json_text ns lay ('':'' @ u) i v) \<le> n \<Longrightarrow>
    json_value n (json_text ns lay ('':'' @ u) i v @ r) = Some (v, r)"
proof (induction v arbitrary: i n r)
  case JNull
  then show ?case by (cases n) (simp_all add: json_value.simps json_ws_nonblank byte_nat_def json_literal_def startsWith_def)
next
  case (JBool b)
  then show ?case
    by (cases b; cases n) (simp_all add: json_value.simps json_ws_nonblank byte_nat_def json_literal_def startsWith_def)
next
  case (JNum q)
  have ok: "json_ok ns (JNum q)" using JNum.prems by simp
  note head = json_text_head [OF ok, where lay = lay and col = "'':'' @ u" and i = i]
  obtain c t where ct: "ns q @ r = c # t" using head(1) by (cases "ns q") simp_all
  moreover have "c = CHR 0x2D \<or> is_digit c" using JNum.prems ct by (cases "ns q") (auto simp: num_ok_def)
  moreover have "json_ws (ns q @ r) = ns q @ r" using head(2) by simp
  moreover obtain k where "n = Suc k" using JNum.prems head(1) by (cases n) auto
  ultimately show ?case using json_literal_number [of ns q r] JNum.prems
    by (auto simp: json_value.simps(2) is_digit_def byte_nat_def)
next
  case (JStr s)
  then obtain k where "n = Suc k" by (cases n) (auto simp: json_quote_def)
  then show ?case
    using json_string_quoted(2) [of s r]
    by (simp only: json_text.simps json_string_quoted(1) json_value.simps(2)) (simp add: json_ws_nonblank byte_nat_def)
next
  case (JArr vs)
  then obtain k where n: "n = Suc k" by (cases n) (auto split: if_splits)
  show ?case
  proof (cases "vs = []")
    case True
    with n show ?thesis by (simp add: json_value.simps(2) json_ws_nonblank byte_nat_def)
  next
    case False
    let ?f = "json_text ns lay ('':'' @ u) (Suc i)"
    let ?ts = "join_with ('','' @ lay (Suc i)) (map ?f vs)"
    have ok: "json_ok ns (hd vs)" using JArr.prems False by simp
    note head = json_text_head [OF ok, where lay = lay and col = "'':'' @ u" and i = "Suc i"]
    obtain t where t: "?ts = ?f (hd vs) @ t"
      using join_with_head [of "map ?f vs" "'','' @ lay (Suc i)"] False head(1) by (auto simp: hd_map)
    from t head obtain c x where "json_ws (lay (Suc i) @ ?ts @ lay i @ '']'' @ r) = c # x" "c \<noteq> CHR 0x5D"
      by (cases "?f (hd vs)") (auto simp: json_ws_blank [OF lay])
    moreover have "json_elems k (?ts @ lay i @ '']'' @ r) = Some (vs, r)"
      by (rule json_elems_text [OF False lay lay]) (use JArr n False in auto)
    moreover have "json_elems k (lay (Suc i) @ s) = json_elems k s" for s
      by (cases k) (simp_all only: json_elems.simps json_value_blank [OF lay])
    ultimately show ?thesis using n False by (simp add: json_value.simps(2) json_ws_nonblank byte_nat_def)
  qed
next
  case (JObj kvs)
  then obtain k where n: "n = Suc k" by (cases n) (auto split: if_splits)
  show ?case
  proof (cases "kvs = []")
    case True
    with n show ?thesis by (simp add: json_value.simps(2) json_ws_nonblank byte_nat_def)
  next
    case False
    let ?f = "json_text ns lay ('':'' @ u) (Suc i)"
    let ?ms = "map (\<lambda>(k, v). json_quote k @ ('':'' @ u) @ ?f v) kvs"
    let ?ts = "join_with ('','' @ lay (Suc i)) ?ms"
    obtain t where "?ts = CHR 0x22 # t"
      using join_with_head [of ?ms "'','' @ lay (Suc i)"] False
      by (cases kvs) (auto simp: json_quote_def split: prod.splits)
    then have "json_ws (lay (Suc i) @ ?ts @ lay i @ ''}'' @ r) = CHR 0x22 # t @ lay i @ ''}'' @ r"
      by (simp add: json_ws_blank [OF lay] json_ws_nonblank byte_nat_def)
    moreover have "json_membs k (?ts @ lay i @ ''}'' @ r) = Some (kvs, r)"
    proof (rule json_membs_text [OF False lay lay u])
      show "json_value n (?f v @ r) = Some (v, r)"
        if "(k, v) \<in> set kvs" "json_stop r" "2 * length (?f v) \<le> n" for k v n r
        using JObj.IH [of "(k, v)" v r "Suc i" n] JObj.prems(1) that by auto
    qed (use JObj.prems(3) n False in simp)
    moreover have "json_membs k (lay (Suc i) @ s) = json_membs k s" for s
      by (cases k) (simp_all only: json_membs.simps json_ws_blank [OF lay])
    moreover have "obj_of kvs = kvs" using JObj.prems by (intro obj_of_distinct) auto
    ultimately show ?thesis using n False by (simp add: json_value.simps(2) json_ws_nonblank byte_nat_def)
  qed
qed

lemma JSON_parse_text:
  assumes "\<And>i. json_blank (lay i)" "json_blank u" "json_ok ns v" "json_blank w"
  shows "JSON_parse (json_text ns lay ('':'' @ u) i v @ w) = Some v"
proof -
  have "json_stop w" using assms(4) json_stop_blank [of w "CHR 0x2C" "[]"]
    by (cases w) (auto simp: json_stop_def)
  moreover have "json_ws w = []" using assms(4) by (simp add: json_ws_def json_blank_def list_all_iff)
  ultimately show ?thesis
    using json_value_text [where lay = lay and u = u and r = w and i = i and v = v and ns = ns
        and n = "2 * length (json_text ns lay ('':'' @ u) i v)"] assms(1-3)
    by (intro JSON_parse_iff [THEN iffD2] exI conjI) auto
qed

lemma JSON_parse_stringify: "json_ok ns v \<Longrightarrow> JSON_parse (stringify ns v) = Some v"
  using JSON_parse_text [where lay = "\<lambda>_. []" and u = "[]" and w = "[]" and i = 0]
  by (simp add: stringify_json_text [of ns v 0] json_blank_def)

lemma JSON_parse_stringify2: "json_ok ns v \<Longrightarrow> json_blank w \<Longrightarrow> JSON_parse (stringify2 ns v @ w) = Some v"
  using JSON_parse_text [where lay = "\<lambda>i. CHR 0x0A # replicate (2 * i) (CHR 0x20)" and u = "'' ''" and w = w and i = 0 and ns = ns and v = v]
  by (simp add: stringify2_def json_blank_def byte_nat_def list_all_iff)

text \<open>Integers: the text \<open>Number.prototype.toString\<close> gives a whole number below \<open>10^21\<close>.\<close>

definition int_text :: "rat \<Rightarrow> string" where
  "int_text q = (if q < 0 then ''-'' @ nat_text (nat (- \<lfloor>q\<rfloor>)) else nat_text (nat \<lfloor>q\<rfloor>))"

lemma take_drop_digits:
  assumes "list_all is_digit ds" "json_stop r"
  shows "takeWhile is_digit (ds @ r) = ds" "dropWhile is_digit (ds @ r) = r"
proof -
  have "takeWhile is_digit r = []" "dropWhile is_digit r = r"
    using assms(2) by (cases r; auto simp: json_stop_def is_digit_def byte_nat_def)+
  with assms(1) show "takeWhile is_digit (ds @ r) = ds" "dropWhile is_digit (ds @ r) = r"
    by (simp_all add: list_all_iff)
qed

lemma num_rest_stop: "json_stop r \<Longrightarrow> num_frac r = Some ([], r) \<and> num_exp r = Some (0, r)"
  by (cases r) (auto simp: json_stop_def num_frac_def num_exp_def)

lemma num_sign_minus: "num_sign (CHR 0x2D # r) = (True, r)"
  by (simp add: num_sign_def)

lemma num_sign_nat: "num_sign (nat_text n @ r) = (False, nat_text n @ r)"
  using nat_text_digits [of n] by (cases "nat_text n") (auto simp: num_sign_def is_digit_def byte_nat_def)

lemma json_number_nat:
  assumes "json_stop r"
  shows "json_number (nat_text n @ r) = Some (of_nat n, r)"
    "json_number (''-'' @ nat_text n @ r) = Some (- of_nat n, r)"
  using take_drop_digits [OF nat_text_digits assms] num_rest_stop [OF assms] nat_text_no_zero [of n]
  by (auto simp: json_number_def num_sign_nat num_sign_minus rat_pow10_def digits_value_nat_text)

lemma num_ok_int: "num_ok int_text (of_int z)"
proof -
  have "hd (nat_text m) \<in> set (nat_text m)" for m by simp
  then have d: "is_digit (hd (nat_text m))" for m using nat_text_digits by (metis list_all_iff)
  show ?thesis
  proof (cases "z < 0")
    case True
    then have "int_text (of_int z) = ''-'' @ nat_text (nat (- z))" by (simp add: int_text_def)
    moreover have "- of_nat (nat (- z)) = (of_int z :: rat)" using True by simp
    ultimately show ?thesis using json_number_nat(2) [of _ "nat (- z)"] by (auto simp: num_ok_def)
  next
    case False
    then have "int_text (of_int z) = nat_text (nat z)" by (simp add: int_text_def)
    moreover have "of_nat (nat z) = (of_int z :: rat)" using False by simp
    ultimately show ?thesis using json_number_nat(1) [of _ "nat z"] d by (auto simp: num_ok_def)
  qed
qed

lemma num_ok_nat: "num_ok int_text (of_nat n)"
  using num_ok_int [of "int n"] by simp

end
