(* ===== verification/Executors.thy ===== *)
theory Executors
  imports JsonParse
begin

section \<open>Task and LLM executors\<close>

text \<open>
  The executors of the four workers: \<open>apps/worker-desktop/src/executors\<close>,
  \<open>mobile/seeker-solana/src/services/TaskExecutor.ts\<close>, \<open>packages/cli/src/lib/worker-runtime.ts\<close>
  and \<open>apps/seeker-simulator/src/index.ts\<close>, each translated from its own file.

  A job's payload is whatever JSON value the client sent (the coordinator only checks that it is
  truthy), so \<open>executeTask\<close> takes two JSON values; \<open>Inl\<close> is the message of the \<open>TypeError\<close> that
  calling a string method on something else throws. \<open>fetch\<close> is an argument: it maps a URL and a
  request body to a network error or a response.
\<close>

type_synonym executor = "(rat \<Rightarrow> string) \<Rightarrow> json \<Rightarrow> json \<Rightarrow> string + json"

datatype http_result = NetError string | HttpResponse bool nat string \<comment> \<open>ok, status, body text\<close>

type_synonym http_fetch = "string \<Rightarrow> json \<Rightarrow> http_result"

subsection \<open>Language helpers\<close>

text \<open>\<open>String(v)\<close> and the interpolation of a value in a template literal.\<close>

fun js_String :: "(rat \<Rightarrow> string) \<Rightarrow> json \<Rightarrow> string" where
  "js_String ns JNull = ''null''"
| "js_String ns (JBool b) = (if b then ''true'' else ''false'')"
| "js_String ns (JNum q) = ns q"
| "js_String ns (JStr s) = s"
| "js_String ns (JArr vs) =
     join_with '','' (map (\<lambda>v. case v of JNull \<Rightarrow> [] | _ \<Rightarrow> js_String ns v) vs)"
| "js_String ns (JObj _) = ''[object Object]''"

definition null_access :: "string \<Rightarrow> string" where
  "null_access k = ''Cannot read properties of null (reading '' @ [CHR 0x27] @ k @ [CHR 0x27] @ '')''"

definition on_string :: "string \<Rightarrow> (string \<Rightarrow> json) \<Rightarrow> json \<Rightarrow> string + json" where
  "on_string meth f input =
     (case input of
        JStr s \<Rightarrow> Inr (f s)
      | _ \<Rightarrow> Inl (''input.'' @ meth @ '' is not a function''))"

text \<open>\<open>${prompt.length}\<close>\<close>

definition length_text :: "(rat \<Rightarrow> string) \<Rightarrow> json \<Rightarrow> string" where
  "length_text ns v =
     (case v of
        JStr s \<Rightarrow> nat_text (js_length s)
      | JArr vs \<Rightarrow> nat_text (length vs)
      | JObj kvs \<Rightarrow> (case map_of kvs ''length'' of Some l \<Rightarrow> js_String ns l | None \<Rightarrow> ''undefined'')
      | _ \<Rightarrow> ''undefined'')"

text \<open>
  \<open>input.match(/\{[^{}]*(?:\{[^{}]*\}[^{}]*)*\}/g)\<close>. After an opening brace the next brace decides
  what the pattern can do, so no match is found by backtracking: \<open>match_body\<close> is the match after
  the opening brace and what follows it, and a failed attempt resumes one character later.
\<close>

definition non_brace :: "char \<Rightarrow> bool" where
  "non_brace c \<longleftrightarrow> c \<noteq> CHR 0x7B \<and> c \<noteq> CHR 0x7D"

lemma dropWhile_Cons_length: "dropWhile P s = c # r \<Longrightarrow> length r < length s"
  using length_dropWhile_le [of P s] by simp

function match_body :: "string \<Rightarrow> (string \<times> string) option" where
  "match_body s =
     (case dropWhile non_brace s of
        [] \<Rightarrow> None
      | b # r \<Rightarrow>
          if b = CHR 0x7D then Some (takeWhile non_brace s @ [b], r)
          else (case dropWhile non_brace r of
                  [] \<Rightarrow> None
                | b' # r' \<Rightarrow>
                    if b' = CHR 0x7D
                    then map_option (\<lambda>(m, q). (takeWhile non_brace s @ [b] @ takeWhile non_brace r @ [b'] @ m, q))
                           (match_body r')
                    else None))"
  by pat_completeness auto

termination
  by (relation "measure length") (auto dest!: dropWhile_Cons_length)

declare match_body.simps [simp del]

lemma match_body_length: "match_body s = Some (m, q) \<Longrightarrow> length q < length s"
proof (induction s arbitrary: m rule: match_body.induct)
  case (1 s)
  from 1(2) obtain b r where d: "dropWhile non_brace s = b # r"
    by (subst (asm) match_body.simps) (auto split: list.splits)
  show ?case
  proof (cases "b = CHR 0x7D")
    case True
    with 1(2) d dropWhile_Cons_length [OF d] show ?thesis by (subst (asm) match_body.simps) simp
  next
    case False
    with 1(2) d obtain r' m' where d': "dropWhile non_brace r = CHR 0x7D # r'" and m': "match_body r' = Some (m', q)"
      by (subst (asm) match_body.simps) (auto split: list.splits if_splits)
    with 1(1) [OF d False d' refl m'] dropWhile_Cons_length [OF d] dropWhile_Cons_length [OF d'] show ?thesis by simp
  qed
qed

function json_matches :: "string \<Rightarrow> string list" where
  "json_matches [] = []"
| "json_matches (c # r) =
     (if c = CHR 0x7B then
        (case match_body r of
           Some (m, q) \<Rightarrow> (c # m) # json_matches q
         | None \<Rightarrow> json_matches r)
      else json_matches r)"
  by pat_completeness auto
termination by (relation "measure length") (auto dest: match_body_length)

declare json_matches.simps [simp del]

text \<open>\<open>for (const w of words) if (lower.includes(w)) score += step\<close>\<close>

definition word_score :: "string \<Rightarrow> int \<Rightarrow> string list \<Rightarrow> int \<Rightarrow> int" where
  "word_score lower step words score = foldl (\<lambda>a w. if str_includes lower w then a + step else a) score words"

subsection \<open>Desktop worker: \<open>taskExecutor.ts\<close>\<close>

definition positiveWords :: "string list" where
  "positiveWords = [''good'', ''great'', ''excellent'', ''amazing'', ''love'', ''happy'', ''best'', ''wonderful'', ''fantastic'']"

definition negativeWords :: "string list" where
  "negativeWords = [''bad'', ''terrible'', ''awful'', ''hate'', ''worst'', ''horrible'', ''poor'', ''disappointing'', ''sad'']"

definition summarize :: "string \<Rightarrow> json" where
  "summarize input =
     (let wrds = js_split_ws (js_trim input);
          truncated = (if 200 < js_length input then js_slice0 200 input @ ''...'' else input) in
      JObj [(''summary'', JStr truncated), (''word_count'', JNum (of_nat (length wrds)))])"

definition classify :: "string \<Rightarrow> json" where
  "classify input =
     (let lower = js_lower input;
          score = word_score lower (- 1) negativeWords (word_score lower 1 positiveWords 0);
          sentiment = (if 0 < score then ''positive'' else if score < 0 then ''negative'' else ''neutral'');
          confidence = min 1 (of_int \<bar>score\<bar> * (2 / 10) + 3 / 10) in
      JObj [(''sentiment'', JStr sentiment), (''confidence'', JNum confidence)])"

definition extractJson :: "string \<Rightarrow> json" where
  "extractJson input =
     (let matches = json_matches input; parsed = List.map_filter JSON_parse matches in
      JObj [(''extracted'', JArr parsed), (''count'', JNum (of_nat (length parsed)))])"

definition executeTask :: executor where
  "executeTask ns taskType input =
     (if taskType = JStr ''summarize'' then on_string ''trim'' summarize input
      else if taskType = JStr ''classify'' then on_string ''toLowerCase'' classify input
      else if taskType = JStr ''extract_json'' then on_string ''match'' extractJson input
      else Inr (JObj [(''error'', JStr (''Unknown task_type: '' @ js_String ns taskType))]))"

subsection \<open>Mobile worker: \<open>TaskExecutor.ts\<close>\<close>

definition mobile_summarize :: "string \<Rightarrow> json" where
  "mobile_summarize input =
     (let wrds = js_split_ws (js_trim input);
          truncated = (if 200 < js_length input then js_slice0 200 input @ ''...'' else input) in
      JObj [(''summary'', JStr truncated), (''word_count'', JNum (of_nat (length wrds)))])"

definition mobile_classify :: "string \<Rightarrow> json" where
  "mobile_classify input =
     (let lower = js_lower input;
          pos = [''good'', ''great'', ''excellent'', ''amazing'', ''love'', ''happy'', ''best'', ''wonderful'', ''fantastic''];
          neg = [''bad'', ''terrible'', ''awful'', ''hate'', ''worst'', ''horrible'', ''poor'', ''disappointing'', ''sad''];
          score = word_score lower (- 1) neg (word_score lower 1 pos 0);
          sentiment = (if 0 < score then ''positive'' else if score < 0 then ''negative'' else ''neutral'');
          confidence = min 1 (of_int \<bar>score\<bar> * (2 / 10) + 3 / 10) in
      JObj [(''sentiment'', JStr sentiment), (''confidence'', JNum confidence)])"

definition mobile_extractJson :: "string \<Rightarrow> json" where
  "mobile_extractJson input =
     (let matches = json_matches input; parsed = List.map_filter JSON_parse matches in
      JObj [(''extracted'', JArr parsed), (''count'', JNum (of_nat (length parsed)))])"

definition mobile_executeTask :: executor where
  "mobile_executeTask ns taskType input =
     (if taskType = JStr ''summarize'' then on_string ''trim'' mobile_summarize input
      else if taskType = JStr ''classify'' then on_string ''toLowerCase'' mobile_classify input
      else if taskType = JStr ''extract_json'' then on_string ''match'' mobile_extractJson input
      else Inr (JObj [(''error'', JStr (''Unknown task_type: '' @ js_String ns taskType))]))"

subsection \<open>Command line worker: \<open>executeTask\<close> of \<open>worker-runtime.ts\<close>\<close>

definition cli_summarize :: "string \<Rightarrow> json" where
  "cli_summarize input =
     (let wrds = filter (\<lambda>w. w \<noteq> []) (js_split_ws (js_trim input));
          summary = (if 200 < js_length input then js_slice0 200 input @ ''...'' else input) in
      JObj [(''summary'', JStr summary), (''word_count'', JNum (of_nat (length wrds)))])"

definition cli_classify :: "string \<Rightarrow> json" where
  "cli_classify input =
     (let lower = js_lower input;
          pos = [''good'', ''great'', ''excellent'', ''amazing'', ''love'', ''happy'', ''best''];
          neg = [''bad'', ''terrible'', ''awful'', ''hate'', ''worst'', ''horrible'', ''poor''];
          score = word_score lower (- 1) neg (word_score lower 1 pos 0);
          sentiment = (if 0 < score then ''positive'' else if score < 0 then ''negative'' else ''neutral'');
          confidence = min 1 (of_int \<bar>score\<bar> * (2 / 10) + 3 / 10) in
      JObj [(''sentiment'', JStr sentiment), (''confidence'', JNum confidence)])"

definition cli_extract :: "string \<Rightarrow> json" where
  "cli_extract input =
     (let matches = json_matches input; extracted = List.map_filter JSON_parse matches in
      JObj [(''extracted'', JArr extracted), (''count'', JNum (of_nat (length extracted)))])"

definition cli_executeTask :: executor where
  "cli_executeTask ns taskType input =
     (if taskType = JStr ''summarize'' then on_string ''trim'' cli_summarize input
      else if taskType = JStr ''classify'' then on_string ''toLowerCase'' cli_classify input
      else if taskType = JStr ''extract_json'' then on_string ''match'' cli_extract input
      else Inr (JObj [(''error'', JStr (''Unknown task_type: '' @ js_String ns taskType))]))"

subsection \<open>Simulated Seeker: \<open>executeTask\<close> of \<open>seeker-simulator\<close>\<close>

definition sim_classify :: "string \<Rightarrow> json" where
  "sim_classify input =
     (let lower = js_lower input;
          pos = [''good'', ''great'', ''excellent'', ''amazing'', ''love'', ''happy''];
          neg = [''bad'', ''terrible'', ''awful'', ''hate'', ''worst'', ''horrible''];
          score = word_score lower (- 1) neg (word_score lower 1 pos 0);
          sentiment = (if 0 < score then ''positive'' else if score < 0 then ''negative'' else ''neutral'') in
      JObj [(''sentiment'', JStr sentiment), (''confidence'', JNum (min 1 (of_int \<bar>score\<bar> * (2 / 10) + 3 / 10)))])"

definition sim_summarize :: "string \<Rightarrow> json" where
  "sim_summarize input =
     (let wrds = js_split_ws (js_trim input);
          truncated = (if 200 < js_length input then js_slice0 200 input @ ''...'' else input) in
      JObj [(''summary'', JStr truncated), (''word_count'', JNum (of_nat (length wrds)))])"

definition sim_extract :: "string \<Rightarrow> json" where
  "sim_extract input =
     (let matches = json_matches input; parsed = List.map_filter JSON_parse matches in
      JObj [(''extracted'', JArr parsed), (''count'', JNum (of_nat (length parsed)))])"

definition sim_executeTask :: executor where
  "sim_executeTask ns taskType input =
     (if taskType = JStr ''summarize'' then on_string ''trim'' sim_summarize input
      else if taskType = JStr ''classify'' then on_string ''toLowerCase'' sim_classify input
      else if taskType = JStr ''extract_json'' then on_string ''match'' sim_extract input
      else Inr (JObj [(''error'', JStr (''Unknown task_type: '' @ js_String ns taskType))]))"

subsection \<open>LLM runners\<close>

definition stubInfer :: "(rat \<Rightarrow> string) \<Rightarrow> json \<Rightarrow> string \<Rightarrow> json" where
  "stubInfer ns prompt jobId =
     JObj [(''text'', JStr (''[STUB] Received prompt ('' @ length_text ns prompt @ '' chars) for job '' @ jobId @
              ''. In production, this would be processed by a local LLM via Ollama or a GPU worker.'')),
           (''model'', JStr ''stub-v1''),
           (''stub'', JBool True)]"

text \<open>An object literal with the members whose values are defined.\<close>

definition obj_defined :: "(string \<times> json option) list \<Rightarrow> json" where
  "obj_defined kvs = JObj (List.map_filter (\<lambda>(k, v). map_option (\<lambda>x. (k, x)) v) kvs)"

definition ollama_request :: "string \<Rightarrow> json \<Rightarrow> json option \<Rightarrow> json" where
  "ollama_request model prompt maxTokens =
     JObj [(''model'', JStr model), (''prompt'', prompt), (''stream'', JBool False),
           (''options'', JObj [(''num_predict'', case maxTokens of Some m \<Rightarrow> m | None \<Rightarrow> JNum 256)])]"

text \<open>What both \<open>ollamaInfer\<close> functions do with the response.\<close>

definition ollama_response :: "http_result \<Rightarrow> string + json" where
  "ollama_response res =
     (case res of
        NetError e \<Rightarrow> Inl e
      | HttpResponse isok status txt \<Rightarrow>
          if \<not> isok then Inl (''Ollama error: '' @ nat_text status @ '' '' @ txt)
          else (case JSON_parse txt of
                  None \<Rightarrow> Inl ''Unexpected token in JSON''
                | Some JNull \<Rightarrow> Inl ''Cannot read properties of null''
                | Some data \<Rightarrow>
                    Inr (obj_defined [(''text'', json_field ''response'' data), (''model'', json_field ''model'' data)])))"

definition ollamaInfer :: "http_fetch \<Rightarrow> string option \<Rightarrow> string option \<Rightarrow> json \<Rightarrow> json option \<Rightarrow> string + json" where
  "ollamaInfer fetch OLLAMA_BASE_URL OLLAMA_MODEL prompt maxTokens =
     (let baseUrl = (case OLLAMA_BASE_URL of Some u \<Rightarrow> u | None \<Rightarrow> ''http://localhost:11434'');
          model = (case OLLAMA_MODEL of Some m \<Rightarrow> m | None \<Rightarrow> ''llama3.2'') in
      ollama_response (fetch (baseUrl @ ''/api/generate'') (ollama_request model prompt maxTokens)))"

definition executeLLM ::
  "http_fetch \<Rightarrow> string option \<Rightarrow> string option \<Rightarrow> (rat \<Rightarrow> string) \<Rightarrow> json \<Rightarrow> string \<Rightarrow> json option \<Rightarrow> json" where
  "executeLLM fetch OLLAMA_BASE_URL OLLAMA_MODEL ns prompt jobId maxTokens =
     (if str_truthy OLLAMA_BASE_URL then
        (case ollamaInfer fetch OLLAMA_BASE_URL OLLAMA_MODEL prompt maxTokens of
           Inr data \<Rightarrow> data
         | Inl _ \<Rightarrow> stubInfer ns prompt jobId)
      else stubInfer ns prompt jobId)"

definition cli_ollamaInfer :: "http_fetch \<Rightarrow> string \<Rightarrow> json \<Rightarrow> json option \<Rightarrow> string + json" where
  "cli_ollamaInfer fetch ollamaUrl prompt maxTokens =
     ollama_response (fetch (ollamaUrl @ ''/api/generate'') (ollama_request ''llama3.2'' prompt maxTokens))"

definition cli_stubInfer :: "(rat \<Rightarrow> string) \<Rightarrow> json \<Rightarrow> string \<Rightarrow> json" where
  "cli_stubInfer ns prompt jobId =
     JObj [(''text'', JStr (''[STUB] Received prompt ('' @ length_text ns prompt @ '' chars) for job '' @ jobId @
              ''. In production, this would be processed by a local LLM via Ollama or a GPU worker.'')),
           (''model'', JStr ''stub-v1''),
           (''stub'', JBool True)]"

definition cli_executeLLM ::
  "http_fetch \<Rightarrow> string option \<Rightarrow> (rat \<Rightarrow> string) \<Rightarrow> json \<Rightarrow> string \<Rightarrow> json option \<Rightarrow> json" where
  "cli_executeLLM fetch ollamaUrl ns prompt jobId maxTokens =
     (case ollamaUrl of
        Some u \<Rightarrow>
          if u = [] then cli_stubInfer ns prompt jobId
          else (case cli_ollamaInfer fetch u prompt maxTokens of
                  Inr data \<Rightarrow> data
                | Inl _ \<Rightarrow> cli_stubInfer ns prompt jobId)
      | None \<Rightarrow> cli_stubInfer ns prompt jobId)"

subsection \<open>Words\<close>

text \<open>Splitting text into code points can be undone from any stretch of them.\<close>

definition chars_ok :: "string list \<Rightarrow> bool" where
  "chars_ok ps \<longleftrightarrow> list_all (\<lambda>p. p \<noteq> [] \<and> list_all is_cont (tl p)) ps \<and> list_all (\<lambda>p. \<not> is_cont (hd p)) (tl ps)"

lemma js_chars_heads: "list_all (\<lambda>p. \<not> is_cont (hd p)) (tl (js_chars s))"
proof (induction s rule: js_chars.induct)
  case (2 c cs)
  show ?case
  proof (cases "dropWhile is_cont cs")
    case (Cons d ds)
    then have "\<not> is_cont d" by (metis hd_dropWhile list.sel(1) list.simps(3))
    with 2 Cons show ?thesis by simp
  next
    case Nil
    show ?thesis by (simp only: js_chars.simps Nil list.sel list.pred_inject)
  qed
qed simp

lemma chars_ok_js_chars: "chars_ok (js_chars s)"
proof -
  have "list_all (\<lambda>p. p \<noteq> [] \<and> list_all is_cont (tl p)) (js_chars s)"
    by (induction s rule: js_chars.induct) (auto simp: list_all_iff dest: set_takeWhileD)
  with js_chars_heads show ?thesis by (simp add: chars_ok_def)
qed

lemma chars_ok_first: "chars_ok (p # ps) \<Longrightarrow> \<exists>c cs. p = c # cs \<and> (\<forall>x \<in> set cs. is_cont x)"
  by (cases p) (simp_all add: chars_ok_def list_all_iff)

lemma chars_ok_second: "chars_ok (p # q # ps) \<Longrightarrow> \<exists>c cs. q = c # cs \<and> \<not> is_cont c"
  by (cases q) (simp_all add: chars_ok_def list_all_iff)

lemma chars_ok_rest: "chars_ok (p # ps) \<Longrightarrow> chars_ok ps"
  by (cases ps) (simp_all add: chars_ok_def)

lemma cont_split:
  assumes "\<forall>x \<in> set cs. is_cont x" "xs = [] \<or> (\<exists>d ds. xs = d # ds \<and> \<not> is_cont d)"
  shows "takeWhile is_cont (cs @ xs) = cs" "dropWhile is_cont (cs @ xs) = xs"
proof -
  have "takeWhile is_cont xs = []" "dropWhile is_cont xs = xs" using assms(2) by auto
  with assms(1) takeWhile_append2 [of cs is_cont xs] dropWhile_append2 [of cs is_cont xs]
  show "takeWhile is_cont (cs @ xs) = cs" "dropWhile is_cont (cs @ xs) = xs" by simp_all
qed

lemma js_chars_concat: "chars_ok ps \<Longrightarrow> js_chars (concat ps) = ps"
proof (induction ps)
  case (Cons p ps)
  from chars_ok_first [OF Cons.prems] obtain c cs where p: "p = c # cs" "\<forall>x \<in> set cs. is_cont x" by blast
  have "concat ps = [] \<or> (\<exists>d ds. concat ps = d # ds \<and> \<not> is_cont d)"
  proof (cases ps)
    case (Cons q qs)
    with Cons.prems chars_ok_second obtain d ds where "q = d # ds" "\<not> is_cont d" by blast
    with Cons show ?thesis by simp
  qed simp
  from cont_split [OF p(2) this] Cons.IH [OF chars_ok_rest [OF Cons.prems]] p(1)
  show ?case by (simp only: concat.simps append_Cons js_chars.simps)
qed simp

lemma chars_ok_suffix: "chars_ok (xs @ ys) \<Longrightarrow> chars_ok ys"
  by (cases xs; cases ys) (auto simp: chars_ok_def)

lemma chars_ok_prefix: "chars_ok (xs @ ys) \<Longrightarrow> chars_ok xs"
  by (cases xs) (auto simp: chars_ok_def)

lemma chars_ok_trim: "chars_ok ps \<Longrightarrow> chars_ok (trim_chars ps)"
proof -
  assume "chars_ok ps"
  then have 1: "chars_ok (dropWhile is_space ps)" by (metis chars_ok_suffix takeWhile_dropWhile_id)
  let ?qs = "dropWhile is_space ps"
  have "?qs = rev (dropWhile is_space (rev ?qs)) @ rev (takeWhile is_space (rev ?qs))"
    by (metis rev_append rev_rev_ident takeWhile_dropWhile_id)
  with 1 show ?thesis unfolding trim_chars_def by (metis chars_ok_prefix)
qed

lemma js_chars_trim: "js_chars (js_trim s) = trim_chars (js_chars s)"
  by (simp add: js_trim_def js_chars_concat chars_ok_trim chars_ok_js_chars)

lemma last_dropWhile: "dropWhile P xs \<noteq> [] \<Longrightarrow> last (dropWhile P xs) = last xs"
  by (induction xs) auto

lemma trim_ends:
  assumes "trim_chars ps \<noteq> []"
  shows "\<not> is_space (hd (trim_chars ps))" "\<not> is_space (last (trim_chars ps))"
proof -
  let ?qs = "dropWhile is_space ps"
  have ne: "dropWhile is_space (rev ?qs) \<noteq> []" using assms unfolding trim_chars_def rev_is_Nil_conv .
  then have "\<not> is_space (hd (dropWhile is_space (rev ?qs)))" by (rule hd_dropWhile)
  then show "\<not> is_space (last (trim_chars ps))" unfolding trim_chars_def last_rev .
  have "?qs \<noteq> []"
  proof
    assume "?qs = []"
    then have "dropWhile is_space (rev ?qs) = []" by (simp only: rev.simps dropWhile.simps)
    with ne show False ..
  qed
  then have "\<not> is_space (hd ?qs)" by (rule hd_dropWhile)
  moreover have "hd (trim_chars ps) = last (rev ?qs)"
    unfolding trim_chars_def hd_rev by (rule last_dropWhile [OF ne])
  ultimately show "\<not> is_space (hd (trim_chars ps))" unfolding last_rev by simp
qed

lemma split_chars_nonempty:
  "ps \<noteq> [] \<Longrightarrow> \<not> is_space (hd ps) \<Longrightarrow> \<not> is_space (last ps) \<Longrightarrow> [] \<notin> set ps \<Longrightarrow> [] \<notin> set (split_chars ps)"
proof (induction ps rule: split_chars.induct)
  case (1 ps)
  have first: "concat (takeWhile (\<lambda>p. \<not> is_space p) ps) \<noteq> []"
    using 1(2,3,5) by (cases ps) auto
  show ?case
  proof (cases "dropWhile (\<lambda>p. \<not> is_space p) ps")
    case Nil
    with first show ?thesis by (simp only: split_chars.simps [of ps] list.case) auto
  next
    case (Cons q qs)
    let ?r = "dropWhile is_space qs"
    have last: "last (q # qs) = last ps" using Cons last_dropWhile by (metis list.distinct(1))
    have q: "is_space q" using Cons hd_dropWhile [of "\<lambda>p. \<not> is_space p" ps] by simp
    have "?r \<noteq> []"
    proof
      assume "?r = []"
      then have "\<forall>x \<in> set (q # qs). is_space x" using q by simp
      then have "is_space (last (q # qs))" by (metis last_in_set list.distinct(1))
      with last 1(4) show False by simp
    qed
    moreover from this have "\<not> is_space (hd ?r)" by (rule hd_dropWhile)
    moreover have "last ?r = last ps" using \<open>?r \<noteq> []\<close> last last_dropWhile [of is_space qs] by (cases qs) auto
    moreover have "[] \<notin> set ?r"
    proof
      assume "[] \<in> set ?r"
      then have "[] \<in> set (q # qs)" using set_dropWhileD [of _ is_space qs] by auto
      then have "[] \<in> set ps" using Cons set_dropWhileD [of _ "\<lambda>p. \<not> is_space p" ps] by simp
      with 1(5) show False ..
    qed
    ultimately have "[] \<notin> set (split_chars ?r)" using 1(1) [OF Cons] 1(4) by simp
    with first Cons show ?thesis by (simp only: split_chars.simps [of ps] list.case) auto
  qed
qed

text \<open>The words of text that is not blank are not empty.\<close>

lemma words_nonempty: "\<not> is_blank s \<Longrightarrow> filter (\<lambda>w. w \<noteq> []) (js_split_ws (js_trim s)) = js_split_ws (js_trim s)"
proof -
  assume "\<not> is_blank s"
  then have ne: "trim_chars (js_chars s) \<noteq> []" by (simp only: is_blank_def trim_chars_Nil not_False_eq_True)
  have "[] \<notin> set (trim_chars (js_chars s))" using set_trim_chars js_chars_nonempty by blast
  with ne have "[] \<notin> set (js_split_ws (js_trim s))"
    unfolding js_split_ws_def js_chars_trim by (intro split_chars_nonempty trim_ends)
  then show ?thesis by (auto simp: filter_id_conv)
qed

subsection \<open>Sentiment\<close>

lemma word_score_append:
  "word_score lower step (ws @ vs) a = word_score lower step vs (word_score lower step ws a)"
  by (simp add: word_score_def)

lemma word_score_absent: "\<forall>w \<in> set ws. \<not> str_includes lower w \<Longrightarrow> word_score lower step ws a = a"
  by (induction ws) (simp_all add: word_score_def)

lemma word_score_count: "word_score lower step ws a = a + step * int (length (filter (str_includes lower) ws))"
  by (induction ws arbitrary: a) (simp_all add: word_score_def algebra_simps)

text \<open>The words the other two workers leave out of the desktop worker's lists.\<close>

definition cli_missing :: "string list" where
  "cli_missing = [''wonderful'', ''fantastic'', ''disappointing'', ''sad'']"

definition sim_missing :: "string list" where
  "sim_missing = [''best'', ''wonderful'', ''fantastic'', ''poor'', ''disappointing'', ''sad'']"

lemma cli_classify_agrees:
  assumes "\<forall>w \<in> set cli_missing. \<not> str_includes (js_lower input) w"
  shows "cli_classify input = classify input"
proof -
  let ?l = "js_lower input"
  have p: "positiveWords = [''good'', ''great'', ''excellent'', ''amazing'', ''love'', ''happy'', ''best''] @ [''wonderful'', ''fantastic'']"
    and n: "negativeWords = [''bad'', ''terrible'', ''awful'', ''hate'', ''worst'', ''horrible'', ''poor''] @ [''disappointing'', ''sad'']"
    by (simp_all add: positiveWords_def negativeWords_def)
  have "word_score ?l step [''wonderful'', ''fantastic''] a = a" "word_score ?l step [''disappointing'', ''sad''] a = a"
    for step a using assms by (auto intro!: word_score_absent simp: cli_missing_def simp del: str_includes.simps)
  then show ?thesis unfolding cli_classify_def classify_def p n word_score_append by (simp only: Let_def)
qed

lemma sim_classify_agrees:
  assumes "\<forall>w \<in> set sim_missing. \<not> str_includes (js_lower input) w"
  shows "sim_classify input = classify input"
proof -
  let ?l = "js_lower input"
  have p: "positiveWords = [''good'', ''great'', ''excellent'', ''amazing'', ''love'', ''happy''] @ [''best'', ''wonderful'', ''fantastic'']"
    and n: "negativeWords = [''bad'', ''terrible'', ''awful'', ''hate'', ''worst'', ''horrible''] @ [''poor'', ''disappointing'', ''sad'']"
    by (simp_all add: positiveWords_def negativeWords_def)
  have "word_score ?l step [''best'', ''wonderful'', ''fantastic''] a = a"
    "word_score ?l step [''poor'', ''disappointing'', ''sad''] a = a" for step a
    using assms by (auto intro!: word_score_absent simp: sim_missing_def simp del: str_includes.simps)
  then show ?thesis unfolding sim_classify_def classify_def p n word_score_append by (simp only: Let_def)
qed

subsection \<open>The contract of a task executor\<close>

text \<open>
  What the workers' job handlers and the coordinator rely on, whichever executor runs: text never
  makes it throw, a sentiment is one of three words with a confidence between 0.3 and 1, the
  number of extracted values is their count and each was read from a part of the input.
\<close>

locale task_executor =
  fixes exec :: executor
  assumes classify_shape: "\<exists>w c. exec ns (JStr ''classify'') (JStr s) =
        Inr (JObj [(''sentiment'', JStr w), (''confidence'', JNum c)]) \<and>
        w \<in> {''positive'', ''negative'', ''neutral''} \<and> 3 / 10 \<le> c \<and> c \<le> 1"
    and summarize_shape: "\<exists>t n. exec ns (JStr ''summarize'') (JStr s) =
        Inr (JObj [(''summary'', JStr t), (''word_count'', JNum (of_nat n))]) \<and> (js_length s \<le> 200 \<longrightarrow> t = s)"
    and extract_shape: "exec ns (JStr ''extract_json'') (JStr s) =
        (let vs = List.map_filter JSON_parse (json_matches s) in
         Inr (JObj [(''extracted'', JArr vs), (''count'', JNum (of_nat (length vs)))]))"
    and unknown_task: "t \<notin> {JStr ''classify'', JStr ''summarize'', JStr ''extract_json''} \<Longrightarrow>
        exec ns t v = Inr (JObj [(''error'', JStr (''Unknown task_type: '' @ js_String ns t))])"
begin

lemma text_never_throws: "\<exists>kvs. exec ns t (JStr s) = Inr (JObj kvs)"
proof -
  consider "t = JStr ''classify''" | "t = JStr ''summarize''" | "t = JStr ''extract_json''"
    | "t \<notin> {JStr ''classify'', JStr ''summarize'', JStr ''extract_json''}" by blast
  then show ?thesis
  proof cases
    case 1 with classify_shape [of ns s] show ?thesis by blast
  next
    case 2 with summarize_shape [of ns s] show ?thesis by blast
  next
    case 3 with extract_shape [of ns s] show ?thesis by simp
  next
    case 4 from unknown_task [OF 4] show ?thesis by blast
  qed
qed

lemma extract_count:
  "exec ns (JStr ''extract_json'') (JStr s) = Inr (JObj [(''extracted'', JArr vs), (''count'', JNum n)]) \<Longrightarrow>
   n = of_nat (length vs)"
  by (auto simp: extract_shape)

end

lemma sentiment_shape:
  "\<exists>w c. JObj [(''sentiment'', JStr (if 0 < z then ''positive'' else if z < 0 then ''negative'' else ''neutral'')),
      (''confidence'', JNum (min 1 (of_int \<bar>z :: int\<bar> * (2 / 10) + 3 / 10)))] =
      JObj [(''sentiment'', JStr w), (''confidence'', JNum c)] \<and>
      w \<in> {''positive'', ''negative'', ''neutral''} \<and> 3 / 10 \<le> c \<and> c \<le> 1"
proof -
  let ?c = "min 1 (of_int \<bar>z\<bar> * (2 / 10) + 3 / 10 :: rat)"
  have "3 / 10 \<le> ?c" "?c \<le> 1" by (simp_all add: min_def)
  moreover have "(if 0 < z then ''positive'' else if z < 0 then ''negative'' else ''neutral'')
      \<in> {''positive'', ''negative'', ''neutral''}" by simp
  ultimately show ?thesis by - (intro exI conjI, rule refl)
qed

lemmas executor_defs = on_string_def mobile_executeTask_def cli_executeTask_def sim_executeTask_def executeTask_def

lemma task_executor_cases:
  assumes "\<And>ns t v. exec ns t v =
      (if t = JStr ''summarize'' then on_string ''trim'' f v
       else if t = JStr ''classify'' then on_string ''toLowerCase'' g v
       else if t = JStr ''extract_json'' then on_string ''match'' h v
       else Inr (JObj [(''error'', JStr (''Unknown task_type: '' @ js_String ns t))]))"
    and "\<And>s. \<exists>w c. g s = JObj [(''sentiment'', JStr w), (''confidence'', JNum c)] \<and>
        w \<in> {''positive'', ''negative'', ''neutral''} \<and> 3 / 10 \<le> c \<and> c \<le> 1"
    and "\<And>s. \<exists>t n. f s = JObj [(''summary'', JStr t), (''word_count'', JNum (of_nat n))] \<and> (js_length s \<le> 200 \<longrightarrow> t = s)"
    and "\<And>s. h s = extractJson s"
  shows "task_executor exec"
  by unfold_locales (use assms in \<open>simp_all add: on_string_def extractJson_def\<close>)

interpretation desktopX: task_executor executeTask
proof (rule task_executor_cases [OF executeTask_def])
  fix s
  show "\<exists>w c. classify s = JObj [(''sentiment'', JStr w), (''confidence'', JNum c)] \<and>
        w \<in> {''positive'', ''negative'', ''neutral''} \<and> 3 / 10 \<le> c \<and> c \<le> 1"
    unfolding classify_def Let_def by (rule sentiment_shape)
qed (simp_all add: summarize_def)

interpretation mobileX: task_executor mobile_executeTask
proof (rule task_executor_cases [OF mobile_executeTask_def])
  fix s
  show "\<exists>w c. mobile_classify s = JObj [(''sentiment'', JStr w), (''confidence'', JNum c)] \<and>
        w \<in> {''positive'', ''negative'', ''neutral''} \<and> 3 / 10 \<le> c \<and> c \<le> 1"
    unfolding mobile_classify_def Let_def by (rule sentiment_shape)
qed (simp_all add: mobile_summarize_def mobile_extractJson_def extractJson_def)

interpretation cliX: task_executor cli_executeTask
proof (rule task_executor_cases [OF cli_executeTask_def])
  fix s
  show "\<exists>w c. cli_classify s = JObj [(''sentiment'', JStr w), (''confidence'', JNum c)] \<and>
        w \<in> {''positive'', ''negative'', ''neutral''} \<and> 3 / 10 \<le> c \<and> c \<le> 1"
    unfolding cli_classify_def Let_def by (rule sentiment_shape)
qed (simp_all add: cli_summarize_def cli_extract_def extractJson_def)

interpretation simX: task_executor sim_executeTask
proof (rule task_executor_cases [OF sim_executeTask_def])
  fix s
  show "\<exists>w c. sim_classify s = JObj [(''sentiment'', JStr w), (''confidence'', JNum c)] \<and>
        w \<in> {''positive'', ''negative'', ''neutral''} \<and> 3 / 10 \<le> c \<and> c \<le> 1"
    unfolding sim_classify_def Let_def by (rule sentiment_shape)
qed (simp_all add: sim_summarize_def sim_extract_def extractJson_def)


lemma lower_demo: "js_lower ''a Good day'' = ''a good day''"
proof -
  have "map char_lower ''a Good day'' = ''a good day''" by code_simp
  moreover have "is_ascii ''a Good day''" by (simp add: is_ascii_def byte_nat_def)
  ultimately show ?thesis by (simp only: js_lower_ascii)
qed

lemma missing_demo:
  "\<forall>w \<in> set cli_missing. \<not> str_includes (js_lower ''a Good day'') w"
  "\<forall>w \<in> set sim_missing. \<not> str_includes (js_lower ''a Good day'') w"
  unfolding lower_demo by code_simp+

lemma blank_demo: "\<not> is_blank ''a Good day''"
  by (simp add: is_blank_def is_space_single byte_nat_def is_cont_def)

lemma classify_demo: "classify ''a Good day'' = JObj [(''sentiment'', JStr ''positive''), (''confidence'', JNum (1 / 2))]"
  unfolding classify_def lower_demo by code_simp


subsection \<open>Extraction finds every object again\<close>

text \<open>
  Text whose braces nest at most once (\<open>braces1\<close>), and JSON values whose text has braces of at
  most a given depth (\<open>brace_depth\<close>): the pattern reaches objects with one level of nested
  objects, and no brace may occur inside a string.
\<close>

inductive braces1 :: "string \<Rightarrow> bool" where
  b1_Nil: "braces1 []"
| b1_char: "non_brace c \<Longrightarrow> braces1 t \<Longrightarrow> braces1 (c # t)"
| b1_group: "list_all non_brace u \<Longrightarrow> braces1 t \<Longrightarrow> braces1 (CHR 0x7B # u @ CHR 0x7D # t)"

fun brace_depth :: "(rat \<Rightarrow> string) \<Rightarrow> nat \<Rightarrow> json \<Rightarrow> bool" where
  "brace_depth ns d (JNum q) \<longleftrightarrow> list_all non_brace (ns q)"
| "brace_depth ns d (JStr s) \<longleftrightarrow> list_all non_brace s"
| "brace_depth ns d (JArr vs) \<longleftrightarrow> (\<forall>v \<in> set vs. brace_depth ns d v)"
| "brace_depth ns d (JObj kvs) \<longleftrightarrow>
     0 < d \<and> (\<forall>kv \<in> set kvs. list_all non_brace (fst kv) \<and> brace_depth ns (d - 1) (snd kv))"
| "brace_depth ns d _ \<longleftrightarrow> True"

lemma non_brace_char [simp]:
  "non_brace (CHR 0x22)" "non_brace (CHR 0x2C)" "non_brace (CHR 0x3A)" "non_brace (CHR 0x5B)" "non_brace (CHR 0x5D)"
  "non_brace (CHR 0x5C)" "non_brace (CHR 0x30)" "\<not> non_brace (CHR 0x7B)" "\<not> non_brace (CHR 0x7D)"
  by (simp_all add: non_brace_def)

lemma braces1_plain: "list_all non_brace u \<Longrightarrow> braces1 t \<Longrightarrow> braces1 (u @ t)"
  by (induction u) (auto intro: b1_char)

lemma braces1_append: "braces1 s \<Longrightarrow> braces1 t \<Longrightarrow> braces1 (s @ t)"
  by (induction rule: braces1.induct) (auto intro: braces1.intros)

lemma match_body_plain:
  assumes "list_all non_brace u"
  shows "match_body (u @ s) = map_option (\<lambda>(m, q). (u @ m, q)) (match_body s)"
proof -
  have *: "x \<in> set u \<Longrightarrow> non_brace x" for x using assms by (simp add: list_all_iff)
  note eqs = match_body.simps [of "u @ s"] match_body.simps [of s] takeWhile_append2 [OF *] dropWhile_append2 [OF *]
  show ?thesis
  proof (cases "dropWhile non_brace s")
    case Nil
    show ?thesis by (simp only: eqs Nil list.case option.map)
  next
    case (Cons b r)
    show ?thesis
    proof (cases "dropWhile non_brace r")
      case Nil
      show ?thesis by (simp only: eqs Cons Nil list.case) simp
    next
      case Cons': (Cons b' r')
      show ?thesis by (simp only: eqs Cons Cons' list.case) (simp add: option.map_comp comp_def split_def)
    qed
  qed
qed

lemma match_body_braces1: "braces1 t \<Longrightarrow> match_body (t @ CHR 0x7D # r) = Some (t @ [CHR 0x7D], r)"
proof (induction rule: braces1.induct)
  case b1_Nil
  show ?case by (subst match_body.simps) (simp add: non_brace_def)
next
  case (b1_char c t)
  then show ?case using match_body_plain [of "[c]" "t @ CHR 0x7D # r"] by simp
next
  case (b1_group u t)
  have *: "\<And>x. x \<in> set u \<Longrightarrow> non_brace x" using b1_group by (simp add: list_all_iff)
  have "\<not> non_brace (CHR 0x7B)" "\<not> non_brace (CHR 0x7D)" by (simp_all add: non_brace_def)
  with b1_group.IH show ?case
    by (subst match_body.simps) (simp add: * takeWhile_append2 dropWhile_append2)
qed

lemma json_matches_plain: "list_all non_brace u \<Longrightarrow> json_matches (u @ s) = json_matches s"
  by (induction u) (auto simp: json_matches.simps non_brace_def)

lemma json_matches_object:
  "braces1 t \<Longrightarrow> json_matches ((CHR 0x7B # t @ [CHR 0x7D]) @ r) = (CHR 0x7B # t @ [CHR 0x7D]) # json_matches r"
  using match_body_braces1 [of t r] by (simp add: json_matches.simps)

lemma json_escape_non_brace: "non_brace c \<Longrightarrow> list_all non_brace (json_escape c)"
proof -
  have "list_all (\<lambda>n. non_brace (hex_digit n)) [0..<16]" by code_simp
  then have "non_brace (hex_digit n)" if "n < 16" for n using that by (simp add: list_all_iff)
  then show "non_brace c \<Longrightarrow> list_all non_brace (json_escape c)"
    by (simp add: json_escape_def) (simp add: non_brace_def)
qed

lemma json_quote_non_brace: "list_all non_brace s \<Longrightarrow> list_all non_brace (json_quote s)"
  using json_escape_non_brace by (auto simp: json_quote_def list_all_iff)

lemma join_plain: "(\<And>x. x \<in> set xs \<Longrightarrow> list_all non_brace x) \<Longrightarrow> list_all non_brace (join_with '','' xs)"
  by (induction "'',''" xs rule: join_with.induct) auto

lemma join_braces1: "(\<And>x. x \<in> set xs \<Longrightarrow> braces1 x) \<Longrightarrow> braces1 (join_with '','' xs)"
proof (induction "'',''" xs rule: join_with.induct)
  case (3 x y zs)
  then have "braces1 ('','' @ join_with '','' (y # zs))" by (auto intro!: b1_char)
  with 3(2) [of x] show ?case by (simp only: join_with.simps braces1_append list.set_intros)
qed (auto intro: b1_Nil)

lemma stringify_depth0: "brace_depth ns 0 v \<Longrightarrow> list_all non_brace (stringify ns v)"
proof (induction v)
  case (JArr vs)
  then have "list_all non_brace (join_with '','' (map (stringify ns) vs))" by (intro join_plain) auto
  then show ?case by simp
qed (auto simp: json_quote_non_brace non_brace_def)

lemma member_depth0:
  assumes "\<forall>kv \<in> set kvs. list_all non_brace (fst kv) \<and> brace_depth ns 0 (snd kv)"
  shows "list_all non_brace (join_with '','' (map (\<lambda>(k, v). json_quote k @ '':'' @ stringify ns v) kvs))"
proof (rule join_plain)
  fix x
  assume "x \<in> set (map (\<lambda>(k, v). json_quote k @ '':'' @ stringify ns v) kvs)"
  then obtain k v where "x = json_quote k @ '':'' @ stringify ns v" "list_all non_brace k" "brace_depth ns 0 v"
    using assms by auto
  then show "list_all non_brace x" by (simp add: json_quote_non_brace stringify_depth0)
qed

lemma stringify_depth1: "brace_depth ns 1 v \<Longrightarrow> braces1 (stringify ns v)"
proof (induction v)
  case (JArr vs)
  then have "braces1 (join_with '','' (map (stringify ns) vs))" by (intro join_braces1) auto
  then have "braces1 (join_with '','' (map (stringify ns) vs) @ '']'')"
    by (rule braces1_append) (auto intro: braces1.intros)
  then show ?case by (auto intro!: b1_char)
next
  case (JObj kvs)
  then have "\<forall>kv \<in> set kvs. list_all non_brace (fst kv) \<and> brace_depth ns 0 (snd kv)" by simp
  from b1_group [OF member_depth0 [OF this] b1_Nil] show ?case by simp
qed (use braces1_plain [OF _ b1_Nil] in \<open>auto simp: json_quote_non_brace non_brace_def\<close>)

lemma stringify_object:
  assumes "brace_depth ns 2 (JObj kvs)"
  shows "\<exists>t. braces1 t \<and> stringify ns (JObj kvs) = CHR 0x7B # t @ [CHR 0x7D]"
proof -
  let ?t = "join_with '','' (map (\<lambda>(k, v). json_quote k @ '':'' @ stringify ns v) kvs)"
  have "braces1 ?t"
  proof (rule join_braces1)
    fix x
    assume "x \<in> set (map (\<lambda>(k, v). json_quote k @ '':'' @ stringify ns v) kvs)"
    then obtain k v where x: "x = json_quote k @ '':'' @ stringify ns v" and k: "list_all non_brace k" and "brace_depth ns 1 v"
      using assms by (auto simp: numeral_2_eq_2)
    from this(3) have "braces1 ('':'' @ stringify ns v)"
      using stringify_depth1 by (auto intro!: b1_char)
    then show "braces1 x" unfolding x by (rule braces1_plain [OF json_quote_non_brace [OF k]])
  qed
  then show ?thesis by auto
qed

lemma nat_text_non_brace: "list_all non_brace (nat_text n)"
  using nat_text_digits [of n] by (auto simp: list_all_iff is_digit_def non_brace_def byte_nat_def)

definition embed :: "(rat \<Rightarrow> string) \<Rightarrow> string \<Rightarrow> ((string \<times> json) list \<times> string) list \<Rightarrow> string" where
  "embed ns pre items = pre @ concat (map (\<lambda>(kvs, sep). stringify ns (JObj kvs) @ sep) items)"

lemma json_matches_embed:
  assumes "\<forall>(kvs, sep) \<in> set items. brace_depth ns 2 (JObj kvs) \<and> list_all non_brace sep" "list_all non_brace pre"
  shows "json_matches (embed ns pre items) = map (\<lambda>(kvs, sep). stringify ns (JObj kvs)) items"
  using assms
proof (induction items arbitrary: pre)
  case Nil
  then show ?case using json_matches_plain [of pre "[]"] by (simp add: embed_def json_matches.simps)
next
  case (Cons p items)
  obtain kvs sep where p: "p = (kvs, sep)" by fastforce
  with Cons.prems obtain t where t: "braces1 t" "stringify ns (JObj kvs) = CHR 0x7B # t @ [CHR 0x7D]"
    using stringify_object [of ns kvs] by auto
  have "embed ns pre (p # items) = pre @ stringify ns (JObj kvs) @ embed ns sep items" by (simp add: embed_def p)
  then show ?case
    using json_matches_plain [OF Cons.prems(2)] json_matches_object [OF t(1)] Cons.IH [of sep] Cons.prems(1) p
    by (simp only: t(2)) (simp del: stringify.simps add: t(2))
qed



end
