(* ===== verification/Signing.thy ===== *)
theory Signing
  imports Hub Executors
begin

section \<open>Keys, receipts and signing providers of the workers\<close>

text \<open>
  How each worker gets its ed25519 key pair and signs receipts:
  \<open>apps/worker-desktop/src/keys.ts\<close> and \<open>receipts.ts\<close>, \<open>packages/cli/src/lib/keys.ts\<close> and
  \<open>buildReceipt\<close> of \<open>worker-runtime.ts\<close>, \<open>loadOrCreateKeypair\<close> of the simulated Seeker, and
  \<open>KeyManager\<close>, \<open>ReceiptSigner\<close>, \<open>DeviceKeyProvider\<close>, \<open>MWAProvider\<close> of the mobile worker.

  The cryptographic libraries are the record \<open>crypto\<close>: \<open>k_sha256\<close> is Node's SHA-256 (hexadecimal),
  \<open>k_digest\<close> that of expo-crypto, \<open>k_sign\<close> \<open>nacl.sign.detached\<close> (\<open>None\<close> when it throws),
  \<open>k_fromSecretKey\<close> and \<open>k_fromSeed\<close> the key constructors. The wallet app behind Mobile Wallet
  Adapter is the record \<open>wallet\<close>. Random values are arguments. Files are a map from resolved paths
  to text. A key file that parses is taken to hold the arrays of numbers its interface declares;
  any other shape is \<open>BadKeyFile\<close>.

  The locale \<open>signing_provider\<close> is the contract of the interface \<open>SigningProvider.ts\<close>; it is
  interpreted on both providers.
\<close>

record crypto =
  k_sha256 :: "string \<Rightarrow> string"
  k_digest :: "string \<Rightarrow> string"
  k_sign :: "string \<Rightarrow> string \<Rightarrow> string option" \<comment> \<open>message, secret key\<close>
  k_fromSecretKey :: "string \<Rightarrow> (string \<times> string) option"
  k_fromSeed :: "string \<Rightarrow> string \<times> string"

record KeyPair =
  kp_publicKey :: string
  kp_secretKey :: string
  kp_pubkeyHex :: string

datatype key_error =
    JsonSyntax
  | BadKeyFile
  | NoSuchFile
  | NaclError string
  | NotConnected
  | WalletError string

type_synonym files = "string \<Rightarrow> string option"

subsection \<open>Byte arrays in JSON\<close>

text \<open>\<open>Array.from(bytes)\<close> and \<open>Uint8Array.from(numbers)\<close>.\<close>

definition bytes_json :: "string \<Rightarrow> json" where
  "bytes_json bs = JArr (map (\<lambda>c. JNum (of_nat (byte_nat c))) bs)"

definition to_uint8 :: "rat \<Rightarrow> char" where
  "to_uint8 q = char_of (nat ((if q < 0 then - \<lfloor>- q\<rfloor> else \<lfloor>q\<rfloor>) mod 256))"

fun uint8_list :: "json list \<Rightarrow> string option" where
  "uint8_list [] = Some []"
| "uint8_list (JNum q # vs) = map_option (\<lambda>bs. to_uint8 q # bs) (uint8_list vs)"
| "uint8_list _ = None"

definition uint8_from :: "json option \<Rightarrow> string option" where
  "uint8_from v = (case v of Some (JArr vs) \<Rightarrow> uint8_list vs | _ \<Rightarrow> None)"

definition key_file_json :: "string \<Rightarrow> string \<Rightarrow> json" where
  "key_file_json pk sk = JObj [(''publicKey'', bytes_json pk), (''secretKey'', bytes_json sk)]"

definition keypair_of :: "string \<Rightarrow> string \<Rightarrow> KeyPair" where
  "keypair_of pk sk = \<lparr>kp_publicKey = pk, kp_secretKey = sk, kp_pubkeyHex = hex_encode pk\<rparr>"

subsection \<open>Desktop worker: \<open>keys.ts\<close> and \<open>receipts.ts\<close>\<close>

definition read_key_file :: "string \<Rightarrow> key_error + KeyPair" where
  "read_key_file txt =
     (case JSON_parse txt of
        None \<Rightarrow> Inl JsonSyntax
      | Some data \<Rightarrow>
          (case (uint8_from (json_field ''secretKey'' data), uint8_from (json_field ''publicKey'' data)) of
             (Some secretKey, Some publicKey) \<Rightarrow> Inr (keypair_of publicKey secretKey)
           | _ \<Rightarrow> Inl BadKeyFile))"

definition loadOrCreateKeypair ::
  "(rat \<Rightarrow> string) \<Rightarrow> (string \<Rightarrow> string) \<Rightarrow> string option \<Rightarrow> string \<times> string \<Rightarrow> files \<Rightarrow> key_error + KeyPair \<times> files" where
  "loadOrCreateKeypair ns resolve WORKER_KEY_PATH pair fs =
     (let keyFile = resolve (case WORKER_KEY_PATH of Some p \<Rightarrow> p | None \<Rightarrow> ''./data/worker-key.json'') in
      case fs keyFile of
        Some txt \<Rightarrow> map_sum id (\<lambda>k. (k, fs)) (read_key_file txt)
      | None \<Rightarrow>
          Inr (keypair_of (fst pair) (snd pair),
               fs(keyFile \<mapsto> stringify ns (key_file_json (fst pair) (snd pair)))))"

definition unsigned_receipt :: "string \<Rightarrow> string \<Rightarrow> string \<Rightarrow> string \<Rightarrow> Receipt" where
  "unsigned_receipt jobId pubkey outputHash now =
     \<lparr>r_job_id = jobId, r_provider_pubkey = pubkey, r_output_hash = outputHash, r_completed_at = now,
      r_payment_ref = None\<rparr>"

definition buildReceipt ::
  "crypto \<Rightarrow> (rat \<Rightarrow> string) \<Rightarrow> string \<Rightarrow> string \<Rightarrow> json \<Rightarrow> string \<Rightarrow> string \<Rightarrow> ReceiptSubmitMsg option" where
  "buildReceipt K ns isodate jobId output pubkey secretKey =
     (let outputHash = k_sha256 K (stringify ns output);
          receipt = unsigned_receipt jobId pubkey outputHash isodate;
          canonical = stringify ns (receipt_json receipt) in
      map_option (\<lambda>signature. \<lparr>rs_receipt = receipt, rs_signature = b64_encode signature\<rparr>)
        (k_sign K canonical secretKey))"

subsection \<open>Command line worker: \<open>keys.ts\<close> and \<open>buildReceipt\<close>\<close>

definition toKeypair :: "json \<Rightarrow> key_error + KeyPair" where
  "toKeypair stored =
     (case (uint8_from (json_field ''publicKey'' stored), uint8_from (json_field ''secretKey'' stored)) of
        (Some publicKey, Some secretKey) \<Rightarrow> Inr (keypair_of publicKey secretKey)
      | _ \<Rightarrow> Inl BadKeyFile)"

definition generateKeypair :: "string \<times> string \<Rightarrow> KeyPair" where
  "generateKeypair pair = keypair_of (fst pair) (snd pair)"

definition saveKeypair :: "(rat \<Rightarrow> string) \<Rightarrow> (string \<Rightarrow> string) \<Rightarrow> string \<Rightarrow> KeyPair \<Rightarrow> files \<Rightarrow> files" where
  "saveKeypair ns resolve keyPath keypair fs =
     fs(resolve keyPath \<mapsto> stringify2 ns (key_file_json (kp_publicKey keypair) (kp_secretKey keypair)) @ [CHR 0x0A])"

definition loadKeypair :: "(string \<Rightarrow> string) \<Rightarrow> string \<Rightarrow> files \<Rightarrow> key_error + KeyPair" where
  "loadKeypair resolve keyPath fs =
     (case fs (resolve keyPath) of
        None \<Rightarrow> Inl NoSuchFile
      | Some raw \<Rightarrow> (case JSON_parse raw of None \<Rightarrow> Inl JsonSyntax | Some stored \<Rightarrow> toKeypair stored))"

definition cli_loadOrCreateKeypair ::
  "(rat \<Rightarrow> string) \<Rightarrow> (string \<Rightarrow> string) \<Rightarrow> string \<Rightarrow> string \<times> string \<Rightarrow> files \<Rightarrow> key_error + KeyPair \<times> files" where
  "cli_loadOrCreateKeypair ns resolve keyPath pair fs =
     (let filePath = resolve keyPath in
      if fs filePath \<noteq> None then map_sum id (\<lambda>k. (k, fs)) (loadKeypair resolve filePath fs)
      else (let generated = generateKeypair pair in Inr (generated, saveKeypair ns resolve filePath generated fs)))"

record SignedReceipt =
  sr_receipt :: Receipt
  sr_signature :: string

definition cli_buildReceipt ::
  "crypto \<Rightarrow> (rat \<Rightarrow> string) \<Rightarrow> string \<Rightarrow> string \<Rightarrow> json \<Rightarrow> string \<Rightarrow> string \<Rightarrow> SignedReceipt option" where
  "cli_buildReceipt K ns isodate jobId output pubkey secretKey =
     (let outputHash = k_sha256 K (stringify ns output);
          receipt = unsigned_receipt jobId pubkey outputHash isodate;
          canonical = stringify ns (receipt_json receipt) in
      map_option (\<lambda>signature. \<lparr>sr_receipt = receipt, sr_signature = b64_encode signature\<rparr>)
        (k_sign K canonical secretKey))"

subsection \<open>Simulated Seeker: \<open>loadOrCreateKeypair\<close>\<close>

definition sim_loadOrCreateKeypair ::
  "(rat \<Rightarrow> string) \<Rightarrow> (string \<Rightarrow> string) \<Rightarrow> string \<times> string \<Rightarrow> files \<Rightarrow> key_error + KeyPair \<times> files" where
  "sim_loadOrCreateKeypair ns resolve pair fs =
     (let keyFile = resolve ''./data/seeker-key.json'' in
      case fs keyFile of
        Some txt \<Rightarrow> map_sum id (\<lambda>k. (k, fs)) (read_key_file txt)
      | None \<Rightarrow>
          Inr (keypair_of (fst pair) (snd pair),
               fs(keyFile \<mapsto> stringify ns (key_file_json (fst pair) (snd pair)))))"

subsection \<open>Mobile worker: \<open>KeyManager.ts\<close>\<close>

text \<open>\<open>expo-secure-store\<close> and \<open>AsyncStorage\<close>, at the two keys \<open>KeyManager\<close> uses.\<close>

record key_store =
  ks_secret :: "string option"
  ks_pubkey :: "string option"

definition getOrCreateKeypair ::
  "crypto \<Rightarrow> (rat \<Rightarrow> string) \<Rightarrow> string \<Rightarrow> key_store \<Rightarrow> key_error + KeyPair \<times> key_store" where
  "getOrCreateKeypair K ns seed st =
     (if str_truthy (ks_secret st) then
        (case JSON_parse (the (ks_secret st)) of
           None \<Rightarrow> Inl JsonSyntax
         | Some v \<Rightarrow>
             (case uint8_from (Some v) of
                None \<Rightarrow> Inl BadKeyFile
              | Some secretKey \<Rightarrow>
                  (case k_fromSecretKey K secretKey of
                     None \<Rightarrow> Inl (NaclError ''bad secret key size'')
                   | Some (pk, sk) \<Rightarrow> Inr (keypair_of pk sk, st))))
      else
        (let (pk, sk) = k_fromSeed K seed; pubkeyHex = hex_encode pk in
         Inr (keypair_of pk sk, st\<lparr>ks_secret := Some (stringify ns (bytes_json sk)), ks_pubkey := Some pubkeyHex\<rparr>)))"

definition getWorkerId :: "key_store \<Rightarrow> string option" where
  "getWorkerId st = ks_pubkey st"

definition signData :: "crypto \<Rightarrow> string \<Rightarrow> string \<Rightarrow> string option" where
  "signData K data secretKey = k_sign K data secretKey"

definition resetKeypair :: "key_store \<Rightarrow> key_store" where
  "resetKeypair st = st\<lparr>ks_secret := None, ks_pubkey := None\<rparr>"

subsection \<open>Mobile worker: \<open>ReceiptSigner.ts\<close>\<close>

definition buildSignedReceipt ::
  "crypto \<Rightarrow> (rat \<Rightarrow> string) \<Rightarrow> string \<Rightarrow> string \<Rightarrow> json \<Rightarrow> string \<Rightarrow> string \<Rightarrow> SignedReceipt option" where
  "buildSignedReceipt K ns isodate jobId output pubkeyHex secretKey =
     (let outputJson = stringify ns output;
          outputHash = k_digest K outputJson;
          receipt = unsigned_receipt jobId pubkeyHex outputHash isodate;
          canonical = stringify ns (receipt_json receipt) in
      map_option (\<lambda>signatureBytes. \<lparr>sr_receipt = receipt, sr_signature = b64_encode signatureBytes\<rparr>)
        (signData K canonical secretKey))"

definition hashOutput :: "crypto \<Rightarrow> (rat \<Rightarrow> string) \<Rightarrow> json \<Rightarrow> string" where
  "hashOutput K ns output = k_digest K (stringify ns output)"

definition buildJobCompleteWithReceipt ::
  "crypto \<Rightarrow> (rat \<Rightarrow> string) \<Rightarrow> string \<Rightarrow> string \<Rightarrow> json \<Rightarrow> string \<Rightarrow> string \<Rightarrow> JobCompleteMsg option" where
  "buildJobCompleteWithReceipt K ns isodate jobId output pubkeyHex secretKey =
     map_option (\<lambda>signedReceipt.
         \<lparr>jc_job_id = jobId, jc_output = output, jc_output_hash = hashOutput K ns output,
          jc_receipt = Some (sr_receipt signedReceipt), jc_receipt_signature = Some (sr_signature signedReceipt)\<rparr>)
       (buildSignedReceipt K ns isodate jobId output pubkeyHex secretKey)"

text \<open>A provider method returns a value or throws, and leaves a provider state either way.\<close>

type_synonym ('p, 'a) provider_op = "'p \<Rightarrow> (key_error + 'a) \<times> 'p"

definition buildJobCompleteWithProvider ::
  "('p, string) provider_op \<Rightarrow> (string \<Rightarrow> ('p, string) provider_op) \<Rightarrow> crypto \<Rightarrow> (rat \<Rightarrow> string) \<Rightarrow> string \<Rightarrow>
   string \<Rightarrow> json \<Rightarrow> ('p, JobCompleteMsg) provider_op" where
  "buildJobCompleteWithProvider getPk signMsg K ns isodate jobId output p =
     (case getPk p of
        (Inl e, p1) \<Rightarrow> (Inl e, p1)
      | (Inr pubkeyHex, p1) \<Rightarrow>
          (let outputJson = stringify ns output;
               outputHash = k_digest K outputJson;
               receipt = unsigned_receipt jobId pubkeyHex outputHash isodate;
               canonical = stringify ns (receipt_json receipt) in
           case signMsg canonical p1 of
             (Inl e, p2) \<Rightarrow> (Inl e, p2)
           | (Inr signature, p2) \<Rightarrow>
               (Inr \<lparr>jc_job_id = jobId, jc_output = output, jc_output_hash = outputHash,
                     jc_receipt = Some receipt, jc_receipt_signature = Some signature\<rparr>, p2)))"

subsection \<open>Mobile worker: \<open>DeviceKeyProvider.ts\<close>\<close>

record device_provider =
  dp_keys :: "KeyPair option"
  dp_store :: key_store

definition device_load :: "crypto \<Rightarrow> (rat \<Rightarrow> string) \<Rightarrow> string \<Rightarrow> (device_provider, KeyPair) provider_op" where
  "device_load K ns seed p =
     (case getOrCreateKeypair K ns seed (dp_store p) of
        Inl e \<Rightarrow> (Inl e, p)
      | Inr (k, st) \<Rightarrow> (Inr k, p\<lparr>dp_keys := Some k, dp_store := st\<rparr>))"

definition device_keys :: "crypto \<Rightarrow> (rat \<Rightarrow> string) \<Rightarrow> string \<Rightarrow> (device_provider, KeyPair) provider_op" where
  "device_keys K ns seed p = (case dp_keys p of Some k \<Rightarrow> (Inr k, p) | None \<Rightarrow> device_load K ns seed p)"

definition device_getPublicKeyHex ::
  "crypto \<Rightarrow> (rat \<Rightarrow> string) \<Rightarrow> string \<Rightarrow> (device_provider, string) provider_op" where
  "device_getPublicKeyHex K ns seed p =
     (case device_keys K ns seed p of
        (Inl e, p1) \<Rightarrow> (Inl e, p1)
      | (Inr k, p1) \<Rightarrow> (Inr (kp_pubkeyHex k), p1))"

definition device_signMessage ::
  "crypto \<Rightarrow> (rat \<Rightarrow> string) \<Rightarrow> string \<Rightarrow> string \<Rightarrow> (device_provider, string) provider_op" where
  "device_signMessage K ns seed msg p =
     (case device_keys K ns seed p of
        (Inl e, p1) \<Rightarrow> (Inl e, p1)
      | (Inr k, p1) \<Rightarrow>
          (case signData K msg (kp_secretKey k) of
             None \<Rightarrow> (Inl (NaclError ''bad secret key size''), p1)
           | Some sig \<Rightarrow> (Inr (b64_encode sig), p1)))"

definition device_connect :: "crypto \<Rightarrow> (rat \<Rightarrow> string) \<Rightarrow> string \<Rightarrow> (device_provider, unit) provider_op" where
  "device_connect K ns seed p =
     (case device_load K ns seed p of (Inl e, p1) \<Rightarrow> (Inl e, p1) | (Inr _, p1) \<Rightarrow> (Inr (), p1))"

definition device_disconnect :: "device_provider \<Rightarrow> device_provider" where
  "device_disconnect p = p\<lparr>dp_keys := None\<rparr>"

definition device_isAvailable :: "device_provider \<Rightarrow> bool" where
  "device_isAvailable p = True"

subsection \<open>Mobile worker: \<open>MWAProvider.ts\<close>\<close>

text \<open>
  \<open>wl_authorize t\<close> is \<open>wallet.authorize\<close> with the cached token \<open>t\<close> or without one: the new
  token and the addresses of the accounts, or an error. \<open>wl_signMessages\<close> signs one payload for
  one address; \<open>wl_publicKey\<close> is \<open>new PublicKey(address).toBytes()\<close>.
\<close>

record wallet =
  wl_authorize :: "string option \<Rightarrow> string + string \<times> string list"
  wl_signMessages :: "string \<Rightarrow> string \<Rightarrow> string + string list"
  wl_publicKey :: "string \<Rightarrow> string option"

record mwa_provider =
  mw_authToken :: "string option"
  mw_walletAddress :: "string option"
  mw_publicKeyBytes :: "string option"
  mw_storedToken :: "string option" \<comment> \<open>AsyncStorage at \<open>AUTH_TOKEN_KEY\<close>\<close>
  mw_storedAddress :: "string option" \<comment> \<open>AsyncStorage at \<open>WALLET_ADDRESS_KEY\<close>\<close>

definition mwa_getPublicKeyHex :: "(mwa_provider, string) provider_op" where
  "mwa_getPublicKeyHex p =
     (case mw_publicKeyBytes p of None \<Rightarrow> (Inl NotConnected, p) | Some bs \<Rightarrow> (Inr (hex_encode bs), p))"

definition mwa_getWalletAddress :: "mwa_provider \<Rightarrow> string option" where
  "mwa_getWalletAddress p = mw_walletAddress p"

text \<open>The fresh authorization inside \<open>signMessage\<close>.\<close>

definition mwa_reauthorize :: "wallet \<Rightarrow> (mwa_provider, unit) provider_op" where
  "mwa_reauthorize W p =
     (case wl_authorize W None of
        Inl e \<Rightarrow> (Inl (WalletError e), p)
      | Inr (tok, _) \<Rightarrow> (Inr (), p\<lparr>mw_authToken := Some tok, mw_storedToken := Some tok\<rparr>))"

definition mwa_signMessage :: "wallet \<Rightarrow> string \<Rightarrow> (mwa_provider, string) provider_op" where
  "mwa_signMessage W msg p =
     (if \<not> str_truthy (mw_walletAddress p) then (Inl NotConnected, p)
      else
        (let address = the (mw_walletAddress p);
             (auth, p1) =
               (if str_truthy (mw_authToken p) then
                  (case wl_authorize W (mw_authToken p) of
                     Inr _ \<Rightarrow> (Inr (), p)
                   | Inl _ \<Rightarrow> mwa_reauthorize W p)
                else mwa_reauthorize W p) in
         case auth of
           Inl e \<Rightarrow> (Inl e, p1)
         | Inr _ \<Rightarrow>
             (case wl_signMessages W address msg of
                Inl e \<Rightarrow> (Inl (WalletError e), p1)
              | Inr [] \<Rightarrow> (Inl (WalletError ''The first argument must be of type string or an instance of Buffer''), p1)
              | Inr (sig # _) \<Rightarrow> (Inr (b64_encode sig), p1))))"

definition mwa_connect :: "wallet \<Rightarrow> (mwa_provider, unit) provider_op" where
  "mwa_connect W p =
     (let cachedToken = mw_storedToken p;
          p1 = p\<lparr>mw_authToken := cachedToken\<rparr> in
      case wl_authorize W (if str_truthy cachedToken then cachedToken else None) of
        Inl e \<Rightarrow> (Inl (WalletError e), p1)
      | Inr (tok, accounts) \<Rightarrow>
          (let p2 = p1\<lparr>mw_authToken := Some tok\<rparr> in
           case accounts of
             [] \<Rightarrow> (Inl (WalletError ''Cannot read properties of undefined''), p2)
           | address # _ \<Rightarrow>
               (let p3 = p2\<lparr>mw_walletAddress := Some address\<rparr> in
                case wl_publicKey W address of
                  None \<Rightarrow> (Inl (WalletError ''Invalid public key input''), p3)
                | Some bs \<Rightarrow>
                    (Inr (), p3\<lparr>mw_publicKeyBytes := Some bs, mw_storedToken := Some tok,
                                mw_storedAddress := Some address\<rparr>))))"

definition mwa_disconnect :: "mwa_provider \<Rightarrow> mwa_provider" where
  "mwa_disconnect p =
     p\<lparr>mw_authToken := None, mw_walletAddress := None, mw_publicKeyBytes := None,
       mw_storedToken := None, mw_storedAddress := None\<rparr>"

definition mwa_isAvailable :: "string \<Rightarrow> bool" where
  "mwa_isAvailable platform_OS = (platform_OS = ''android'')"

subsection \<open>Key files read back\<close>

text \<open>The run time's text of the numbers 0 to 255 reads back.\<close>

definition bytes_printable :: "(rat \<Rightarrow> string) \<Rightarrow> bool" where
  "bytes_printable ns \<longleftrightarrow> (\<forall>n < 256. num_ok ns (of_nat n))"

lemma bytes_printable_int_text: "bytes_printable int_text"
  by (simp add: bytes_printable_def num_ok_nat)

lemma to_uint8_byte: "to_uint8 (of_nat (byte_nat c)) = c"
  using byte_nat_less [of c] by (simp add: to_uint8_def)

lemma uint8_from_bytes [simp]: "uint8_from (Some (bytes_json bs)) = Some bs"
proof -
  have "uint8_list (map (\<lambda>c. JNum (of_nat (byte_nat c))) bs) = Some bs"
    by (induction bs) (simp_all add: to_uint8_byte)
  then show ?thesis by (simp add: uint8_from_def bytes_json_def)
qed

lemma json_ok_bytes: "bytes_printable ns \<Longrightarrow> json_ok ns (bytes_json bs)"
  by (auto simp: bytes_json_def bytes_printable_def)

lemma json_ok_key_file: "bytes_printable ns \<Longrightarrow> json_ok ns (key_file_json pk sk)"
  using json_ok_bytes [of ns] by (simp add: key_file_json_def is_index_def is_digit_def byte_nat_def)

lemma key_file_fields [simp]:
  "json_field ''publicKey'' (key_file_json pk sk) = Some (bytes_json pk)"
  "json_field ''secretKey'' (key_file_json pk sk) = Some (bytes_json sk)"
  by (simp_all add: json_field_def key_file_json_def)

lemma read_key_file_written:
  "bytes_printable ns \<Longrightarrow> read_key_file (stringify ns (key_file_json pk sk)) = Inr (keypair_of pk sk)"
  by (simp add: read_key_file_def JSON_parse_stringify json_ok_key_file)

lemma loadKeypair_saved:
  "bytes_printable ns \<Longrightarrow> k = keypair_of pk sk \<Longrightarrow> loadKeypair resolve p (saveKeypair ns resolve p k fs) = Inr k"
  by (simp add: loadKeypair_def saveKeypair_def JSON_parse_stringify2 json_ok_key_file json_blank_def byte_nat_def
      toKeypair_def keypair_of_def)

lemma map_sum_id_Inr: "map_sum id f r = Inr y \<longleftrightarrow> (\<exists>x. r = Inr x \<and> f x = y)"
  by (cases r) auto

lemma key_file_idem:
  fixes fs :: files
  assumes "bytes_printable ns"
    and "(case fs f of Some txt \<Rightarrow> map_sum id (\<lambda>k. (k, fs)) (read_key_file txt)
          | None \<Rightarrow> Inr (keypair_of pk sk, fs(f \<mapsto> stringify ns (key_file_json pk sk)))) = Inr (k, fs')"
  shows "\<exists>txt. fs' f = Some txt \<and> read_key_file txt = Inr k"
  using assms(2) read_key_file_written [OF assms(1), of pk sk]
  by (auto simp: map_sum_id_Inr split: option.splits)

text \<open>C22. A worker keeps its identity. Whatever key pair a worker obtains at start, it obtains the
  same one at every later start, whatever new key the generator would give then: this holds for
  the key file of the desktop worker, of the command line worker (written with indentation) and of
  the simulated Seeker, and for the secure store of the mobile worker. It rests on \<open>path.resolve\<close>
  being idempotent and on \<open>nacl\<close> rebuilding from a secret key the pair a seed gave.\<close>

theorem keys_survive_restart:
  assumes "bytes_printable ns"
    and "\<And>p. resolve (resolve p) = resolve p"
    and "\<And>sd. k_fromSecretKey K (snd (k_fromSeed K sd)) = Some (k_fromSeed K sd)"
  shows "(loadOrCreateKeypair ns resolve env pair fs = Inr (k, fs') \<longrightarrow>
           loadOrCreateKeypair ns resolve env pair' fs' = Inr (k, fs')) \<and>
         (cli_loadOrCreateKeypair ns resolve path pair fs = Inr (k, fs') \<longrightarrow>
           cli_loadOrCreateKeypair ns resolve path pair' fs' = Inr (k, fs')) \<and>
         (sim_loadOrCreateKeypair ns resolve pair fs = Inr (k, fs') \<longrightarrow>
           sim_loadOrCreateKeypair ns resolve pair' fs' = Inr (k, fs')) \<and>
         (getOrCreateKeypair K ns seed st = Inr (k, st') \<longrightarrow> getOrCreateKeypair K ns seed' st' = Inr (k, st'))"
proof -
  have "loadOrCreateKeypair ns resolve env pair' fs' = Inr (k, fs')"
    if "loadOrCreateKeypair ns resolve env pair fs = Inr (k, fs')"
    using key_file_idem [OF assms(1) that [unfolded loadOrCreateKeypair_def Let_def]]
    by (auto simp: loadOrCreateKeypair_def)
  moreover have "cli_loadOrCreateKeypair ns resolve path pair' fs' = Inr (k, fs')"
    if "cli_loadOrCreateKeypair ns resolve path pair fs = Inr (k, fs')"
  proof (cases "fs (resolve path)")
    case None
    with that have "k = generateKeypair pair" "fs' = saveKeypair ns resolve (resolve path) k fs"
      by (auto simp: cli_loadOrCreateKeypair_def)
    moreover from this have "fs' (resolve path) \<noteq> None" by (simp add: saveKeypair_def assms(2))
    moreover from calculation have "loadKeypair resolve (resolve path) fs' = Inr k"
      using loadKeypair_saved [OF assms(1)] by (simp add: generateKeypair_def)
    ultimately show ?thesis by (simp add: cli_loadOrCreateKeypair_def)
  next
    case (Some raw)
    with that show ?thesis by (auto simp: cli_loadOrCreateKeypair_def map_sum_id_Inr)
  qed
  moreover have "sim_loadOrCreateKeypair ns resolve pair' fs' = Inr (k, fs')"
    if "sim_loadOrCreateKeypair ns resolve pair fs = Inr (k, fs')"
    using key_file_idem [OF assms(1) that [unfolded sim_loadOrCreateKeypair_def Let_def]]
    by (auto simp: sim_loadOrCreateKeypair_def)
  moreover have "getOrCreateKeypair K ns seed' st' = Inr (k, st')"
    if "getOrCreateKeypair K ns seed st = Inr (k, st')"
  proof (cases "str_truthy (ks_secret st)")
    case True
    with that have "st' = st" by (auto simp: getOrCreateKeypair_def split: option.splits)
    with True that show ?thesis by (simp add: getOrCreateKeypair_def)
  next
    case False
    obtain pk sk where kp: "k_fromSeed K seed = (pk, sk)" by fastforce
    have t: "stringify ns (bytes_json sk) \<noteq> []" by (simp add: bytes_json_def)
    from False that kp have "k = keypair_of pk sk" "ks_secret st' = Some (stringify ns (bytes_json sk))"
      by (auto simp: getOrCreateKeypair_def)
    with t kp assms(3) [of seed] show ?thesis
      by (simp add: getOrCreateKeypair_def str_truthy_def JSON_parse_stringify json_ok_bytes [OF assms(1)])
  qed
  ultimately show ?thesis by blast
qed

definition demo_crypto :: crypto where
  "demo_crypto = \<lparr>k_sha256 = \<lambda>s. s, k_digest = \<lambda>s. s, k_sign = \<lambda>m sk. Some (sk @ m),
     k_fromSecretKey = \<lambda>sk. Some (sk, sk), k_fromSeed = \<lambda>seed. (seed, seed)\<rparr>"

theorem keys_survive_restart_witness:
  "loadOrCreateKeypair int_text id None (''q'', ''r'')
     (Map.empty (''./data/worker-key.json'' \<mapsto> stringify int_text (key_file_json ''p'' ''s''))) =
   Inr (keypair_of ''p'' ''s'',
     Map.empty (''./data/worker-key.json'' \<mapsto> stringify int_text (key_file_json ''p'' ''s'')))"
proof -
  have "loadOrCreateKeypair int_text id None (''p'', ''s'') Map.empty =
      Inr (keypair_of ''p'' ''s'', Map.empty (''./data/worker-key.json'' \<mapsto> stringify int_text (key_file_json ''p'' ''s'')))"
    by (simp add: loadOrCreateKeypair_def)
  then show ?thesis
    using keys_survive_restart [of int_text id demo_crypto None "(''p'', ''s'')" Map.empty "keypair_of ''p'' ''s''" _ "(''q'', ''r'')"]
      bytes_printable_int_text by (simp add: demo_crypto_def)
qed

subsection \<open>The contract of a signing provider\<close>

text \<open>
  \<open>key_ok X K pk sk\<close>: the secret key signs every message, and the coordinator's verifier accepts
  the signature under the public key (what ed25519 promises of a key pair).
\<close>

definition key_ok :: "hub_env \<Rightarrow> crypto \<Rightarrow> string \<Rightarrow> string \<Rightarrow> bool" where
  "key_ok X K pk sk \<longleftrightarrow> (\<forall>m. \<exists>sig. k_sign K m sk = Some sig \<and> x_verify X m sig pk = Some True)"

definition receipt_of :: "JobCompleteMsg \<Rightarrow> Receipt" where
  "receipt_of msg = (case jc_receipt msg of Some r \<Rightarrow> r | None \<Rightarrow> unsigned_receipt [] [] [] [])"

text \<open>
  \<open>complete_ok X pk msg\<close>: a completion message carries a receipt for its own job and output hash,
  names the worker's key, and its signature passes the coordinator's check under that key.
\<close>

definition complete_ok :: "hub_env \<Rightarrow> string \<Rightarrow> JobCompleteMsg \<Rightarrow> bool" where
  "complete_ok X pk msg \<longleftrightarrow>
     (\<exists>r sig. jc_receipt msg = Some r \<and> jc_receipt_signature msg = Some sig \<and>
        r_job_id r = jc_job_id msg \<and> r_output_hash r = jc_output_hash msg \<and> r_provider_pubkey r = pk \<and>
        sig \<noteq> [] \<and> verifyReceiptSignature X r sig pk)"

lemma receipt_text_stringify: "receipt_text r = stringify ns (receipt_json r)"
  unfolding receipt_text_def by (simp only: stringify_receipt)

lemma b64_encode_Nil: "b64_encode s = [] \<longleftrightarrow> s = []"
  by (cases s rule: b64_encode.cases) simp_all

text \<open>An empty signature would be dropped by the coordinator; a verifier that accepts it is none.\<close>

definition rejects_empty :: "hub_env \<Rightarrow> bool" where
  "rejects_empty X \<longleftrightarrow> (\<forall>m pk. x_verify X m [] pk \<noteq> Some True)"

locale signing_provider =
  fixes getPk :: "('p, string) provider_op"
    and signMsg :: "string \<Rightarrow> ('p, string) provider_op"
    and good :: "hub_env \<Rightarrow> 'p \<Rightarrow> bool" \<comment> \<open>connected, with working keys\<close>
  assumes get_ok: "good X p \<Longrightarrow> \<exists>pk. fst (getPk p) = Inr pk \<and> good X (snd (getPk p))"
    and get_stable: "good X p \<Longrightarrow> fst (getPk (snd (getPk p))) = fst (getPk p)"
    and sign_ok: "good X p \<Longrightarrow> fst (getPk p) = Inr pk \<Longrightarrow>
      \<exists>sig. fst (signMsg m p) = Inr (b64_encode sig) \<and> x_verify X m sig (hex_decode pk) = Some True \<and>
        good X (snd (signMsg m p)) \<and> fst (getPk (snd (signMsg m p))) = Inr pk"
begin

lemma complete_with_provider:
  assumes "good X p" "rejects_empty X"
  shows "\<exists>pk msg. fst (getPk p) = Inr pk \<and> fst (buildJobCompleteWithProvider getPk signMsg K ns isodate jobId output p) = Inr msg \<and>
    complete_ok X pk msg \<and> jc_job_id msg = jobId \<and> jc_output msg = output \<and>
    good X (snd (buildJobCompleteWithProvider getPk signMsg K ns isodate jobId output p))"
proof -
  obtain pk p1 where get: "getPk p = (Inr pk, p1)" and g1: "good X p1"
    using get_ok [OF assms(1)] by (metis prod.collapse)
  have pk1: "fst (getPk p1) = Inr pk" using get_stable [OF assms(1)] get by simp
  let ?r = "unsigned_receipt jobId pk (k_digest K (stringify ns output)) isodate"
  from sign_ok [OF g1 pk1] obtain sig p2 where
    sign: "signMsg (stringify ns (receipt_json ?r)) p1 = (Inr (b64_encode sig), p2)"
    and ver: "x_verify X (stringify ns (receipt_json ?r)) sig (hex_decode pk) = Some True" and g2: "good X p2"
    by (metis prod.collapse)
  from ver assms(2) have "b64_encode sig \<noteq> []" by (auto simp: b64_encode_Nil rejects_empty_def)
  moreover have "verifyReceiptSignature X ?r (b64_encode sig) pk"
    using ver by (simp add: verifyReceiptSignature_def receipt_text_stringify [of _ ns] b64_decode_encode)
  ultimately show ?thesis using get sign g2
    by (simp add: buildJobCompleteWithProvider_def complete_ok_def) (simp add: unsigned_receipt_def)
qed

end

definition device_good :: "crypto \<Rightarrow> (rat \<Rightarrow> string) \<Rightarrow> string \<Rightarrow> hub_env \<Rightarrow> device_provider \<Rightarrow> bool" where
  "device_good K ns seed X p \<longleftrightarrow>
     (\<exists>pk sk p'. device_keys K ns seed p = (Inr (keypair_of pk sk), p') \<and> dp_keys p' = Some (keypair_of pk sk) \<and> key_ok X K pk sk)"

definition wallet_ok :: "hub_env \<Rightarrow> wallet \<Rightarrow> string \<Rightarrow> string \<Rightarrow> bool" where
  "wallet_ok X W address pk \<longleftrightarrow>
     (\<exists>tok accts. wl_authorize W None = Inr (tok, accts)) \<and>
     (\<forall>m. \<exists>sig rest. wl_signMessages W address m = Inr (sig # rest) \<and> x_verify X m sig pk = Some True)"

definition mwa_good :: "wallet \<Rightarrow> hub_env \<Rightarrow> mwa_provider \<Rightarrow> bool" where
  "mwa_good W X p \<longleftrightarrow>
     (\<exists>address pk. address \<noteq> [] \<and> mw_walletAddress p = Some address \<and> mw_publicKeyBytes p = Some pk \<and> wallet_ok X W address pk)"

lemma device_keys_loaded: "dp_keys p = Some k \<Longrightarrow> device_keys K ns seed p = (Inr k, p)"
  by (simp add: device_keys_def)

interpretation deviceP: signing_provider "device_getPublicKeyHex K ns seed" "device_signMessage K ns seed" "device_good K ns seed"
  for K ns seed
proof
  fix X p
  assume "device_good K ns seed X p"
  then obtain pk sk p' where d: "device_keys K ns seed p = (Inr (keypair_of pk sk), p')"
    "dp_keys p' = Some (keypair_of pk sk)" "key_ok X K pk sk" unfolding device_good_def by blast
  note d' = device_keys_loaded [OF d(2), of K ns seed]
  show "\<exists>pk. fst (device_getPublicKeyHex K ns seed p) = Inr pk \<and> device_good K ns seed X (snd (device_getPublicKeyHex K ns seed p))"
    using d d' by (auto simp: device_getPublicKeyHex_def device_good_def)
  show "fst (device_getPublicKeyHex K ns seed (snd (device_getPublicKeyHex K ns seed p))) = fst (device_getPublicKeyHex K ns seed p)"
    using d(1) d' by (simp add: device_getPublicKeyHex_def)
  fix pk' m
  assume "fst (device_getPublicKeyHex K ns seed p) = Inr pk'"
  with d(1) have pk': "pk' = hex_encode pk" by (simp add: device_getPublicKeyHex_def keypair_of_def)
  from d(3) obtain sig where "k_sign K m sk = Some sig" "x_verify X m sig pk = Some True" by (auto simp: key_ok_def)
  then show "\<exists>sig. fst (device_signMessage K ns seed m p) = Inr (b64_encode sig) \<and>
      x_verify X m sig (hex_decode pk') = Some True \<and> device_good K ns seed X (snd (device_signMessage K ns seed m p)) \<and>
      fst (device_getPublicKeyHex K ns seed (snd (device_signMessage K ns seed m p))) = Inr pk'"
    using d d' by (auto simp: device_signMessage_def device_getPublicKeyHex_def signData_def keypair_of_def pk'
        hex_decode_encode device_good_def)
qed

interpretation mwaP: signing_provider mwa_getPublicKeyHex "mwa_signMessage W" "mwa_good W" for W
proof
  fix X p
  assume "mwa_good W X p"
  then obtain address pk where a: "address \<noteq> []" "mw_walletAddress p = Some address" "mw_publicKeyBytes p = Some pk"
    "wallet_ok X W address pk" unfolding mwa_good_def by blast
  show "\<exists>pk. fst (mwa_getPublicKeyHex p) = Inr pk \<and> mwa_good W X (snd (mwa_getPublicKeyHex p))"
    using a by (auto simp: mwa_getPublicKeyHex_def mwa_good_def)
  show "fst (mwa_getPublicKeyHex (snd (mwa_getPublicKeyHex p))) = fst (mwa_getPublicKeyHex p)"
    using a by (simp add: mwa_getPublicKeyHex_def)
  fix pk' m
  assume "fst (mwa_getPublicKeyHex p) = Inr pk'"
  with a(3) have pk': "pk' = hex_encode pk" by (simp add: mwa_getPublicKeyHex_def)
  from a(4) obtain tok accts sig rest where w: "wl_authorize W None = Inr (tok, accts)"
    "wl_signMessages W address m = Inr (sig # rest)" "x_verify X m sig pk = Some True" unfolding wallet_ok_def by blast
  show "\<exists>sig. fst (mwa_signMessage W m p) = Inr (b64_encode sig) \<and> x_verify X m sig (hex_decode pk') = Some True \<and>
      mwa_good W X (snd (mwa_signMessage W m p)) \<and> fst (mwa_getPublicKeyHex (snd (mwa_signMessage W m p))) = Inr pk'"
    using a w by (auto simp: mwa_signMessage_def mwa_reauthorize_def mwa_getPublicKeyHex_def mwa_good_def str_truthy_def
        pk' hex_decode_encode split: sum.splits)
qed

end
