(* ===== verification/Workers.thy ===== *)
theory Workers
  imports Signing
begin

section \<open>Desktop worker, command line worker and simulated Seeker\<close>

text \<open>
  \<open>apps/worker-desktop/src/index.ts\<close>, \<open>register.ts\<close>, \<open>heartbeat.ts\<close>;
  \<open>apps/seeker-simulator/src/index.ts\<close>; and the class \<open>WorkerRuntime\<close> of
  \<open>packages/cli/src/lib/worker-runtime.ts\<close>.

  A worker process is a record that holds its socket's state, its timers, what it sent
  (\<open>..._sent\<close>) and the asynchronous work it waits for; each callback is one function on it, and
  \<open>await\<close> ends a function. An exception nobody catches ends a Node process; for the class
  \<open>WorkerRuntime\<close>, which does not know its process, it is appended to \<open>rt_unhandled\<close>. A worker's environment is the record \<open>worker_env\<close>: \<open>fetch\<close>, the
  variables \<open>OLLAMA_BASE_URL\<close> and \<open>OLLAMA_MODEL\<close>, the number printer and the cryptographic
  libraries.
\<close>

record worker_env =
  we_fetch :: http_fetch
  we_ollamaBase :: "string option"
  we_ollamaModel :: "string option"
  we_ns :: "rat \<Rightarrow> string"
  we_crypto :: crypto

text \<open>A text that arrives on a worker's socket, as \<open>JSON.parse\<close> sees it.\<close>

datatype worker_inbound =
    WInvalid \<comment> \<open>not JSON\<close>
  | WNull \<comment> \<open>the JSON text \<open>null\<close>\<close>
  | WMsg CoordinatorToWorker
  | WOther \<comment> \<open>any other JSON value\<close>

definition field_truthy :: "string \<Rightarrow> json \<Rightarrow> bool" where
  "field_truthy k v = (case json_field k v of Some x \<Rightarrow> json_truthy x | None \<Rightarrow> False)"

definition error_output :: "string \<Rightarrow> json" where
  "error_output e = JObj [(''error'', JStr e)]"

subsection \<open>Desktop worker\<close>

text \<open>The \<open>try\<close> block of \<open>handleJob\<close>.\<close>

definition desktop_output :: "worker_env \<Rightarrow> JobAssignMsg \<Rightarrow> json" where
  "desktop_output E job =
     (let payload = ja_payload job in
      if payload = JNull then error_output (null_access (if ja_job_type job = TASK then ''task_type'' else ''prompt''))
      else if ja_job_type job = TASK \<and> field_truthy ''task_type'' payload \<and> field_truthy ''input'' payload then
        (case executeTask (we_ns E) (the (json_field ''task_type'' payload)) (the (json_field ''input'' payload)) of
           Inr output \<Rightarrow> output
         | Inl e \<Rightarrow> error_output e)
      else if ja_job_type job = LLM_INFER \<and> field_truthy ''prompt'' payload then
        executeLLM (we_fetch E) (we_ollamaBase E) (we_ollamaModel E) (we_ns E)
          (the (json_field ''prompt'' payload)) (ja_job_id job) (json_field ''max_tokens'' payload)
      else error_output ''Unsupported job payload'')"

definition desktop_handleJob :: "worker_env \<Rightarrow> string \<Rightarrow> JobAssignMsg \<Rightarrow> KeyPair \<Rightarrow> JobCompleteMsg option" where
  "desktop_handleJob E isodate job keys =
     (let output = desktop_output E job in
      case buildReceipt (we_crypto E) (we_ns E) isodate (ja_job_id job) output (kp_pubkeyHex keys) (kp_secretKey keys) of
        None \<Rightarrow> None
      | Some receipt \<Rightarrow>
          (let outputHash = k_sha256 (we_crypto E) (stringify (we_ns E) output) in
           Some \<lparr>jc_job_id = ja_job_id job, jc_output = output, jc_output_hash = outputHash,
                 jc_receipt = Some (rs_receipt receipt), jc_receipt_signature = Some (rs_signature receipt)\<rparr>))"

definition register_msg :: "string \<Rightarrow> ProviderType \<Rightarrow> JobType list \<Rightarrow> WorkerToCoordinator" where
  "register_msg pubkey providerType caps =
     Register \<lparr>reg_provider_pubkey = pubkey, reg_provider_type = providerType, reg_capabilities = caps,
               reg_pricing_hint = None\<rparr>"

definition heartbeat_msg :: "string \<Rightarrow> WorkerToCoordinator" where
  "heartbeat_msg pubkey = Heartbeat \<lparr>hb_provider_pubkey = pubkey, hb_metrics = None\<rparr>"

text \<open>
  The state of a desktop worker. A job's handler is two steps, its start (\<open>desktop_onMessage\<close>) and
  its end (\<open>desktop_jobDone\<close>), because an LLM job waits for the model in between; for a task
  nothing comes between the two. \<open>DWait\<close> is \<open>registerWorker\<close> waiting for its acknowledgement,
  \<open>DClaim\<close> \<open>claimTrust\<close> waiting for the coordinator, \<open>DRun\<close> the state after the message
  listener was attached, \<open>DExit n\<close> after \<open>process.exit(n)\<close>.
\<close>

datatype desktop_phase = DConnecting | DWait | DClaim | DRun | DExit nat

record desktop =
  d_phase :: desktop_phase
  d_keys :: KeyPair
  d_open :: bool
  d_heartbeat :: bool
  d_trustCode :: "string option"
  d_sent :: "WorkerToCoordinator list"
  d_pending :: "JobAssignMsg list" \<comment> \<open>jobs whose handler has not finished\<close>

definition desktop_start :: "KeyPair \<Rightarrow> string option \<Rightarrow> desktop" where
  "desktop_start keys trustCode =
     \<lparr>d_phase = DConnecting, d_keys = keys, d_open = False, d_heartbeat = False, d_trustCode = trustCode,
      d_sent = [], d_pending = []\<rparr>"

definition desktop_alive :: "desktop \<Rightarrow> bool" where
  "desktop_alive d = (case d_phase d of DExit _ \<Rightarrow> False | _ \<Rightarrow> True)"

definition desktop_send :: "WorkerToCoordinator \<Rightarrow> desktop \<Rightarrow> desktop" where
  "desktop_send m d = d\<lparr>d_sent := d_sent d @ [m]\<rparr>"

definition desktop_onOpen :: "desktop \<Rightarrow> desktop" where
  "desktop_onOpen d =
     (if d_phase d = DConnecting then
        desktop_send (register_msg (kp_pubkeyHex (d_keys d)) DESKTOP [LLM_INFER, TASK]) (d\<lparr>d_phase := DWait, d_open := True\<rparr>)
      else d)"

text \<open>Registered: start the heartbeat, and claim trust before listening if a code was given.\<close>

definition desktop_registered :: "desktop \<Rightarrow> desktop" where
  "desktop_registered d =
     d\<lparr>d_heartbeat := True, d_phase := (if str_truthy (d_trustCode d) then DClaim else DRun)\<rparr>"

text \<open>\<open>onMessage\<close> of \<open>registerWorker\<close>.\<close>

definition desktop_onAck :: "worker_inbound \<Rightarrow> desktop \<Rightarrow> desktop" where
  "desktop_onAck m d =
     (case m of
        WMsg (RegisterAck workerId) \<Rightarrow> if workerId = [] then d\<lparr>d_phase := DExit 1\<rparr> else desktop_registered d
      | WMsg (RegisterNack _) \<Rightarrow> d\<lparr>d_phase := DExit 1\<rparr>
      | _ \<Rightarrow> d)"

definition desktop_onMessage :: "worker_inbound \<Rightarrow> desktop \<Rightarrow> desktop" where
  "desktop_onMessage m d =
     (case d_phase d of
        DWait \<Rightarrow> desktop_onAck m d
      | DRun \<Rightarrow>
          (case m of
             WMsg (JobAssign job) \<Rightarrow> d\<lparr>d_pending := d_pending d @ [job]\<rparr>
           | WNull \<Rightarrow> d\<lparr>d_phase := DExit 1\<rparr>
           | _ \<Rightarrow> d)
      | _ \<Rightarrow> d)"

text \<open>The timer of \<open>registerWorker\<close>: a no-op once the promise is settled.\<close>

definition desktop_registerTimeout :: "desktop \<Rightarrow> desktop" where
  "desktop_registerTimeout d = (if d_phase d = DWait then d\<lparr>d_phase := DExit 1\<rparr> else d)"

definition desktop_claimed :: "desktop \<Rightarrow> desktop" where
  "desktop_claimed d = (if d_phase d = DClaim then d\<lparr>d_phase := DRun\<rparr> else d)"

definition desktop_jobDone :: "worker_env \<Rightarrow> string \<Rightarrow> JobAssignMsg \<Rightarrow> desktop \<Rightarrow> desktop" where
  "desktop_jobDone E isodate job d =
     (if desktop_alive d \<and> job \<in> set (d_pending d) then
        (let d1 = d\<lparr>d_pending := remove1 job (d_pending d)\<rparr> in
         case desktop_handleJob E isodate job (d_keys d) of
           Some msg \<Rightarrow> desktop_send (JobComplete msg) d1
         | None \<Rightarrow> d1\<lparr>d_phase := DExit 1\<rparr>)
      else d)"

definition desktop_heartbeat :: "desktop \<Rightarrow> desktop" where
  "desktop_heartbeat d =
     (if desktop_alive d \<and> d_heartbeat d \<and> d_open d then desktop_send (heartbeat_msg (kp_pubkeyHex (d_keys d))) d else d)"

definition desktop_onClose :: "desktop \<Rightarrow> desktop" where
  "desktop_onClose d =
     (if d_phase d = DRun then d\<lparr>d_open := False, d_heartbeat := False, d_phase := DExit 0\<rparr> else d\<lparr>d_open := False\<rparr>)"

definition desktop_onError :: "desktop \<Rightarrow> desktop" where
  "desktop_onError d = d\<lparr>d_phase := DExit 1\<rparr>"

text \<open>\<open>claimTrust\<close>: the request, and what is logged about its outcome; it never throws.\<close>

definition claimTrust_request :: "string option \<Rightarrow> string option \<Rightarrow> string \<Rightarrow> string \<times> json" where
  "claimTrust_request COORDINATOR_URL code pubkey =
     ((case COORDINATOR_URL of Some u \<Rightarrow> u | None \<Rightarrow> ''http://localhost:4010'') @ ''/v1/trust/claim'',
      obj_defined [(''pairing_code'', map_option JStr code), (''provider_pubkey'', Some (JStr pubkey))])"

subsection \<open>Simulated Seeker\<close>

definition sim_handleJob :: "worker_env \<Rightarrow> string \<Rightarrow> JobAssignMsg \<Rightarrow> KeyPair \<Rightarrow> JobCompleteMsg option" where
  "sim_handleJob E isodate job keys =
     (let payload = ja_payload job;
          result =
            (if payload = JNull then Inl (null_access ''task_type'')
             else if field_truthy ''task_type'' payload \<and> field_truthy ''input'' payload
             then sim_executeTask (we_ns E) (the (json_field ''task_type'' payload)) (the (json_field ''input'' payload))
             else Inr (error_output ''Missing task_type or input'')) in
      case result of
        Inl _ \<Rightarrow> None
      | Inr output \<Rightarrow>
          (let outputHash = k_sha256 (we_crypto E) (stringify (we_ns E) output);
               receipt = unsigned_receipt (ja_job_id job) (kp_pubkeyHex keys) outputHash isodate;
               canonical = stringify (we_ns E) (receipt_json receipt) in
           map_option (\<lambda>sig.
               \<lparr>jc_job_id = ja_job_id job, jc_output = output, jc_output_hash = outputHash,
                jc_receipt = Some receipt, jc_receipt_signature = Some (b64_encode sig)\<rparr>)
             (k_sign (we_crypto E) canonical (kp_secretKey keys))))"

text \<open>\<open>si_waiting\<close>: the listener \<open>onAck\<close> is attached; \<open>si_exit\<close>: the process ended.\<close>

record sim =
  si_keys :: KeyPair
  si_open :: bool
  si_started :: bool
  si_waiting :: bool
  si_exit :: "nat option"
  si_sent :: "WorkerToCoordinator list"

definition sim_start :: "KeyPair \<Rightarrow> sim" where
  "sim_start keys =
     \<lparr>si_keys = keys, si_open = False, si_started = False, si_waiting = False, si_exit = None, si_sent = []\<rparr>"

definition sim_onOpen :: "sim \<Rightarrow> sim" where
  "sim_onOpen s =
     s\<lparr>si_open := True, si_started := True, si_waiting := True,
       si_sent := si_sent s @ [register_msg (kp_pubkeyHex (si_keys s)) SEEKER [TASK]]\<rparr>"

text \<open>Both message listeners, in the order they were attached. \<open>onAck\<close> does not catch a parse
  error, so text that is not JSON ends the process while it waits.\<close>

definition sim_onAck :: "worker_inbound \<Rightarrow> sim \<Rightarrow> sim" where
  "sim_onAck m s =
     (if \<not> si_waiting s then s
      else case m of
        WInvalid \<Rightarrow> s\<lparr>si_exit := Some 1\<rparr>
      | WNull \<Rightarrow> s\<lparr>si_exit := Some 1\<rparr>
      | WMsg (RegisterAck _) \<Rightarrow> s\<lparr>si_waiting := False\<rparr>
      | WMsg (RegisterNack _) \<Rightarrow> s\<lparr>si_waiting := False, si_exit := Some 1\<rparr>
      | _ \<Rightarrow> s)"

definition sim_onMessage :: "worker_env \<Rightarrow> string \<Rightarrow> worker_inbound \<Rightarrow> sim \<Rightarrow> sim" where
  "sim_onMessage E isodate m s =
     (if \<not> si_started s \<or> si_exit s \<noteq> None then s
      else
        (let s1 = sim_onAck m s in
         if si_exit s1 \<noteq> None then s1
         else case m of
           WMsg (JobAssign job) \<Rightarrow>
             (case sim_handleJob E isodate job (si_keys s1) of
                Some msg \<Rightarrow> s1\<lparr>si_sent := si_sent s1 @ [JobComplete msg]\<rparr>
              | None \<Rightarrow> s1\<lparr>si_exit := Some 1\<rparr>)
         | WNull \<Rightarrow> s1\<lparr>si_exit := Some 1\<rparr>
         | _ \<Rightarrow> s1))"

definition sim_heartbeat :: "sim \<Rightarrow> sim" where
  "sim_heartbeat s =
     (if si_exit s = None \<and> si_started s \<and> si_open s then s\<lparr>si_sent := si_sent s @ [heartbeat_msg (kp_pubkeyHex (si_keys s))]\<rparr> else s)"

definition sim_onClose :: "sim \<Rightarrow> sim" where
  "sim_onClose s = s\<lparr>si_open := False, si_exit := Some 0\<rparr>"

definition sim_onError :: "sim \<Rightarrow> sim" where
  "sim_onError s = s\<lparr>si_exit := Some 1\<rparr>"

subsection \<open>Command line worker: \<open>WorkerRuntime\<close>\<close>

record runtime_config =
  cf_coordinatorUrl :: string
  cf_capabilities :: "JobType list"
  cf_ollamaUrl :: "string option"
  cf_keyPath :: string
  cf_trustPairingCode :: "string option"

datatype runtime_status = RConnecting | RRegistered | RWorking | RDisconnected

datatype runtime_event =
    EvStatus runtime_status
  | EvRegistered string
  | EvTrustClaimed json
  | EvWarning string
  | EvDisconnected
  | EvError string
  | EvJobComplete string JobType bool \<comment> \<open>job, type, failed\<close>

text \<open>Where \<open>start()\<close> is: waiting for the socket, for the acknowledgement, for the claim, returned
  with the listeners attached, or rejected.\<close>

datatype runtime_phase = PIdle | PConnecting | PRegistering | PClaiming | PRunning | PFailed string

record runtime =
  rt_config :: runtime_config
  rt_phase :: runtime_phase
  rt_ws :: bool \<comment> \<open>\<open>this.ws\<close> is not \<open>null\<close>\<close>
  rt_open :: bool \<comment> \<open>the socket is OPEN\<close>
  rt_listening :: bool \<comment> \<open>the listeners of \<open>start()\<close> are attached\<close>
  rt_heartbeatTimer :: bool
  rt_startedAt :: int
  rt_keypair :: "KeyPair option"
  rt_workerId :: "string option"
  rt_pubkeyHex :: string
  rt_jobsCompleted :: nat
  rt_jobsFailed :: nat
  rt_lastJobAt :: "int option"
  rt_status :: runtime_status
  rt_sent :: "WorkerToCoordinator list"
  rt_events :: "runtime_event list"
  rt_llm :: "JobAssignMsg list" \<comment> \<open>jobs waiting for \<open>executeLLM\<close>\<close>
  rt_unhandled :: "string list"

definition runtime_new :: "runtime_config \<Rightarrow> runtime" where
  "runtime_new config =
     \<lparr>rt_config = config, rt_phase = PIdle, rt_ws = False, rt_open = False, rt_listening = False,
      rt_heartbeatTimer = False, rt_startedAt = 0, rt_keypair = None, rt_workerId = None, rt_pubkeyHex = [],
      rt_jobsCompleted = 0, rt_jobsFailed = 0, rt_lastJobAt = None, rt_status = RDisconnected,
      rt_sent = [], rt_events = [], rt_llm = [], rt_unhandled = []\<rparr>"

definition rt_emit :: "runtime_event \<Rightarrow> runtime \<Rightarrow> runtime" where
  "rt_emit e rt = rt\<lparr>rt_events := rt_events rt @ [e]\<rparr>"

definition rt_setStatus :: "runtime_status \<Rightarrow> runtime \<Rightarrow> runtime" where
  "rt_setStatus st rt = rt_emit (EvStatus st) (rt\<lparr>rt_status := st\<rparr>)"

definition rt_send :: "WorkerToCoordinator \<Rightarrow> runtime \<Rightarrow> runtime" where
  "rt_send m rt = rt\<lparr>rt_sent := rt_sent rt @ [m]\<rparr>"

definition rt_reject :: "string \<Rightarrow> runtime \<Rightarrow> runtime" where
  "rt_reject e rt = rt\<lparr>rt_unhandled := rt_unhandled rt @ [e]\<rparr>"

definition rt_cleanupHeartbeat :: "runtime \<Rightarrow> runtime" where
  "rt_cleanupHeartbeat rt = rt\<lparr>rt_heartbeatTimer := False\<rparr>"

definition rt_startHeartbeat :: "runtime \<Rightarrow> runtime" where
  "rt_startHeartbeat rt = (rt_cleanupHeartbeat rt)\<lparr>rt_heartbeatTimer := True\<rparr>"

text \<open>\<open>getStats()\<close>: the worker id, the key, the counters, the uptime, the last job and the status.\<close>

definition rt_getStats ::
  "int \<Rightarrow> runtime \<Rightarrow> string option \<times> string \<times> nat \<times> nat \<times> int \<times> int option \<times> runtime_status" where
  "rt_getStats now rt =
     (rt_workerId rt, rt_pubkeyHex rt, rt_jobsCompleted rt, rt_jobsFailed rt,
      if rt_startedAt rt \<noteq> 0 then now - rt_startedAt rt else 0, rt_lastJobAt rt, rt_status rt)"

text \<open>\<open>start()\<close>, up to the wait for the socket; \<open>keys\<close> is the outcome of \<open>loadOrCreateKeypair\<close>.\<close>

definition rt_start :: "int \<Rightarrow> key_error + KeyPair \<Rightarrow> runtime \<Rightarrow> runtime" where
  "rt_start now keys rt =
     (case keys of
        Inl _ \<Rightarrow> rt\<lparr>rt_phase := PFailed ''keypair''\<rparr>
      | Inr k \<Rightarrow>
          rt_setStatus RConnecting
            (rt\<lparr>rt_keypair := Some k, rt_startedAt := now, rt_pubkeyHex := kp_pubkeyHex k, rt_phase := PConnecting\<rparr>))"

text \<open>The socket opens: \<open>registerWorker\<close> sends the registration.\<close>

definition rt_opened :: "runtime \<Rightarrow> runtime" where
  "rt_opened rt =
     (case (rt_phase rt, rt_keypair rt) of
        (PConnecting, Some k) \<Rightarrow>
          rt_send (register_msg (kp_pubkeyHex k) DESKTOP (cf_capabilities (rt_config rt)))
            (rt\<lparr>rt_ws := True, rt_open := True, rt_phase := PRegistering\<rparr>)
      | _ \<Rightarrow> rt)"

text \<open>The timers and errors of \<open>connectWebSocket\<close> and \<open>registerWorker\<close>: \<open>start()\<close> rejects.\<close>

definition rt_connectFailed :: "string \<Rightarrow> runtime \<Rightarrow> runtime" where
  "rt_connectFailed e rt = (if rt_phase rt = PConnecting then rt\<lparr>rt_phase := PFailed e\<rparr> else rt)"

definition rt_registerTimeout :: "runtime \<Rightarrow> runtime" where
  "rt_registerTimeout rt = (if rt_phase rt = PRegistering then rt\<lparr>rt_phase := PFailed ''Registration timeout''\<rparr> else rt)"

definition rt_attach :: "runtime \<Rightarrow> runtime" where
  "rt_attach rt = rt\<lparr>rt_listening := True, rt_phase := PRunning\<rparr>"

text \<open>The acknowledgement: the rest of \<open>start()\<close> up to the claim, or to its end.\<close>

definition rt_registered :: "string \<Rightarrow> runtime \<Rightarrow> runtime" where
  "rt_registered workerId rt =
     (let rt1 = rt_startHeartbeat (rt_emit (EvRegistered workerId) (rt_setStatus RRegistered (rt\<lparr>rt_workerId := Some workerId\<rparr>))) in
      if str_truthy (cf_trustPairingCode (rt_config rt)) then rt1\<lparr>rt_phase := PClaiming\<rparr> else rt_attach rt1)"

definition rt_registerWorker :: "worker_inbound \<Rightarrow> runtime \<Rightarrow> runtime" where
  "rt_registerWorker m rt =
     (case m of
        WMsg (RegisterAck workerId) \<Rightarrow>
          if workerId \<noteq> [] then rt_registered workerId rt else rt\<lparr>rt_phase := PFailed ''Registration failed: unknown''\<rparr>
      | WMsg (RegisterNack e) \<Rightarrow> rt\<lparr>rt_phase := PFailed (''Registration failed: '' @ e)\<rparr>
      | _ \<Rightarrow> rt)"

definition rt_claimSettled :: "string + json \<Rightarrow> runtime \<Rightarrow> runtime" where
  "rt_claimSettled r rt =
     (if rt_phase rt = PClaiming then
        (let rt1 = rt_emit (case r of Inr trust \<Rightarrow> EvTrustClaimed trust | Inl e \<Rightarrow> EvWarning e) rt in
         if rt_ws rt1 then rt_attach rt1 else rt1\<lparr>rt_phase := PFailed (null_access ''on'')\<rparr>)
      else rt)"

text \<open>\<open>handleJob\<close> after the output is known. \<open>this.ws\<close> may have become \<open>null\<close> by then (\<open>stop()\<close>
  ran while the model was working): reading \<open>readyState\<close> throws and the rest is skipped.\<close>

definition rt_finishJob :: "worker_env \<Rightarrow> int \<Rightarrow> string \<Rightarrow> JobAssignMsg \<Rightarrow> json \<Rightarrow> bool \<Rightarrow> runtime \<Rightarrow> runtime" where
  "rt_finishJob E now isodate job output failed rt =
     (let rt1 = (if failed then rt\<lparr>rt_jobsFailed := rt_jobsFailed rt + 1\<rparr>
                 else rt\<lparr>rt_jobsCompleted := rt_jobsCompleted rt + 1\<rparr>);
          rt2 = rt1\<lparr>rt_lastJobAt := Some now\<rparr>;
          k = the (rt_keypair rt2) in
      case cli_buildReceipt (we_crypto E) (we_ns E) isodate (ja_job_id job) output (kp_pubkeyHex k) (kp_secretKey k) of
        None \<Rightarrow> rt_reject ''bad secret key size'' rt2
      | Some receipt \<Rightarrow>
          (let completeMsg =
                 \<lparr>jc_job_id = ja_job_id job, jc_output = output, jc_output_hash = r_output_hash (sr_receipt receipt),
                  jc_receipt = Some (sr_receipt receipt), jc_receipt_signature = Some (sr_signature receipt)\<rparr> in
           if \<not> rt_ws rt2 then rt_reject (null_access ''readyState'') rt2
           else
             (let rt3 = (if rt_open rt2 then rt_send (JobComplete completeMsg) rt2 else rt2) in
              rt_setStatus RRegistered (rt_emit (EvJobComplete (ja_job_id job) (ja_job_type job) failed) rt3))))"

text \<open>\<open>handleJob\<close>: a task, an unsupported payload and a payload that throws are finished at once; an
  LLM job waits for \<open>executeLLM\<close>.\<close>

definition rt_handleJob :: "worker_env \<Rightarrow> int \<Rightarrow> string \<Rightarrow> JobAssignMsg \<Rightarrow> runtime \<Rightarrow> runtime" where
  "rt_handleJob E now isodate job rt =
     (if \<not> rt_ws rt \<or> rt_keypair rt = None then rt
      else
        (let rt1 = rt_setStatus RWorking rt; payload = ja_payload job in
         if payload = JNull then
           rt_finishJob E now isodate job
             (error_output (null_access (if ja_job_type job = TASK then ''task_type'' else ''prompt''))) True rt1
         else if ja_job_type job = TASK \<and> field_truthy ''task_type'' payload \<and> field_truthy ''input'' payload then
           (case cli_executeTask (we_ns E) (the (json_field ''task_type'' payload)) (the (json_field ''input'' payload)) of
              Inr output \<Rightarrow> rt_finishJob E now isodate job output False rt1
            | Inl e \<Rightarrow> rt_finishJob E now isodate job (error_output e) True rt1)
         else if ja_job_type job = LLM_INFER \<and> field_truthy ''prompt'' payload then
           rt1\<lparr>rt_llm := rt_llm rt1 @ [job]\<rparr>
         else rt_finishJob E now isodate job (error_output ''Unsupported job payload'') True rt1))"

definition rt_llmDone :: "worker_env \<Rightarrow> int \<Rightarrow> string \<Rightarrow> JobAssignMsg \<Rightarrow> runtime \<Rightarrow> runtime" where
  "rt_llmDone E now isodate job rt =
     (if job \<in> set (rt_llm rt) then
        (let output = cli_executeLLM (we_fetch E) (cf_ollamaUrl (rt_config rt)) (we_ns E)
               (the (json_field ''prompt'' (ja_payload job))) (ja_job_id job) (json_field ''max_tokens'' (ja_payload job)) in
         rt_finishJob E now isodate job output False (rt\<lparr>rt_llm := remove1 job (rt_llm rt)\<rparr>))
      else rt)"

definition rt_handleMessage :: "worker_env \<Rightarrow> int \<Rightarrow> string \<Rightarrow> worker_inbound \<Rightarrow> runtime \<Rightarrow> runtime" where
  "rt_handleMessage E now isodate m rt =
     (case m of
        WMsg (JobAssign job) \<Rightarrow> rt_handleJob E now isodate job rt
      | WNull \<Rightarrow> rt_reject (null_access ''type'') rt
      | _ \<Rightarrow> rt)"

text \<open>A message arrives: the listener of \<open>registerWorker\<close> or that of \<open>start()\<close>; neither is attached
  while the claim is pending.\<close>

definition rt_onMessage :: "worker_env \<Rightarrow> int \<Rightarrow> string \<Rightarrow> worker_inbound \<Rightarrow> runtime \<Rightarrow> runtime" where
  "rt_onMessage E now isodate m rt =
     (if rt_phase rt = PRegistering \<and> rt_ws rt then rt_registerWorker m rt
      else if rt_listening rt then rt_handleMessage E now isodate m rt
      else rt)"

definition rt_heartbeat :: "runtime \<Rightarrow> runtime" where
  "rt_heartbeat rt =
     (case rt_keypair rt of
        Some k \<Rightarrow>
          if rt_heartbeatTimer rt \<and> rt_ws rt \<and> rt_open rt then rt_send (heartbeat_msg (kp_pubkeyHex k)) rt else rt
      | None \<Rightarrow> rt)"

definition rt_onClose :: "runtime \<Rightarrow> runtime" where
  "rt_onClose rt =
     (let rt1 = rt\<lparr>rt_open := False\<rparr> in
      if rt_listening rt then rt_emit EvDisconnected (rt_setStatus RDisconnected (rt_cleanupHeartbeat rt1)) else rt1)"

definition rt_onError :: "string \<Rightarrow> runtime \<Rightarrow> runtime" where
  "rt_onError e rt = (if rt_listening rt then rt_emit (EvError e) rt else rt)"

definition rt_stop :: "runtime \<Rightarrow> runtime" where
  "rt_stop rt =
     (let rt1 = rt_cleanupHeartbeat rt;
          rt2 = (if rt_ws rt1 then rt1\<lparr>rt_listening := False, rt_open := False\<rparr> else rt1) in
      rt_setStatus RDisconnected (rt2\<lparr>rt_ws := False\<rparr>))"

text \<open>Everything that can happen to a runtime, as one input each.\<close>

datatype runtime_input =
    InStart int "key_error + KeyPair"
  | InOpen
  | InConnectFailed string
  | InRegisterTimeout
  | InMessage int string worker_inbound
  | InClaim "string + json"
  | InLlmDone int string JobAssignMsg
  | InHeartbeat
  | InClose
  | InError string
  | InStop

fun rt_input :: "worker_env \<Rightarrow> runtime_input \<Rightarrow> runtime \<Rightarrow> runtime" where
  "rt_input E (InStart now keys) rt = rt_start now keys rt"
| "rt_input E InOpen rt = rt_opened rt"
| "rt_input E (InConnectFailed e) rt = rt_connectFailed e rt"
| "rt_input E InRegisterTimeout rt = rt_registerTimeout rt"
| "rt_input E (InMessage now isodate m) rt = rt_onMessage E now isodate m rt"
| "rt_input E (InClaim r) rt = rt_claimSettled r rt"
| "rt_input E (InLlmDone now isodate job) rt = rt_llmDone E now isodate job rt"
| "rt_input E InHeartbeat rt = rt_heartbeat rt"
| "rt_input E InClose rt = rt_onClose rt"
| "rt_input E (InError e) rt = rt_onError e rt"
| "rt_input E InStop rt = rt_stop rt"

definition runtime_run :: "worker_env \<Rightarrow> runtime_input list \<Rightarrow> runtime \<Rightarrow> runtime" where
  "runtime_run E xs rt = fold (rt_input E) xs rt"

subsection \<open>Every job is completed at most once\<close>

definition completes :: "string \<Rightarrow> WorkerToCoordinator list \<Rightarrow> nat" where
  "completes j ms = length (filter (\<lambda>m. case m of JobComplete c \<Rightarrow> jc_job_id c = j | _ \<Rightarrow> False) ms)"

definition waiting :: "string \<Rightarrow> JobAssignMsg list \<Rightarrow> nat" where
  "waiting j js = length (filter (\<lambda>job. ja_job_id job = j) js)"

definition assigned :: "string \<Rightarrow> runtime_input list \<Rightarrow> nat" where
  "assigned j xs =
     length (filter (\<lambda>x. case x of InMessage _ _ (WMsg (JobAssign job)) \<Rightarrow> ja_job_id job = j | _ \<Rightarrow> False) xs)"

definition in_hand :: "string \<Rightarrow> runtime \<Rightarrow> nat" where
  "in_hand j rt = completes j (rt_sent rt) + waiting j (rt_llm rt)"

lemma completes_simps [simp]:
  "completes j [] = 0" "completes j (ms @ ns) = completes j ms + completes j ns"
  "completes j [JobComplete c] = (if jc_job_id c = j then 1 else 0)"
  "completes j [register_msg p t cs] = 0" "completes j [heartbeat_msg p] = 0"
  by (simp_all add: completes_def register_msg_def heartbeat_msg_def)

lemma waiting_simps [simp]:
  "waiting j [] = 0" "waiting j (js @ ks) = waiting j js + waiting j ks"
  "waiting j [job] = (if ja_job_id job = j then 1 else 0)"
  by (simp_all add: waiting_def)

lemma waiting_remove1: "job \<in> set js \<Longrightarrow> waiting j (remove1 job js) + (if ja_job_id job = j then 1 else 0) = waiting j js"
  by (induction js) (auto simp: waiting_def)

lemmas rt_helper_defs = rt_setStatus_def rt_emit_def rt_send_def rt_reject_def rt_cleanupHeartbeat_def
  rt_startHeartbeat_def rt_attach_def

lemma in_hand_finish: "in_hand j (rt_finishJob E now isodate job res failed rt) \<le> in_hand j rt + (if ja_job_id job = j then 1 else 0)"
  by (auto simp: rt_finishJob_def in_hand_def rt_helper_defs split: option.splits)

lemma in_hand_handleJob: "in_hand j (rt_handleJob E now isodate job rt) \<le> in_hand j rt + (if ja_job_id job = j then 1 else 0)"
proof -
  have *: "in_hand j (rt_finishJob E now isodate job res failed (rt_setStatus RWorking rt))
      \<le> in_hand j rt + (if ja_job_id job = j then 1 else 0)" for res failed
    using in_hand_finish [of j E now isodate job res failed "rt_setStatus RWorking rt"]
    by (simp add: in_hand_def rt_helper_defs)
  have "in_hand j ((rt_setStatus RWorking rt)\<lparr>rt_llm := rt_llm (rt_setStatus RWorking rt) @ [job]\<rparr>)
      \<le> in_hand j rt + (if ja_job_id job = j then 1 else 0)" by (simp add: in_hand_def rt_helper_defs)
  with * show ?thesis unfolding rt_handleJob_def Let_def by (auto split: sum.splits)
qed

lemma in_hand_llmDone: "in_hand j (rt_llmDone E now isodate job rt) \<le> in_hand j rt"
proof (cases "job \<in> set (rt_llm rt)")
  case True
  have "in_hand j (rt\<lparr>rt_llm := remove1 job (rt_llm rt)\<rparr>) + (if ja_job_id job = j then 1 else 0) = in_hand j rt"
    using waiting_remove1 [OF True, of j] by (simp add: in_hand_def)
  with True show ?thesis unfolding rt_llmDone_def Let_def
    by (simp only: if_True) (metis in_hand_finish)
qed (simp add: rt_llmDone_def)

lemma in_hand_input: "in_hand j (rt_input E x rt) \<le> in_hand j rt + assigned j [x]"
proof (cases x)
  case (InMessage now isodate m)
  show ?thesis
  proof (cases "\<exists>job. m = WMsg (JobAssign job)")
    case True
    then obtain job where "m = WMsg (JobAssign job)" by blast
    with InMessage in_hand_handleJob [of j E now isodate job rt] show ?thesis
      by (auto simp: rt_onMessage_def rt_registerWorker_def rt_handleMessage_def assigned_def)
  next
    case False
    then have "in_hand j (rt_onMessage E now isodate m rt) = in_hand j rt"
      by (auto simp: rt_onMessage_def rt_registerWorker_def rt_registered_def rt_handleMessage_def in_hand_def rt_helper_defs
          split: worker_inbound.splits CoordinatorToWorker.splits)
    with InMessage show ?thesis by simp
  qed
next
  case (InLlmDone now isodate job)
  with in_hand_llmDone [of j E now isodate job rt] show ?thesis by simp
qed (auto simp: in_hand_def rt_start_def rt_opened_def rt_connectFailed_def rt_registerTimeout_def rt_claimSettled_def
    rt_heartbeat_def rt_onClose_def rt_onError_def rt_stop_def rt_helper_defs
    split: sum.splits runtime_phase.splits option.splits)

lemma assigned_Cons: "assigned j (x # xs) = assigned j [x] + assigned j xs"
  by (simp add: assigned_def)

lemma in_hand_run: "in_hand j (runtime_run E xs rt) \<le> in_hand j rt + assigned j xs"
proof (induction xs arbitrary: rt)
  case (Cons x xs)
  have "in_hand j (runtime_run E (x # xs) rt) = in_hand j (runtime_run E xs (rt_input E x rt))"
    by (simp add: runtime_run_def)
  also have "\<dots> \<le> in_hand j (rt_input E x rt) + assigned j xs" by (rule Cons.IH)
  also have "\<dots> \<le> in_hand j rt + assigned j [x] + assigned j xs" using in_hand_input by simp
  finally show ?case by (simp only: assigned_Cons [of j x xs] add.assoc)
qed (simp add: runtime_run_def assigned_def)

subsection \<open>Completions pass the coordinator's check\<close>

lemma signed_receipt_ok:
  assumes "key_ok X K pk sk" "rejects_empty X"
  shows "\<exists>sig. k_sign K (stringify ns (receipt_json r)) sk = Some sig \<and> b64_encode sig \<noteq> [] \<and>
    verifyReceiptSignature X r (b64_encode sig) (hex_encode pk)"
proof -
  from assms(1) obtain sig where sig: "k_sign K (stringify ns (receipt_json r)) sk = Some sig"
    "x_verify X (stringify ns (receipt_json r)) sig pk = Some True" unfolding key_ok_def by blast
  then have "sig \<noteq> []" using assms(2) by (auto simp: rejects_empty_def)
  with sig show ?thesis
    by (auto simp: verifyReceiptSignature_def receipt_text_stringify [of _ ns] b64_decode_encode hex_decode_encode b64_encode_Nil)
qed

lemma unsigned_receipt_fields [simp]:
  "r_job_id (unsigned_receipt j p h t) = j" "r_output_hash (unsigned_receipt j p h t) = h"
  "r_provider_pubkey (unsigned_receipt j p h t) = p"
  by (simp_all add: unsigned_receipt_def)

lemma keypair_of_fields [simp]:
  "kp_publicKey (keypair_of pk sk) = pk" "kp_secretKey (keypair_of pk sk) = sk" "kp_pubkeyHex (keypair_of pk sk) = hex_encode pk"
  by (simp_all add: keypair_of_def)

lemma desktop_handleJob_ok:
  assumes "key_ok X (we_crypto E) pk sk" "rejects_empty X"
  shows "\<exists>msg. desktop_handleJob E isodate job (keypair_of pk sk) = Some msg \<and> complete_ok X (hex_encode pk) msg \<and>
    jc_job_id msg = ja_job_id job \<and> jc_output msg = desktop_output E job"
proof -
  let ?r = "unsigned_receipt (ja_job_id job) (hex_encode pk)
    (k_sha256 (we_crypto E) (stringify (we_ns E) (desktop_output E job))) isodate"
  show ?thesis using signed_receipt_ok [OF assms, of "we_ns E" ?r]
    by (auto simp: desktop_handleJob_def buildReceipt_def complete_ok_def)
qed

text \<open>What every message a runtime has sent satisfies, once its keys work.\<close>

definition sent_ok :: "hub_env \<Rightarrow> string \<Rightarrow> string \<Rightarrow> runtime \<Rightarrow> bool" where
  "sent_ok X pk sk rt \<longleftrightarrow>
     (\<forall>k. rt_keypair rt = Some k \<longrightarrow> k = keypair_of pk sk) \<and>
     (\<forall>msg. JobComplete msg \<in> set (rt_sent rt) \<longrightarrow> complete_ok X (hex_encode pk) msg) \<and>
     (\<forall>job \<in> set (rt_llm rt). rt_keypair rt \<noteq> None)"

lemma sent_ok_simps [simp]:
  "sent_ok X pk sk (rt_setStatus st rt) = sent_ok X pk sk rt"
  "sent_ok X pk sk (rt_emit ev rt) = sent_ok X pk sk rt"
  "sent_ok X pk sk (rt_reject e rt) = sent_ok X pk sk rt"
  "sent_ok X pk sk (rt_attach rt) = sent_ok X pk sk rt"
  "sent_ok X pk sk (rt_cleanupHeartbeat rt) = sent_ok X pk sk rt"
  "sent_ok X pk sk (rt_startHeartbeat rt) = sent_ok X pk sk rt"
  "sent_ok X pk sk (rt\<lparr>rt_jobsFailed := n\<rparr>) = sent_ok X pk sk rt"
  "sent_ok X pk sk (rt\<lparr>rt_jobsCompleted := n\<rparr>) = sent_ok X pk sk rt"
  "sent_ok X pk sk (rt\<lparr>rt_lastJobAt := t\<rparr>) = sent_ok X pk sk rt"
  "sent_ok X pk sk (rt\<lparr>rt_phase := ph\<rparr>) = sent_ok X pk sk rt"
  "sent_ok X pk sk (rt\<lparr>rt_ws := b\<rparr>) = sent_ok X pk sk rt"
  "sent_ok X pk sk (rt\<lparr>rt_open := b\<rparr>) = sent_ok X pk sk rt"
  "sent_ok X pk sk (rt\<lparr>rt_listening := b\<rparr>) = sent_ok X pk sk rt"
  "sent_ok X pk sk (rt\<lparr>rt_workerId := w\<rparr>) = sent_ok X pk sk rt"
  "sent_ok X pk sk (rt_send m rt) = (sent_ok X pk sk rt \<and> (case m of JobComplete msg \<Rightarrow> complete_ok X (hex_encode pk) msg | _ \<Rightarrow> True))"
  by (auto simp: sent_ok_def rt_helper_defs split: WorkerToCoordinator.splits)

lemma sent_ok_finish:
  assumes "key_ok X (we_crypto E) pk sk" "rejects_empty X" "sent_ok X pk sk rt" "rt_keypair rt \<noteq> None"
  shows "sent_ok X pk sk (rt_finishJob E now isodate job res failed rt)"
proof -
  let ?r = "unsigned_receipt (ja_job_id job) (hex_encode pk) (k_sha256 (we_crypto E) (stringify (we_ns E) res)) isodate"
  have k: "rt_keypair rt = Some (keypair_of pk sk)" using assms(3,4) by (auto simp: sent_ok_def)
  from signed_receipt_ok [OF assms(1,2), of "we_ns E" ?r] obtain sig where
    sig: "k_sign (we_crypto E) (stringify (we_ns E) (receipt_json ?r)) sk = Some sig" "b64_encode sig \<noteq> []"
    "verifyReceiptSignature X ?r (b64_encode sig) (hex_encode pk)" by blast
  with k assms(3) show ?thesis
    by (simp add: rt_finishJob_def cli_buildReceipt_def complete_ok_def split: if_split)
qed

lemma sent_ok_handleJob:
  assumes "key_ok X (we_crypto E) pk sk" "rejects_empty X" "sent_ok X pk sk rt"
  shows "sent_ok X pk sk (rt_handleJob E now isodate job rt)"
proof (cases "\<not> rt_ws rt \<or> rt_keypair rt = None")
  case False
  then have k: "rt_keypair (rt_setStatus RWorking rt) \<noteq> None" by (simp add: rt_helper_defs)
  have *: "sent_ok X pk sk (rt_finishJob E now isodate job res failed (rt_setStatus RWorking rt))" for res failed
    using sent_ok_finish [OF assms(1,2) _ k] assms(3) by simp
  have "sent_ok X pk sk ((rt_setStatus RWorking rt)\<lparr>rt_llm := rt_llm (rt_setStatus RWorking rt) @ [job]\<rparr>)"
    using assms(3) k by (auto simp: sent_ok_def rt_helper_defs)
  with * show ?thesis unfolding rt_handleJob_def Let_def using False assms(3) by (auto split: sum.splits)
qed (use assms(3) in \<open>auto simp: rt_handleJob_def\<close>)

lemma sent_ok_llmDone:
  assumes "key_ok X (we_crypto E) pk sk" "rejects_empty X" "sent_ok X pk sk rt"
  shows "sent_ok X pk sk (rt_llmDone E now isodate job rt)"
proof (cases "job \<in> set (rt_llm rt)")
  case True
  have ok: "sent_ok X pk sk (rt\<lparr>rt_llm := remove1 job (rt_llm rt)\<rparr>)"
    using assms(3) set_remove1_subset [of job "rt_llm rt"] by (auto simp: sent_ok_def)
  have "rt_keypair (rt\<lparr>rt_llm := remove1 job (rt_llm rt)\<rparr>) \<noteq> None"
    using True assms(3) by (auto simp: sent_ok_def)
  from sent_ok_finish [OF assms(1,2) ok this] True show ?thesis by (simp add: rt_llmDone_def)
qed (use assms(3) in \<open>simp add: rt_llmDone_def\<close>)

definition starts_with_keys :: "KeyPair \<Rightarrow> runtime_input \<Rightarrow> bool" where
  "starts_with_keys k x = (case x of InStart _ (Inr k') \<Rightarrow> k' = k | _ \<Rightarrow> True)"

lemma sent_ok_input:
  assumes "key_ok X (we_crypto E) pk sk" "rejects_empty X" "sent_ok X pk sk rt" "starts_with_keys (keypair_of pk sk) x"
  shows "sent_ok X pk sk (rt_input E x rt)"
proof (cases x)
  case (InStart now keys)
  then show ?thesis using assms(3,4)
    by (cases keys) (auto simp: starts_with_keys_def rt_start_def, auto simp: sent_ok_def)
next
  case (InMessage now isodate m)
  then show ?thesis using assms(3) sent_ok_handleJob [OF assms(1-3)]
    by (auto simp: rt_onMessage_def rt_registerWorker_def rt_registered_def rt_handleMessage_def
        split: worker_inbound.split CoordinatorToWorker.split)
next
  case (InLlmDone now isodate job)
  with sent_ok_llmDone [OF assms(1-3)] show ?thesis by simp
qed (use assms(3) in \<open>auto simp: rt_opened_def rt_connectFailed_def
    rt_registerTimeout_def rt_claimSettled_def rt_heartbeat_def rt_onClose_def rt_onError_def rt_stop_def
    register_msg_def heartbeat_msg_def split: sum.split runtime_phase.split option.split\<close>)

lemma sent_ok_run:
  assumes "key_ok X (we_crypto E) pk sk" "rejects_empty X" "sent_ok X pk sk rt" "list_all (starts_with_keys (keypair_of pk sk)) xs"
  shows "sent_ok X pk sk (runtime_run E xs rt)"
  using assms(3,4) by (induction xs arbitrary: rt) (simp_all add: runtime_run_def sent_ok_input [OF assms(1,2)])

subsection \<open>Main properties\<close>

text \<open>Concrete values for the examples below: a verifier for the key pair \<open>(''p'', ''s'')\<close>.\<close>

definition demo_sign_env :: hub_env where
  "demo_sign_env = \<lparr>x_verify = \<lambda>m sig pk. Some (sig = ''s'' @ m), x_pkError = \<lambda>_. None\<rparr>"

definition demo_env :: worker_env where
  "demo_env = \<lparr>we_fetch = \<lambda>_ _. NetError [], we_ollamaBase = None, we_ollamaModel = None, we_ns = \<lambda>_. ''0'',
     we_crypto = demo_crypto\<rparr>"

lemma demo_key_ok: "key_ok demo_sign_env (we_crypto demo_env) pk ''s''" "rejects_empty demo_sign_env"
  by (simp_all add: key_ok_def rejects_empty_def demo_sign_env_def demo_crypto_def demo_env_def)

text \<open>C23. A desktop worker's completion is accepted. With a key pair whose signatures the
  coordinator's verifier accepts, \<open>handleJob\<close> produces a completion for every job, whatever its
  payload; when the coordinator holds that worker as the one running the job, it stores the job as
  completed with the worker's output and files exactly one receipt, for that job, marked verified. A
  payload the worker cannot run is no exception: its error object is the stored result.\<close>

theorem desktop_completion_accepted:
  assumes "key_ok X (we_crypto E) pk sk" and "rejects_empty X"
    and "findByActiveJob (ja_job_id job) h = Some w" and "w_pubkey w = hex_encode pk"
    and "select_job (ja_job_id job) (h_db h) = Some row" and "\<not> is_demo (ja_job_id job)"
    and "uuid \<notin> rr_id ` set (db_receipts (h_db h))"
  shows "\<exists>msg h' receipt. desktop_handleJob E isodate job (keypair_of pk sk) = Some msg \<and>
    handleJobComplete X now uuid msg h = Inr h' \<and>
    select_job (ja_job_id job) (h_db h') =
      Some (row\<lparr>j_status := COMPLETED, j_result := Some (desktop_output E job), j_completed_at := Some (now div 1000)\<rparr>) \<and>
    db_receipts (h_db h') = db_receipts (h_db h) @ [receipt] \<and>
    rr_verified receipt \<and> rr_job_id receipt = ja_job_id job \<and> rr_provider_pubkey receipt = hex_encode pk"
proof -
  obtain msg where msg: "desktop_handleJob E isodate job (keypair_of pk sk) = Some msg"
    "complete_ok X (hex_encode pk) msg" "jc_job_id msg = ja_job_id job" "jc_output msg = desktop_output E job"
    using desktop_handleJob_ok [OF assms(1,2)] by blast
  then obtain r sig where r: "jc_receipt msg = Some r" "jc_receipt_signature msg = Some sig" "sig \<noteq> []"
    "r_job_id r = ja_job_id job" "r_provider_pubkey r = hex_encode pk" "verifyReceiptSignature X r sig (hex_encode pk)"
    unfolding complete_ok_def by auto
  have "r_job_id r \<in> j_id ` set (db_jobs (h_db h))" using select_job_Some [OF assms(5)] r(4) by (metis image_eqI)
  with complete_stores_receipt [of msg h w r sig uuid X now] assms msg r show ?thesis by auto
qed

definition demo_job :: JobAssignMsg where
  "demo_job = \<lparr>ja_job_id = ''j'', ja_job_type = TASK, ja_payload = JObj [], ja_policy = CHEAP, ja_privacy_class = PUBLIC,
     ja_user_id = ''u''\<rparr>"

definition demo_task_row :: job_row where
  "demo_task_row = \<lparr>j_id = ''j'', j_type = TASK, j_policy = CHEAP, j_privacy_class = PUBLIC, j_user_id = ''u'', j_status = RUNNING,
     j_payload = JObj [], j_result = None, j_worker_pubkey = Some ''70'', j_created_at = 0, j_completed_at = None\<rparr>"

theorem desktop_completion_accepted_witness:
  "let h = demo_hub\<lparr>h_workers := [(''u1'', demo_worker\<lparr>w_pubkey := hex_encode ''p'', w_activeJobId := Some ''j''\<rparr>)],
             h_db := (createDb None)\<lparr>db_jobs := [demo_task_row]\<rparr>\<rparr> in
   \<exists>msg h' receipt. desktop_handleJob demo_env ''t'' demo_job (keypair_of ''p'' ''s'') = Some msg \<and>
     handleJobComplete demo_sign_env 5000 ''r'' msg h = Inr h' \<and>
     select_job ''j'' (h_db h') = Some (demo_task_row\<lparr>j_status := COMPLETED,
       j_result := Some (JObj [(''error'', JStr ''Unsupported job payload'')]), j_completed_at := Some 5\<rparr>) \<and>
     db_receipts (h_db h') = [receipt] \<and> rr_verified receipt \<and> rr_job_id receipt = ''j'' \<and>
     rr_provider_pubkey receipt = hex_encode ''p''"
proof -
  let ?w = "demo_worker\<lparr>w_pubkey := hex_encode ''p'', w_activeJobId := Some ''j''\<rparr>"
  let ?h = "demo_hub\<lparr>h_workers := [(''u1'', ?w)], h_db := (createDb None)\<lparr>db_jobs := [demo_task_row]\<rparr>\<rparr>"
  have "findByActiveJob (ja_job_id demo_job) ?h = Some ?w" by (simp add: findByActiveJob_def demo_job_def)
  moreover have "select_job (ja_job_id demo_job) (h_db ?h) = Some demo_task_row"
    by (simp add: select_job_def demo_job_def demo_task_row_def)
  moreover have "\<not> is_demo (ja_job_id demo_job)" by (simp add: is_demo_def startsWith_def demo_job_def)
  moreover have "desktop_output demo_env demo_job = JObj [(''error'', JStr ''Unsupported job payload'')]"
    by (simp add: desktop_output_def demo_job_def field_truthy_def json_field_def error_output_def)
  ultimately show ?thesis
    using desktop_completion_accepted [OF demo_key_ok, of demo_job ?h ?w "''p''" demo_task_row "''r''" "''t''" 5000]
    by (simp add: demo_job_def createDb_def)
qed

text \<open>C24. The command line worker completes every job at most once, and honestly. Whatever
  happens to a runtime whose key pair works (messages, timers, errors, restarts, in any order), it has
  sent at most as many completions of a job as the coordinator has sent assignments of it, the jobs still
  waiting for the language model included, and every completion it sent passes the coordinator's check
  under the key it registered with.\<close>

theorem runtime_completes_once:
  assumes "key_ok X (we_crypto E) pk sk" and "rejects_empty X"
    and "list_all (starts_with_keys (keypair_of pk sk)) xs"
  shows "let rt = runtime_run E xs (runtime_new cfg) in
    completes j (rt_sent rt) + waiting j (rt_llm rt) \<le> assigned j xs \<and>
    (\<forall>msg. JobComplete msg \<in> set (rt_sent rt) \<longrightarrow> complete_ok X (hex_encode pk) msg)"
proof -
  have "sent_ok X pk sk (runtime_new cfg)" by (simp add: sent_ok_def runtime_new_def)
  from sent_ok_run [OF assms(1,2) this assms(3)]
  have "sent_ok X pk sk (runtime_run E xs (runtime_new cfg))" .
  moreover have "in_hand j (runtime_new cfg) = 0" by (simp add: in_hand_def runtime_new_def)
  ultimately show ?thesis using in_hand_run [of j E xs "runtime_new cfg"] by (simp add: sent_ok_def in_hand_def)
qed

definition demo_config :: runtime_config where
  "demo_config = \<lparr>cf_coordinatorUrl = ''ws://c'', cf_capabilities = [TASK], cf_ollamaUrl = None, cf_keyPath = ''k'',
     cf_trustPairingCode = None\<rparr>"

definition demo_inputs :: "runtime_input list" where
  "demo_inputs = [InStart 0 (Inr (keypair_of ''p'' ''s'')), InOpen, InMessage 1 ''t'' (WMsg (RegisterAck ''w'')),
     InMessage 2 ''t'' (WMsg (JobAssign demo_job))]"

theorem runtime_completes_once_witness:
  "completes ''j'' (rt_sent (runtime_run demo_env demo_inputs (runtime_new demo_config))) \<le> 1"
proof -
  have "list_all (starts_with_keys (keypair_of ''p'' ''s'')) demo_inputs"
    by (simp add: demo_inputs_def starts_with_keys_def)
  moreover have "assigned ''j'' demo_inputs = 1" by (simp add: assigned_def demo_inputs_def demo_job_def)
  ultimately show ?thesis using runtime_completes_once [OF demo_key_ok, of "''p''" demo_inputs demo_config "''j''"] by simp
qed

text \<open>C25. A job that arrives while a worker claims trust is lost. A runtime started with a pairing
  code attaches its message listener only after the claim has settled, so a job assigned right after the
  acknowledgement is never completed, whatever follows, unless the coordinator sends it again; started
  without a code, the same task is completed at once.\<close>

theorem claim_window_loses_job:
  assumes "key_ok X (we_crypto E) pk sk" and "rejects_empty X" and "workerId \<noteq> []" and "ja_job_type job = TASK"
    and "assigned (ja_job_id job) ys = 0"
  shows "let start = [InStart t0 (Inr (keypair_of pk sk)), InOpen, InMessage t1 d1 (WMsg (RegisterAck workerId)),
                      InMessage t2 d2 (WMsg (JobAssign job))];
             done_in = (\<lambda>xs. completes (ja_job_id job) (rt_sent (runtime_run E xs (runtime_new cfg)))) in
    if str_truthy (cf_trustPairingCode cfg) then done_in (start @ ys) = 0 else done_in start = 1"
proof (cases "str_truthy (cf_trustPairingCode cfg)")
  case True
  let ?start = "[InStart t0 (Inr (keypair_of pk sk)), InOpen, InMessage t1 d1 (WMsg (RegisterAck workerId)),
      InMessage t2 d2 (WMsg (JobAssign job))]"
  have "in_hand (ja_job_id job) (runtime_run E ?start (runtime_new cfg)) = 0"
    using assms(3) True by (simp add: runtime_run_def in_hand_def runtime_new_def rt_start_def rt_opened_def rt_onMessage_def
        rt_registerWorker_def rt_registered_def rt_helper_defs)
  with in_hand_run [of "ja_job_id job" E ys "runtime_run E ?start (runtime_new cfg)"] assms(5) True
  show ?thesis by (simp add: runtime_run_def in_hand_def)
next
  case False
  have sign: "\<exists>sig. k_sign (we_crypto E) m sk = Some sig" for m using assms(1) unfolding key_ok_def by blast
  have "completes (ja_job_id job) (rt_sent (rt_finishJob E t2 d2 job res failed rt)) = completes (ja_job_id job) (rt_sent rt) + 1"
    if "rt_keypair rt = Some (keypair_of pk sk)" "rt_ws rt" "rt_open rt" for res failed rt
    using that sign [of "stringify (we_ns E) (receipt_json (unsigned_receipt (ja_job_id job) (hex_encode pk)
      (k_sha256 (we_crypto E) (stringify (we_ns E) res)) d2))"]
    by (auto simp: rt_finishJob_def cli_buildReceipt_def rt_helper_defs)
  then show ?thesis
    using False assms(3,4) by (simp add: runtime_run_def runtime_new_def rt_start_def rt_opened_def rt_onMessage_def
        rt_registerWorker_def rt_registered_def rt_handleMessage_def rt_handleJob_def rt_helper_defs split: sum.split)
qed

theorem claim_window_loses_job_witness:
  "completes ''j'' (rt_sent (runtime_run demo_env demo_inputs (runtime_new (demo_config\<lparr>cf_trustPairingCode := Some ''c''\<rparr>)))) = 0 \<and>
   completes ''j'' (rt_sent (runtime_run demo_env demo_inputs (runtime_new demo_config))) = 1"
proof -
  have a: "assigned (ja_job_id demo_job) [] = 0" by (simp add: assigned_def)
  have "''w'' \<noteq> []" "ja_job_type demo_job = TASK" by (simp_all add: demo_job_def)
  note * = claim_window_loses_job [OF demo_key_ok this a, of 0 "''p''" 1 "''t''" 2 "''t''"]
  show ?thesis using * [of "demo_config\<lparr>cf_trustPairingCode := Some ''c''\<rparr>"] * [of demo_config]
    by (simp add: demo_inputs_def demo_config_def demo_job_def str_truthy_def)
qed

end
