(* ===== verification/MobileWs.thy ===== *)
theory MobileWs
  imports Workers
begin

section \<open>Mobile worker: \<open>WebSocketService\<close>\<close>

text \<open>
  \<open>mobile/seeker-solana/src/services/WebSocketService.ts\<close> and the message constructors of
  \<open>protocol.ts\<close>. The service is a record; each method, each handler of a socket and each timer is
  a function on it.

  Sockets are numbered in the order they are created: \<open>ms_ws\<close> is \<open>this.ws\<close>, and a socket keeps
  its handlers until \<open>cleanup\<close> takes them off, also when \<open>this.ws\<close> has moved on. Pending
  \<open>setTimeout\<close> calls are listed with their delay. Jobs of the history are objects shared with the
  user interface, so they live in a heap (\<open>ms_heap\<close>) and the history is a list of addresses.
  Events go to \<open>ms_events\<close> in the order they are emitted. \<open>connect()\<close> and
  \<open>handleJobAssign\<close> wait for the signing provider; the work they wait for is in
  \<open>ms_connects\<close> and \<open>ms_pending\<close>.
\<close>

datatype ConnectionStatus = Disconnected | Connecting | Connected | Reconnecting

datatype signer = SDevice | SWallet

datatype ready_state = SockConnecting | SockOpen | SockClosing | SockClosed

record CompletedJob =
  cj_jobId :: string
  cj_taskType :: json
  cj_prompt :: "json option"
  cj_timestamp :: int
  cj_durationMs :: int
  cj_success :: bool
  cj_error :: "string option"
  cj_feedbackTxHash :: "string option"
  cj_feedbackExplorerUrl :: "string option"
  cj_feedbackNetwork :: "string option"
  cj_paymentTxHash :: "string option"
  cj_paymentExplorerUrl :: "string option"
  cj_paymentAmount :: "string option"
  cj_feedbackFailed :: "bool option"
  cj_paymentFailed :: "bool option"

datatype mobile_event =
    MStatusChange ConnectionStatus
  | MJobCompleted nat \<comment> \<open>address of the job\<close>
  | MJobReceived string
  | MError string
  | MRegistered string
  | MEarnings rat
  | MFeedbackPosted string string string string
  | MPaymentPosted "string list" string rat string

record socket =
  so_ready :: ready_state
  so_handlers :: bool
  so_sent :: "WorkerToCoordinator list"

text \<open>A job between its execution and its signature.\<close>

record pending_job =
  pj_job :: JobAssignMsg
  pj_output :: json
  pj_success :: bool
  pj_error :: "string option"
  pj_durationMs :: int
  pj_signer :: "signer option"
  pj_keys :: KeyPair

record mobile =
  ms_ws :: "nat option"
  ms_sockets :: "socket list"
  ms_keys :: "KeyPair option"
  ms_workerId :: "string option"
  ms_heartbeat :: bool
  ms_timers :: "(nat \<times> nat) list" \<comment> \<open>pending reconnect timers: handle, delay\<close>
  ms_reconnectTimeout :: "nat option"
  ms_nextTimer :: nat
  ms_attempts :: nat
  ms_signingProvider :: "signer option"
  ms_device :: device_provider
  ms_mwa :: mwa_provider
  ms_coordinatorUrl :: string
  ms_status :: ConnectionStatus
  ms_heap :: "CompletedJob list"
  ms_history :: "nat list"
  ms_totalEarnings :: rat
  ms_shouldReconnect :: bool
  ms_events :: "mobile_event list"
  ms_connects :: "signer option list"
  ms_pending :: "pending_job list"

text \<open>
  What the service uses of its environment: number printer, cryptography, wallet app, the exception
  the \<open>WebSocket\<close> constructor throws for a URL (if it does), and the text of an exception of a
  signing provider.
\<close>

record mobile_env =
  me_ns :: "rat \<Rightarrow> string"
  me_crypto :: crypto
  me_wallet :: wallet
  me_wsError :: "string \<Rightarrow> string option"
  me_errText :: "key_error \<Rightarrow> string"

definition mobile_new :: "device_provider \<Rightarrow> mwa_provider \<Rightarrow> mobile" where
  "mobile_new dev mwa =
     \<lparr>ms_ws = None, ms_sockets = [], ms_keys = None, ms_workerId = None, ms_heartbeat = False, ms_timers = [],
      ms_reconnectTimeout = None, ms_nextTimer = 0, ms_attempts = 0, ms_signingProvider = None, ms_device = dev,
      ms_mwa = mwa, ms_coordinatorUrl = ''ws://localhost:4020'', ms_status = Disconnected, ms_heap = [], ms_history = [],
      ms_totalEarnings = 0, ms_shouldReconnect = False, ms_events = [], ms_connects = [], ms_pending = []\<rparr>"

definition TASK_PRICE_BOLT :: rat where "TASK_PRICE_BOLT = 1 / 1000"

definition maxReconnectDelay :: nat where "maxReconnectDelay = 30000"

subsection \<open>Message constructors\<close>

definition createRegisterMsg :: "string \<Rightarrow> JobType list \<Rightarrow> WorkerToCoordinator" where
  "createRegisterMsg pubkey capabilities =
     Register \<lparr>reg_provider_pubkey = pubkey, reg_provider_type = SEEKER, reg_capabilities = capabilities,
               reg_pricing_hint = None\<rparr>"

definition createHeartbeatMsg :: "string \<Rightarrow> WorkerToCoordinator" where
  "createHeartbeatMsg pubkey = Heartbeat \<lparr>hb_provider_pubkey = pubkey, hb_metrics = None\<rparr>"

definition createJobRejectMsg :: "string \<Rightarrow> string \<Rightarrow> WorkerToCoordinator" where
  "createJobRejectMsg jobId reason = JobReject \<lparr>jr_job_id = jobId, jr_reason = reason\<rparr>"

subsection \<open>Helpers\<close>

definition ms_emit :: "mobile_event \<Rightarrow> mobile \<Rightarrow> mobile" where
  "ms_emit ev s = s\<lparr>ms_events := ms_events s @ [ev]\<rparr>"

definition ms_setStatus :: "ConnectionStatus \<Rightarrow> mobile \<Rightarrow> mobile" where
  "ms_setStatus st s = (if ms_status s \<noteq> st then ms_emit (MStatusChange st) (s\<lparr>ms_status := st\<rparr>) else s)"

definition socket_update :: "nat \<Rightarrow> (socket \<Rightarrow> socket) \<Rightarrow> mobile \<Rightarrow> mobile" where
  "socket_update i f s =
     (if i < length (ms_sockets s) then s\<lparr>ms_sockets := (ms_sockets s)[i := f (ms_sockets s ! i)]\<rparr> else s)"

definition ws_is_open :: "mobile \<Rightarrow> bool" where
  "ws_is_open s =
     (case ms_ws s of Some i \<Rightarrow> i < length (ms_sockets s) \<and> so_ready (ms_sockets s ! i) = SockOpen | None \<Rightarrow> False)"

definition ms_send :: "WorkerToCoordinator \<Rightarrow> mobile \<Rightarrow> mobile" where
  "ms_send msg s =
     (case ms_ws s of
        Some i \<Rightarrow> if ws_is_open s then socket_update i (\<lambda>so. so\<lparr>so_sent := so_sent so @ [msg]\<rparr>) s else s
      | None \<Rightarrow> s)"

definition ms_stopHeartbeat :: "mobile \<Rightarrow> mobile" where
  "ms_stopHeartbeat s = s\<lparr>ms_heartbeat := False\<rparr>"

definition ms_startHeartbeat :: "mobile \<Rightarrow> mobile" where
  "ms_startHeartbeat s = (ms_stopHeartbeat s)\<lparr>ms_heartbeat := True\<rparr>"

text \<open>The callback of the heartbeat interval.\<close>

definition ms_heartbeatTick :: "mobile \<Rightarrow> mobile" where
  "ms_heartbeatTick s =
     (if \<not> ms_heartbeat s then s
      else case ms_keys s of
        None \<Rightarrow> s
      | Some keys \<Rightarrow> if ws_is_open s then ms_send (createHeartbeatMsg (kp_pubkeyHex keys)) s else s)"

definition reconnect_delay :: "nat \<Rightarrow> nat" where
  "reconnect_delay attempts = min (1000 * 2 ^ attempts) maxReconnectDelay"

definition ms_scheduleReconnect :: "mobile \<Rightarrow> mobile" where
  "ms_scheduleReconnect s =
     (if \<not> ms_shouldReconnect s then s
      else s\<lparr>ms_attempts := ms_attempts s + 1,
             ms_timers := ms_timers s @ [(ms_nextTimer s, reconnect_delay (ms_attempts s))],
             ms_reconnectTimeout := Some (ms_nextTimer s), ms_nextTimer := ms_nextTimer s + 1\<rparr>)"

definition socket_close :: "socket \<Rightarrow> socket" where
  "socket_close so = (if so_ready so \<in> {SockOpen, SockConnecting} then so\<lparr>so_ready := SockClosing\<rparr> else so)"

definition ms_cleanup :: "mobile \<Rightarrow> mobile" where
  "ms_cleanup s =
     (let s1 = ms_stopHeartbeat s;
          s2 = (case ms_reconnectTimeout s1 of
                  Some h \<Rightarrow> s1\<lparr>ms_timers := filter (\<lambda>(k, _). k \<noteq> h) (ms_timers s1), ms_reconnectTimeout := None\<rparr>
                | None \<Rightarrow> s1);
          s3 = (case ms_ws s2 of
                  Some i \<Rightarrow> (socket_update i (\<lambda>so. socket_close (so\<lparr>so_handlers := False\<rparr>)) s2)\<lparr>ms_ws := None\<rparr>
                | None \<Rightarrow> s2) in
      s3\<lparr>ms_workerId := None\<rparr>)"

subsection \<open>Connecting\<close>

definition ms_doConnect :: "mobile_env \<Rightarrow> mobile \<Rightarrow> mobile" where
  "ms_doConnect E s =
     (if ms_keys s = None then s
      else
        (let s1 = ms_setStatus Connecting s in
         case me_wsError E (ms_coordinatorUrl s1) of
           Some e \<Rightarrow> ms_scheduleReconnect (ms_emit (MError (''WebSocket creation failed: '' @ e)) s1)
         | None \<Rightarrow>
             s1\<lparr>ms_ws := Some (length (ms_sockets s1)),
                ms_sockets := ms_sockets s1 @ [\<lparr>so_ready = SockConnecting, so_handlers = True, so_sent = []\<rparr>]\<rparr>))"

text \<open>\<open>connect()\<close> up to its first \<open>await\<close>.\<close>

definition ms_connect :: "mobile \<Rightarrow> mobile" where
  "ms_connect s =
     (if ms_status s \<in> {Connected, Connecting} then s
      else s\<lparr>ms_shouldReconnect := True, ms_attempts := 0, ms_connects := ms_connects s @ [ms_signingProvider s]\<rparr>)"

text \<open>The methods of a signing provider, on the state that holds both providers.\<close>

definition provider_connect :: "mobile_env \<Rightarrow> string \<Rightarrow> signer \<Rightarrow> (mobile, unit) provider_op" where
  "provider_connect E seed sg s =
     (case sg of
        SDevice \<Rightarrow> (case device_connect (me_crypto E) (me_ns E) seed (ms_device s) of (r, p) \<Rightarrow> (r, s\<lparr>ms_device := p\<rparr>))
      | SWallet \<Rightarrow> (case mwa_connect (me_wallet E) (ms_mwa s) of (r, p) \<Rightarrow> (r, s\<lparr>ms_mwa := p\<rparr>)))"

definition provider_getPublicKeyHex :: "mobile_env \<Rightarrow> string \<Rightarrow> signer \<Rightarrow> (mobile, string) provider_op" where
  "provider_getPublicKeyHex E seed sg s =
     (case sg of
        SDevice \<Rightarrow> (case device_getPublicKeyHex (me_crypto E) (me_ns E) seed (ms_device s) of (r, p) \<Rightarrow> (r, s\<lparr>ms_device := p\<rparr>))
      | SWallet \<Rightarrow> (case mwa_getPublicKeyHex (ms_mwa s) of (r, p) \<Rightarrow> (r, s\<lparr>ms_mwa := p\<rparr>)))"

definition provider_signMessage :: "mobile_env \<Rightarrow> string \<Rightarrow> signer \<Rightarrow> string \<Rightarrow> (mobile, string) provider_op" where
  "provider_signMessage E seed sg msg s =
     (case sg of
        SDevice \<Rightarrow> (case device_signMessage (me_crypto E) (me_ns E) seed msg (ms_device s) of (r, p) \<Rightarrow> (r, s\<lparr>ms_device := p\<rparr>))
      | SWallet \<Rightarrow> (case mwa_signMessage (me_wallet E) msg (ms_mwa s) of (r, p) \<Rightarrow> (r, s\<lparr>ms_mwa := p\<rparr>)))"

text \<open>The rest of \<open>connect()\<close>, for a call that started with the given provider; after
  \<open>connect\<close> of the provider it reads \<open>this._signingProvider\<close> again.\<close>

definition ms_connectProvider :: "mobile_env \<Rightarrow> string \<Rightarrow> signer \<Rightarrow> mobile \<Rightarrow> (key_error + string) \<times> mobile" where
  "ms_connectProvider E seed sg s =
     (case provider_connect E seed sg s of
        (Inl e, s1) \<Rightarrow> (Inl e, s1)
      | (Inr _, s1) \<Rightarrow>
          (case ms_signingProvider s1 of
             None \<Rightarrow> (Inl (WalletError (null_access ''getPublicKeyHex'')), s1)
           | Some sg' \<Rightarrow> provider_getPublicKeyHex E seed sg' s1))"

definition ms_connectDone :: "mobile_env \<Rightarrow> string \<Rightarrow> signer option \<Rightarrow> mobile \<Rightarrow> mobile" where
  "ms_connectDone E seed start s =
     (if start \<notin> set (ms_connects s) then s
      else
        (let s1 = s\<lparr>ms_connects := remove1 start (ms_connects s)\<rparr> in
         case start of
           Some sg \<Rightarrow>
             (case ms_connectProvider E seed sg s1 of
                (Inr pubkeyHex, s2) \<Rightarrow>
                  ms_doConnect E (s2\<lparr>ms_keys := Some \<lparr>kp_publicKey = [], kp_secretKey = [], kp_pubkeyHex = pubkeyHex\<rparr>\<rparr>)
              | (Inl e, s2) \<Rightarrow> ms_emit (MError (''Signing provider failed: '' @ me_errText E e)) s2)
         | None \<Rightarrow>
             (case getOrCreateKeypair (me_crypto E) (me_ns E) seed (dp_store (ms_device s1)) of
                Inr (k, st) \<Rightarrow> ms_doConnect E (s1\<lparr>ms_keys := Some k, ms_device := (ms_device s1)\<lparr>dp_store := st\<rparr>\<rparr>)
              | Inl e \<Rightarrow> ms_emit (MError (''Failed to load keypair: '' @ me_errText E e)) s1)))"

definition ms_disconnect :: "mobile \<Rightarrow> mobile" where
  "ms_disconnect s = ms_setStatus Disconnected (ms_cleanup (s\<lparr>ms_shouldReconnect := False\<rparr>))"

definition ms_setCoordinatorUrl :: "string \<Rightarrow> mobile \<Rightarrow> mobile" where
  "ms_setCoordinatorUrl url s = s\<lparr>ms_coordinatorUrl := url\<rparr>"

definition ms_setSigningProvider :: "signer option \<Rightarrow> mobile \<Rightarrow> mobile" where
  "ms_setSigningProvider p s = s\<lparr>ms_signingProvider := p\<rparr>"

definition ms_setEarnings :: "rat \<Rightarrow> mobile \<Rightarrow> mobile" where
  "ms_setEarnings amount s = s\<lparr>ms_totalEarnings := amount\<rparr>"

text \<open>The jobs of the restored history are new objects.\<close>

definition ms_setJobHistory :: "CompletedJob list \<Rightarrow> mobile \<Rightarrow> mobile" where
  "ms_setJobHistory jobs s =
     s\<lparr>ms_heap := ms_heap s @ jobs, ms_history := map (\<lambda>i. length (ms_heap s) + i) [0..<length jobs]\<rparr>"

subsection \<open>Messages from the coordinator\<close>

definition ms_handleRegisterAck :: "string option \<Rightarrow> string option \<Rightarrow> mobile \<Rightarrow> mobile" where
  "ms_handleRegisterAck workerId err s =
     (if str_truthy workerId then
        ms_emit (MRegistered (the workerId)) (ms_startHeartbeat (ms_setStatus Connected (s\<lparr>ms_workerId := workerId\<rparr>)))
      else
        (let s1 = ms_emit (MError (''Registration failed: '' @ (case err of Some e \<Rightarrow> e | None \<Rightarrow> ''unknown''))) s in
         case ms_ws s1 of Some i \<Rightarrow> socket_update i socket_close s1 | None \<Rightarrow> s1))"

text \<open>\<open>handleJobAssign\<close> up to the signature. A payload that is \<open>null\<close> makes the \<open>try\<close> block throw
  when the job is a task.\<close>

definition ms_execute :: "mobile_env \<Rightarrow> JobAssignMsg \<Rightarrow> (string + json) option" where
  "ms_execute E msg =
     (if ja_job_type msg \<noteq> TASK then None
      else if ja_payload msg = JNull then Some (Inl (null_access ''task_type''))
      else if field_truthy ''task_type'' (ja_payload msg) \<and> field_truthy ''input'' (ja_payload msg) then
        Some (mobile_executeTask (me_ns E) (the (json_field ''task_type'' (ja_payload msg)))
               (the (json_field ''input'' (ja_payload msg))))
      else None)"

definition ms_handleJobAssign :: "mobile_env \<Rightarrow> int \<Rightarrow> JobAssignMsg \<Rightarrow> mobile \<Rightarrow> mobile" where
  "ms_handleJobAssign E durationMs msg s =
     (case ms_keys s of
        None \<Rightarrow> s
      | Some keys \<Rightarrow>
          (let s1 = ms_emit (MJobReceived (ja_job_id msg)) s;
               pend = (\<lambda>output success err. s1\<lparr>ms_pending := ms_pending s1 @
                 [\<lparr>pj_job = msg, pj_output = output, pj_success = success, pj_error = err, pj_durationMs = durationMs,
                   pj_signer = ms_signingProvider s1, pj_keys = keys\<rparr>]\<rparr>) in
           case ms_execute E msg of
             None \<Rightarrow> ms_send (createJobRejectMsg (ja_job_id msg) ''SEEKER worker does not support LLM_INFER jobs'') s1
           | Some (Inr output) \<Rightarrow> pend output True None
           | Some (Inl e) \<Rightarrow> pend (error_output e) False (Some e)))"

text \<open>The signature of a pending job, or the reason it failed.\<close>

definition ms_sign :: "mobile_env \<Rightarrow> string \<Rightarrow> string \<Rightarrow> pending_job \<Rightarrow> (mobile, JobCompleteMsg) provider_op" where
  "ms_sign E seed isodate pj s =
     (case pj_signer pj of
        Some sg \<Rightarrow>
          buildJobCompleteWithProvider (provider_getPublicKeyHex E seed sg) (provider_signMessage E seed sg)
            (me_crypto E) (me_ns E) isodate (ja_job_id (pj_job pj)) (pj_output pj) s
      | None \<Rightarrow>
          (case buildJobCompleteWithReceipt (me_crypto E) (me_ns E) isodate (ja_job_id (pj_job pj)) (pj_output pj)
                  (kp_pubkeyHex (pj_keys pj)) (kp_secretKey (pj_keys pj)) of
             Some msg \<Rightarrow> (Inr msg, s)
           | None \<Rightarrow> (Inl (NaclError ''bad secret key size''), s)))"

text \<open>Tracking a finished job. With a payload \<open>null\<close> the history entry cannot be built, and the
  promise is rejected after the message was sent.\<close>

definition ms_track :: "int \<Rightarrow> pending_job \<Rightarrow> bool \<Rightarrow> string option \<Rightarrow> mobile \<Rightarrow> mobile" where
  "ms_track now pj success err s =
     (let payload = ja_payload (pj_job pj) in
      if payload = JNull then s
      else
        (let completedJob =
               \<lparr>cj_jobId = ja_job_id (pj_job pj),
                cj_taskType = (case json_field ''task_type'' payload of
                                 Some v \<Rightarrow> if v = JNull then JStr (jobtype_string (ja_job_type (pj_job pj))) else v
                               | None \<Rightarrow> JStr (jobtype_string (ja_job_type (pj_job pj)))),
                cj_prompt = json_field ''input'' payload, cj_timestamp = now, cj_durationMs = pj_durationMs pj,
                cj_success = success, cj_error = err, cj_feedbackTxHash = None, cj_feedbackExplorerUrl = None,
                cj_feedbackNetwork = None, cj_paymentTxHash = None, cj_paymentExplorerUrl = None,
                cj_paymentAmount = None, cj_feedbackFailed = None, cj_paymentFailed = None\<rparr>;
             a = length (ms_heap s);
             s1 = s\<lparr>ms_heap := ms_heap s @ [completedJob], ms_history := take 50 (a # ms_history s)\<rparr>;
             s2 = (if success then
                     ms_emit (MEarnings (ms_totalEarnings s1 + TASK_PRICE_BOLT))
                       (s1\<lparr>ms_totalEarnings := ms_totalEarnings s1 + TASK_PRICE_BOLT\<rparr>)
                   else s1) in
         ms_emit (MJobCompleted a) s2))"

definition ms_jobSigned :: "mobile_env \<Rightarrow> string \<Rightarrow> string \<Rightarrow> int \<Rightarrow> pending_job \<Rightarrow> mobile \<Rightarrow> mobile" where
  "ms_jobSigned E seed isodate now pj s =
     (if pj \<notin> set (ms_pending s) then s
      else
        (case ms_sign E seed isodate pj (s\<lparr>ms_pending := remove1 pj (ms_pending s)\<rparr>) of
           (Inr msg, s1) \<Rightarrow> ms_track now pj (pj_success pj) (pj_error pj) (ms_send (JobComplete msg) s1)
         | (Inl e, s1) \<Rightarrow> ms_track now pj False (Some (''Receipt signing failed: '' @ me_errText E e)) s1))"

definition ms_handleError :: "string \<Rightarrow> string \<Rightarrow> mobile \<Rightarrow> mobile" where
  "ms_handleError code msg s = ms_emit (MError (''['' @ code @ ''] '' @ msg)) s"

definition find_job :: "string \<Rightarrow> mobile \<Rightarrow> nat option" where
  "find_job jobId s = List.find (\<lambda>a. cj_jobId (ms_heap s ! a) = jobId) (ms_history s)"

text \<open>Assign fields of the job in the history, and emit \<open>jobCompleted\<close> with it.\<close>

definition update_job_entry :: "(CompletedJob \<Rightarrow> CompletedJob) \<Rightarrow> string \<Rightarrow> mobile \<Rightarrow> mobile" where
  "update_job_entry f jobId s =
     (case find_job jobId s of
        Some a \<Rightarrow> ms_emit (MJobCompleted a) (s\<lparr>ms_heap := (ms_heap s)[a := f (ms_heap s ! a)]\<rparr>)
      | None \<Rightarrow> s)"

definition ms_handleFeedbackPosted :: "string \<Rightarrow> string \<Rightarrow> string \<Rightarrow> string \<Rightarrow> mobile \<Rightarrow> mobile" where
  "ms_handleFeedbackPosted jobId txHash network url s =
     (if find_job jobId s = None then s
      else ms_emit (MFeedbackPosted jobId txHash network url)
        (update_job_entry (\<lambda>job. job\<lparr>cj_feedbackTxHash := Some txHash, cj_feedbackExplorerUrl := Some url,
           cj_feedbackNetwork := Some network, cj_feedbackFailed := Some False\<rparr>) jobId s))"

definition ms_handlePaymentPosted ::
  "mobile_env \<Rightarrow> string list \<Rightarrow> string \<Rightarrow> rat \<Rightarrow> string option \<Rightarrow> string \<Rightarrow> mobile \<Rightarrow> mobile" where
  "ms_handlePaymentPosted E jobIds txHash amount token url s =
     ms_emit (MPaymentPosted jobIds txHash amount url)
       (fold (update_job_entry (\<lambda>job. job\<lparr>cj_paymentTxHash := Some txHash, cj_paymentExplorerUrl := Some url,
           cj_paymentAmount := Some (me_ns E amount @ '' '' @ (case token of Some t \<Rightarrow> t | None \<Rightarrow> ''BOLT'')),
           cj_paymentFailed := Some False\<rparr>)) jobIds s)"

definition ms_handleFeedbackFailed :: "string \<Rightarrow> mobile \<Rightarrow> mobile" where
  "ms_handleFeedbackFailed jobId s = update_job_entry (\<lambda>job. job\<lparr>cj_feedbackFailed := Some True\<rparr>) jobId s"

definition ms_handlePaymentFailed :: "string list \<Rightarrow> mobile \<Rightarrow> mobile" where
  "ms_handlePaymentFailed jobIds s = fold (update_job_entry (\<lambda>job. job\<lparr>cj_paymentFailed := Some True\<rparr>)) jobIds s"

definition ms_handleMessage :: "mobile_env \<Rightarrow> int \<Rightarrow> worker_inbound \<Rightarrow> mobile \<Rightarrow> mobile" where
  "ms_handleMessage E durationMs raw s =
     (case raw of
        WMsg (RegisterAck workerId) \<Rightarrow> ms_handleRegisterAck (Some workerId) None s
      | WMsg (RegisterNack err) \<Rightarrow> ms_handleRegisterAck None (Some err) s
      | WMsg HeartbeatAck \<Rightarrow> s
      | WMsg (JobAssign msg) \<Rightarrow> ms_handleJobAssign E durationMs msg s
      | WMsg (ErrorMsg code msg) \<Rightarrow> ms_handleError code msg s
      | WMsg (FeedbackPosted jobId txHash network url) \<Rightarrow> ms_handleFeedbackPosted jobId txHash network url s
      | WMsg (PaymentPosted jobIds txHash amount token network url) \<Rightarrow>
          ms_handlePaymentPosted E jobIds txHash amount token url s
      | WMsg (FeedbackFailed jobId _) \<Rightarrow> ms_handleFeedbackFailed jobId s
      | WMsg (PaymentFailed jobIds _ _) \<Rightarrow> ms_handlePaymentFailed jobIds s
      | WInvalid \<Rightarrow> s
      | WNull \<Rightarrow> s
      | WOther \<Rightarrow> s)"

subsection \<open>Socket handlers and timers\<close>

definition handlers_on :: "nat \<Rightarrow> mobile \<Rightarrow> bool" where
  "handlers_on i s = (i < length (ms_sockets s) \<and> so_handlers (ms_sockets s ! i))"

definition ms_sendRegister :: "mobile \<Rightarrow> mobile" where
  "ms_sendRegister s =
     (case ms_keys s of Some keys \<Rightarrow> ms_send (createRegisterMsg (kp_pubkeyHex keys) [TASK]) s | None \<Rightarrow> s)"

definition ms_onopen :: "nat \<Rightarrow> mobile \<Rightarrow> mobile" where
  "ms_onopen i s =
     (if i < length (ms_sockets s) \<and> so_ready (ms_sockets s ! i) = SockConnecting then
        (let s1 = socket_update i (\<lambda>so. so\<lparr>so_ready := SockOpen\<rparr>) s in
         if handlers_on i s1 then ms_sendRegister (s1\<lparr>ms_attempts := 0\<rparr>) else s1)
      else s)"

definition ms_onmessage :: "mobile_env \<Rightarrow> int \<Rightarrow> nat \<Rightarrow> worker_inbound \<Rightarrow> mobile \<Rightarrow> mobile" where
  "ms_onmessage E durationMs i raw s =
     (if handlers_on i s \<and> so_ready (ms_sockets s ! i) = SockOpen then ms_handleMessage E durationMs raw s else s)"

definition ms_onerror :: "nat \<Rightarrow> mobile \<Rightarrow> mobile" where
  "ms_onerror i s = (if handlers_on i s then ms_emit (MError ''WebSocket connection error'') s else s)"

definition ms_onclose :: "nat \<Rightarrow> mobile \<Rightarrow> mobile" where
  "ms_onclose i s =
     (if i < length (ms_sockets s) \<and> so_ready (ms_sockets s ! i) \<noteq> SockClosed then
        (let s1 = socket_update i (\<lambda>so. so\<lparr>so_ready := SockClosed\<rparr>) s in
         if handlers_on i s1 then
           (let s2 = ms_stopHeartbeat s1 in
            if ms_shouldReconnect s2 then ms_scheduleReconnect (ms_setStatus Reconnecting s2)
            else ms_setStatus Disconnected s2)
         else s1)
      else s)"

definition ms_timer :: "mobile_env \<Rightarrow> nat \<Rightarrow> mobile \<Rightarrow> mobile" where
  "ms_timer E h s =
     (if h \<in> fst ` set (ms_timers s) then
        (let s1 = s\<lparr>ms_timers := filter (\<lambda>(k, _). k \<noteq> h) (ms_timers s)\<rparr> in
         if ms_shouldReconnect s1 then ms_doConnect E s1 else s1)
      else s)"

text \<open>Everything that can happen to the service.\<close>

inductive mobile_step :: "mobile_env \<Rightarrow> mobile \<Rightarrow> mobile \<Rightarrow> bool" for E where
  mob_connect: "mobile_step E s (ms_connect s)"
| mob_connectDone: "mobile_step E s (ms_connectDone E seed start s)"
| mob_disconnect: "mobile_step E s (ms_disconnect s)"
| mob_setUrl: "mobile_step E s (ms_setCoordinatorUrl url s)"
| mob_setSigner: "mobile_step E s (ms_setSigningProvider sg s)"
| mob_onopen: "mobile_step E s (ms_onopen i s)"
| mob_onmessage: "mobile_step E s (ms_onmessage E d i raw s)"
| mob_onerror: "mobile_step E s (ms_onerror i s)"
| mob_onclose: "mobile_step E s (ms_onclose i s)"
| mob_timer: "mobile_step E s (ms_timer E h s)"
| mob_heartbeat: "mobile_step E s (ms_heartbeatTick s)"
| mob_signed: "mobile_step E s (ms_jobSigned E seed isodate now pj s)"

subsection \<open>Connection invariant\<close>

definition mobile_init :: "mobile \<Rightarrow> bool" where
  "mobile_init s \<longleftrightarrow> (\<exists>dev mwa. s = mobile_new dev mwa)"

definition conn_inv :: "mobile \<Rightarrow> bool" where
  "conn_inv s \<longleftrightarrow>
     (ms_status s = Connected \<longrightarrow> ms_workerId s \<noteq> None \<and> ms_heartbeat s) \<and>
     (ms_status s = Reconnecting \<longrightarrow> ms_shouldReconnect s \<and> ms_timers s \<noteq> []) \<and>
     (ms_heartbeat s \<longrightarrow> ms_status s \<in> {Connected, Connecting}) \<and>
     (ms_status s \<noteq> Disconnected \<or> ms_sockets s \<noteq> [] \<longrightarrow> ms_keys s \<noteq> None) \<and>
     (\<forall>(h, d) \<in> set (ms_timers s). 1000 \<le> d \<and> d \<le> maxReconnectDelay)"

lemma reconnect_delay_bounds: "1000 \<le> reconnect_delay n \<and> reconnect_delay n \<le> maxReconnectDelay"
  by (simp add: reconnect_delay_def maxReconnectDelay_def)

lemma reconnect_delay_mono: "m \<le> n \<Longrightarrow> reconnect_delay m \<le> reconnect_delay n"
  unfolding reconnect_delay_def by (intro min.mono mult_le_mono power_increasing) simp_all

lemma conn_inv_emit [simp]: "conn_inv (ms_emit ev s) = conn_inv s"
  by (simp add: conn_inv_def ms_emit_def)

lemma conn_inv_socket_update [simp]: "conn_inv (socket_update i f s) = conn_inv s"
  by (simp add: conn_inv_def socket_update_def)

lemma conn_inv_send [simp]: "conn_inv (ms_send m s) = conn_inv s"
  by (simp add: ms_send_def split: option.split)

lemma conn_inv_other [simp]:
  "conn_inv (s\<lparr>ms_pending := x1\<rparr>) = conn_inv s" "conn_inv (s\<lparr>ms_connects := x2\<rparr>) = conn_inv s"
  "conn_inv (s\<lparr>ms_attempts := x3\<rparr>) = conn_inv s" "conn_inv (s\<lparr>ms_heap := x4\<rparr>) = conn_inv s"
  "conn_inv (s\<lparr>ms_history := x5\<rparr>) = conn_inv s" "conn_inv (s\<lparr>ms_totalEarnings := x6\<rparr>) = conn_inv s"
  "conn_inv (s\<lparr>ms_device := x7\<rparr>) = conn_inv s" "conn_inv (s\<lparr>ms_mwa := x8\<rparr>) = conn_inv s"
  "conn_inv (s\<lparr>ms_coordinatorUrl := x9\<rparr>) = conn_inv s" "conn_inv (s\<lparr>ms_signingProvider := x10\<rparr>) = conn_inv s"
  by (simp_all add: conn_inv_def)

lemma conn_inv_keys: "conn_inv s \<Longrightarrow> conn_inv (s\<lparr>ms_keys := Some k\<rparr>)"
  by (simp add: conn_inv_def)

lemma conn_inv_should: "conn_inv s \<Longrightarrow> conn_inv (s\<lparr>ms_shouldReconnect := True\<rparr>)"
  by (simp add: conn_inv_def)

lemma conn_inv_Connecting:
  "ms_status s = Connecting \<Longrightarrow> conn_inv s \<longleftrightarrow> ms_keys s \<noteq> None \<and> (\<forall>(h, d) \<in> set (ms_timers s). 1000 \<le> d \<and> d \<le> maxReconnectDelay)"
  by (auto simp: conn_inv_def)

lemma doConnect_conn_inv:
  assumes "ms_keys s \<noteq> None" "\<forall>(h, d) \<in> set (ms_timers s). 1000 \<le> d \<and> d \<le> maxReconnectDelay"
  shows "conn_inv (ms_doConnect E s)"
  unfolding ms_doConnect_def Let_def using assms reconnect_delay_bounds [of "ms_attempts s"]
  by (auto simp: conn_inv_Connecting ms_setStatus_def ms_emit_def ms_scheduleReconnect_def split: option.split)

lemma conn_inv_doConnect:
  assumes "conn_inv s" shows "conn_inv (ms_doConnect E s)"
proof (cases "ms_keys s = None")
  case False
  then show ?thesis using assms doConnect_conn_inv [OF False, of E] by (simp add: conn_inv_def)
qed (use assms in \<open>simp add: ms_doConnect_def\<close>)

lemma conn_inv_timer:
  assumes "conn_inv s" shows "conn_inv (ms_timer E h s)"
proof -
  let ?s = "s\<lparr>ms_timers := filter (\<lambda>(k, _). k \<noteq> h) (ms_timers s)\<rparr>"
  have t: "\<forall>(h, d) \<in> set (ms_timers ?s). 1000 \<le> d \<and> d \<le> maxReconnectDelay" using assms by (auto simp: conn_inv_def)
  have "conn_inv (ms_doConnect E ?s)" if "ms_keys s \<noteq> None" using doConnect_conn_inv [OF _ t] that by simp
  moreover have "conn_inv ?s" if "ms_keys s = None \<or> \<not> ms_shouldReconnect s"
    using that assms t by (auto simp: conn_inv_def)
  moreover have "ms_doConnect E ?s = ?s" if "ms_keys s = None" using that by (simp add: ms_doConnect_def)
  ultimately have "conn_inv (if ms_shouldReconnect s then ms_doConnect E ?s else ?s)" by (cases "ms_keys s = None") simp_all
  with assms show ?thesis by (simp add: ms_timer_def)
qed

lemma provider_ops_state:
  "provider_connect E seed sg s = (r1, s1) \<Longrightarrow> \<exists>d m. s1 = s\<lparr>ms_device := d, ms_mwa := m\<rparr>"
  "provider_getPublicKeyHex E seed sg s = (r2, s1) \<Longrightarrow> \<exists>d m. s1 = s\<lparr>ms_device := d, ms_mwa := m\<rparr>"
  "provider_signMessage E seed sg msg s = (r2, s1) \<Longrightarrow> \<exists>d m. s1 = s\<lparr>ms_device := d, ms_mwa := m\<rparr>"
  by (cases s; auto simp: provider_connect_def provider_getPublicKeyHex_def provider_signMessage_def
      split: signer.splits prod.splits)+

lemma ms_connectProvider_state:
  assumes "ms_connectProvider E seed sg s = (r, s1)"
  shows "\<exists>d m. s1 = s\<lparr>ms_device := d, ms_mwa := m\<rparr>"
  using assms
  by (fastforce simp: ms_connectProvider_def split: prod.splits sum.splits option.splits dest: provider_ops_state)

lemma ms_sign_state:
  assumes "ms_sign E seed isodate pj s = (r, s1)"
  shows "\<exists>d m. s1 = s\<lparr>ms_device := d, ms_mwa := m\<rparr>"
proof (cases "pj_signer pj")
  case None
  with assms show ?thesis by (cases s) (auto simp: ms_sign_def split: option.splits)
next
  case (Some sg)
  with assms show ?thesis
    by (fastforce simp: ms_sign_def buildJobCompleteWithProvider_def split: prod.splits sum.splits dest: provider_ops_state)
qed

lemma conn_inv_connectDone:
  assumes "conn_inv s" shows "conn_inv (ms_connectDone E seed start s)"
proof (cases start)
  case None
  with assms show ?thesis
    by (auto simp: ms_connectDone_def intro!: conn_inv_doConnect conn_inv_keys split: sum.split)
next
  case (Some sg)
  obtain r s2 where r: "ms_connectProvider E seed sg (s\<lparr>ms_connects := remove1 start (ms_connects s)\<rparr>) = (r, s2)"
    by fastforce
  with assms ms_connectProvider_state [OF r] have "conn_inv s2" by auto
  with assms Some r show ?thesis
    by (cases r) (auto simp: ms_connectDone_def intro!: conn_inv_doConnect conn_inv_keys)
qed

lemma conn_inv_track [simp]: "conn_inv (ms_track now pj ok err s) = conn_inv s"
  by (simp add: ms_track_def split: if_split)

lemma conn_inv_signed:
  assumes "conn_inv s" shows "conn_inv (ms_jobSigned E seed isodate now pj s)"
proof -
  obtain r s1 where r: "ms_sign E seed isodate pj (s\<lparr>ms_pending := remove1 pj (ms_pending s)\<rparr>) = (r, s1)" by fastforce
  with assms ms_sign_state [OF r] have "conn_inv s1" by auto
  with assms r show ?thesis by (cases r) (simp_all add: ms_jobSigned_def)
qed

lemma conn_inv_update_entry [simp]: "conn_inv (update_job_entry f j s) = conn_inv s"
  by (simp add: update_job_entry_def split: option.split)

lemma conn_inv_update_entries [simp]: "conn_inv (fold (update_job_entry f) js s) = conn_inv s"
  by (induction js arbitrary: s) simp_all

lemma conn_inv_ack:
  assumes "conn_inv s" "ms_keys s \<noteq> None" shows "conn_inv (ms_handleRegisterAck wid err s)"
  using assms by (cases "str_truthy wid")
    (auto simp: ms_handleRegisterAck_def conn_inv_def ms_startHeartbeat_def ms_stopHeartbeat_def ms_setStatus_def
      ms_emit_def str_truthy_def socket_update_def split: option.splits)

lemma conn_inv_message:
  assumes "conn_inv s" shows "conn_inv (ms_onmessage E d i raw s)"
proof (cases "handlers_on i s")
  case True
  with assms have "ms_keys s \<noteq> None" by (auto simp: handlers_on_def conn_inv_def)
  with assms conn_inv_ack show ?thesis
    by (auto simp: ms_onmessage_def ms_handleMessage_def ms_handleJobAssign_def ms_handleError_def ms_handleFeedbackPosted_def
        ms_handlePaymentPosted_def ms_handleFeedbackFailed_def ms_handlePaymentFailed_def
        split: worker_inbound.split CoordinatorToWorker.split option.split sum.split)
qed (use assms in \<open>simp add: ms_onmessage_def\<close>)

lemma conn_inv_step:
  assumes "conn_inv s" "mobile_step E s t" shows "conn_inv t"
  using assms(2,1)
proof (cases rule: mobile_step.cases)
  case mob_disconnect
  with assms(1) show ?thesis
    by (auto simp: ms_disconnect_def ms_cleanup_def conn_inv_def ms_setStatus_def ms_emit_def ms_stopHeartbeat_def
        socket_update_def split: option.splits)
next
  case (mob_onclose i)
  with assms(1) reconnect_delay_bounds [of "ms_attempts s"] show ?thesis
    by (auto simp: ms_onclose_def conn_inv_def ms_setStatus_def ms_emit_def ms_stopHeartbeat_def
        socket_update_def ms_scheduleReconnect_def split: option.splits)
qed (auto simp: ms_connect_def ms_setCoordinatorUrl_def ms_setSigningProvider_def ms_onopen_def ms_sendRegister_def
    ms_onerror_def ms_heartbeatTick_def conn_inv_should conn_inv_connectDone conn_inv_timer conn_inv_message conn_inv_signed
    split: option.split)

subsection \<open>History invariant\<close>

definition answers :: "string \<Rightarrow> WorkerToCoordinator list \<Rightarrow> nat" where
  "answers j ms =
     length (filter (\<lambda>m. case m of JobComplete c \<Rightarrow> jc_job_id c = j | JobReject r \<Rightarrow> jr_job_id r = j | _ \<Rightarrow> False) ms)"

definition answered :: "string \<Rightarrow> mobile \<Rightarrow> nat" where
  "answered j s = sum_list (map (\<lambda>so. answers j (so_sent so)) (ms_sockets s))"

definition in_signing :: "string \<Rightarrow> mobile \<Rightarrow> nat" where
  "in_signing j s = length (filter (\<lambda>pj. ja_job_id (pj_job pj) = j) (ms_pending s))"

definition received :: "string \<Rightarrow> mobile \<Rightarrow> nat" where
  "received j s = length (filter (\<lambda>ev. ev = MJobReceived j) (ms_events s))"

definition once_inv :: "mobile \<Rightarrow> bool" where
  "once_inv s \<longleftrightarrow> (\<forall>j. answered j s + in_signing j s \<le> received j s)"

definition successes :: "CompletedJob list \<Rightarrow> nat" where
  "successes jobs = length (filter (\<lambda>b. b) (map cj_success jobs))"

definition hist_inv :: "mobile \<Rightarrow> bool" where
  "hist_inv s \<longleftrightarrow>
     length (ms_history s) \<le> 50 \<and> distinct (ms_history s) \<and> (\<forall>a \<in> set (ms_history s). a < length (ms_heap s)) \<and>
     ms_totalEarnings s = TASK_PRICE_BOLT * of_nat (successes (ms_heap s))"

lemma answers_append [simp]: "answers j (ms @ ns) = answers j ms + answers j ns"
  by (simp add: answers_def)

lemma sum_list_map_update:
  "i < length xs \<Longrightarrow> sum_list (map f (xs[i := x])) + f (xs ! i) = sum_list (map f xs) + (f x :: nat)"
proof (induction xs arbitrary: i)
  case (Cons y ys)
  then show ?case by (cases i) (auto simp: algebra_simps)
qed simp

lemma answered_send: "answered j (ms_send m s) \<le> answered j s + answers j [m]"
proof (cases "ws_is_open s")
  case True
  then obtain i where i: "ms_ws s = Some i" "i < length (ms_sockets s)" by (auto simp: ws_is_open_def split: option.splits)
  let ?so = "(ms_sockets s ! i)\<lparr>so_sent := so_sent (ms_sockets s ! i) @ [m]\<rparr>"
  have "answered j (ms_send m s) = sum_list (map (\<lambda>so. answers j (so_sent so)) ((ms_sockets s)[i := ?so]))"
    using True i by (simp add: ms_send_def socket_update_def answered_def)
  with sum_list_map_update [OF i(2), of "\<lambda>so. answers j (so_sent so)" ?so] show ?thesis by (simp add: answered_def)
qed (auto simp: ms_send_def answered_def split: option.split)

lemma answered_socket_update:
  assumes "\<And>so. so_sent (f so) = so_sent so"
  shows "answered j (socket_update i f s) = answered j s"
  using assms sum_list_map_update [of i "ms_sockets s" "\<lambda>so. answers j (so_sent so)" "f (ms_sockets s ! i)"]
  by (auto simp: answered_def socket_update_def)

lemma socket_close_sent [simp]: "so_sent (socket_close so) = so_sent so"
  by (simp add: socket_close_def)

text \<open>The fields the two invariants read.\<close>

definition hist_view :: "mobile \<Rightarrow> CompletedJob list \<times> nat list \<times> rat" where
  "hist_view s = (ms_heap s, ms_history s, ms_totalEarnings s)"

lemma hist_inv_view: "hist_view t = hist_view s \<Longrightarrow> hist_inv t = hist_inv s"
  by (simp add: hist_view_def hist_inv_def)

lemma hist_view_simps [simp]:
  "hist_view (ms_emit ev s) = hist_view s" "hist_view (ms_setStatus st s) = hist_view s"
  "hist_view (socket_update i f s) = hist_view s" "hist_view (ms_send m s) = hist_view s"
  "hist_view (ms_stopHeartbeat s) = hist_view s" "hist_view (ms_startHeartbeat s) = hist_view s"
  "hist_view (ms_scheduleReconnect s) = hist_view s" "hist_view (ms_cleanup s) = hist_view s"
  by (simp_all add: hist_view_def ms_emit_def ms_setStatus_def socket_update_def ms_send_def ms_stopHeartbeat_def
      ms_startHeartbeat_def ms_scheduleReconnect_def ms_cleanup_def split: option.split)

lemma hist_view_other [simp]:
  "hist_view (s\<lparr>ms_pending := x1\<rparr>) = hist_view s" "hist_view (s\<lparr>ms_connects := x2\<rparr>) = hist_view s"
  "hist_view (s\<lparr>ms_attempts := x3\<rparr>) = hist_view s" "hist_view (s\<lparr>ms_keys := x4\<rparr>) = hist_view s"
  "hist_view (s\<lparr>ms_workerId := x5\<rparr>) = hist_view s" "hist_view (s\<lparr>ms_ws := x6\<rparr>) = hist_view s"
  "hist_view (s\<lparr>ms_device := x7\<rparr>) = hist_view s" "hist_view (s\<lparr>ms_mwa := x8\<rparr>) = hist_view s"
  "hist_view (s\<lparr>ms_coordinatorUrl := x9\<rparr>) = hist_view s" "hist_view (s\<lparr>ms_signingProvider := x10\<rparr>) = hist_view s"
  "hist_view (s\<lparr>ms_sockets := x11\<rparr>) = hist_view s" "hist_view (s\<lparr>ms_shouldReconnect := x12\<rparr>) = hist_view s"
  "hist_view (s\<lparr>ms_timers := x13\<rparr>) = hist_view s"
  by (simp_all add: hist_view_def)

lemma hist_view_doConnect [simp]: "hist_view (ms_doConnect E s) = hist_view s"
  by (simp add: ms_doConnect_def split: option.split)

lemma hist_view_connectDone [simp]: "hist_view (ms_connectDone E seed start s) = hist_view s"
proof (cases start)
  case (Some sg)
  obtain r s2 where r: "ms_connectProvider E seed sg (s\<lparr>ms_connects := remove1 start (ms_connects s)\<rparr>) = (r, s2)"
    by fastforce
  with ms_connectProvider_state [OF r] have "hist_view s2 = hist_view s" by auto
  with Some r show ?thesis by (cases r) (simp_all add: ms_connectDone_def)
qed (simp add: ms_connectDone_def split: sum.split prod.split)

lemma successes_update:
  assumes "\<And>x. cj_success (f x) = cj_success x"
  shows "successes (xs[a := f (xs ! a)]) = successes xs"
proof -
  have "map cj_success (xs[a := f (xs ! a)]) = map cj_success xs"
  proof (cases "a < length xs")
    case True
    then show ?thesis by (intro nth_equalityI) (auto simp: nth_list_update assms)
  qed (simp add: list_update_beyond)
  then show ?thesis by (simp only: successes_def)
qed

lemma hist_inv_entry:
  assumes "hist_inv s" "\<And>x. cj_success (f x) = cj_success x" shows "hist_inv (update_job_entry f j s)"
  using assms by (simp add: update_job_entry_def hist_inv_def ms_emit_def successes_update split: option.split)

lemma hist_inv_entries:
  assumes "hist_inv s" "\<And>x. cj_success (f x) = cj_success x" shows "hist_inv (fold (update_job_entry f) js s)"
  using assms by (induction js arbitrary: s) (simp_all add: hist_inv_entry)

lemma hist_inv_track:
  assumes "hist_inv s" shows "hist_inv (ms_track now pj ok err s)"
  using assms set_take_subset [of 49 "ms_history s"]
  by (auto simp: ms_track_def hist_inv_def ms_emit_def successes_def algebra_simps distinct_take take_Cons' less_SucI
      dest!: in_set_takeD)

lemma hist_inv_signed:
  assumes "hist_inv s" shows "hist_inv (ms_jobSigned E seed isodate now pj s)"
proof -
  obtain r s1 where r: "ms_sign E seed isodate pj (s\<lparr>ms_pending := remove1 pj (ms_pending s)\<rparr>) = (r, s1)" by fastforce
  with ms_sign_state [OF r] have "hist_view s1 = hist_view s" by auto
  with assms have "hist_inv s1" "hist_inv (ms_send m s1)" for m
    using hist_inv_view [of s1 s] hist_inv_view [of "ms_send m s1" s] by simp_all
  with assms r show ?thesis by (cases r) (simp_all add: ms_jobSigned_def hist_inv_track)
qed

lemma hist_inv_message:
  assumes "hist_inv s" shows "hist_inv (ms_onmessage E d i raw s)"
proof -
  have "hist_view (ms_handleRegisterAck wid err s) = hist_view s" for wid err
    by (simp add: ms_handleRegisterAck_def split: option.split)
  moreover have "hist_view (ms_handleJobAssign E d msg s) = hist_view s" for msg
    by (simp add: ms_handleJobAssign_def split: option.split sum.split)
  moreover have "hist_view (ms_handleError code msg s) = hist_view s" for code msg by (simp add: ms_handleError_def)
  ultimately have *: "hist_inv (ms_handleRegisterAck wid err s)" "hist_inv (ms_handleJobAssign E d job s)"
    "hist_inv (ms_handleError code msg s)" for wid err job code msg using assms hist_inv_view by blast+
  have emit: "hist_inv (ms_emit ev t) = hist_inv t" for ev t by (rule hist_inv_view) simp
  show ?thesis using * assms
    by (auto simp: ms_onmessage_def ms_handleMessage_def ms_handleFeedbackPosted_def
        ms_handlePaymentPosted_def ms_handleFeedbackFailed_def ms_handlePaymentFailed_def emit
        intro!: hist_inv_entry hist_inv_entries split: worker_inbound.split CoordinatorToWorker.split)
qed

lemma hist_inv_step:
  assumes "hist_inv s" "mobile_step E s t" shows "hist_inv t"
  using assms(2)
proof (cases rule: mobile_step.cases)
  case (mob_onmessage d i raw)
  with assms(1) hist_inv_message show ?thesis by simp
next
  case (mob_signed seed isodate now pj)
  with assms(1) hist_inv_signed show ?thesis by simp
qed (rule hist_inv_view [THEN iffD2, OF _ assms(1)], simp add: ms_connect_def ms_setCoordinatorUrl_def
    ms_setSigningProvider_def ms_onopen_def ms_sendRegister_def ms_onerror_def ms_heartbeatTick_def ms_disconnect_def
    ms_onclose_def ms_timer_def split: option.split)+

subsection \<open>Every assignment is answered at most once\<close>

definition load :: "string \<Rightarrow> mobile \<Rightarrow> nat" where
  "load j s = answered j s + in_signing j s"

text \<open>\<open>quiet s t\<close>: nothing was answered between the two states and no event was lost.\<close>

definition quiet :: "mobile \<Rightarrow> mobile \<Rightarrow> bool" where
  "quiet s t \<longleftrightarrow> (\<forall>j. load j t \<le> load j s \<and> received j s \<le> received j t)"

lemma once_inv_quiet: "once_inv s \<Longrightarrow> quiet s t \<Longrightarrow> once_inv t"
  unfolding once_inv_def quiet_def load_def by (meson le_trans)

lemma quiet_trans: "quiet s t \<Longrightarrow> quiet t u \<Longrightarrow> quiet s u"
  unfolding quiet_def by (meson le_trans)

lemma quiet_refl [simp]: "quiet s s"
  by (simp add: quiet_def)

lemma quiet_emit [simp]: "quiet s (ms_emit ev s)"
  by (simp add: quiet_def load_def answered_def in_signing_def received_def ms_emit_def)

lemma quiet_socket_update: "(\<And>so. so_sent (f so) = so_sent so) \<Longrightarrow> quiet s (socket_update i f s)"
  by (simp add: quiet_def load_def answered_socket_update in_signing_def received_def) (simp add: socket_update_def)

lemma send_other [simp]: "ms_pending (ms_send m s) = ms_pending s" "ms_events (ms_send m s) = ms_events s"
  by (simp_all add: ms_send_def socket_update_def split: option.split)

lemma quiet_send: "(\<And>j. answers j [m] = 0) \<Longrightarrow> quiet s (ms_send m s)"
  using answered_send [of _ m s] by (simp add: quiet_def load_def in_signing_def received_def)

lemma quiet_fields:
  assumes "ms_sockets t = ms_sockets s" "ms_pending t = ms_pending s" "ms_events t = ms_events s"
  shows "quiet s t"
  using assms by (simp add: quiet_def load_def answered_def in_signing_def received_def)

lemma quiet_setStatus [simp]: "quiet s (ms_setStatus st s)"
  by (simp add: ms_setStatus_def ms_emit_def quiet_def load_def answered_def in_signing_def received_def)

lemma quiet_scheduleReconnect [simp]: "quiet s (ms_scheduleReconnect s)"
  by (simp add: ms_scheduleReconnect_def quiet_fields)

lemma quiet_doConnect: "quiet s (ms_doConnect E s)"
proof -
  have *: "quiet s (ms_scheduleReconnect (ms_emit ev (ms_setStatus Connecting s)))" for ev
    by (rule quiet_trans [OF quiet_setStatus quiet_trans [OF quiet_emit quiet_scheduleReconnect]])
  have "quiet (ms_setStatus Connecting s) ((ms_setStatus Connecting s)\<lparr>ms_ws := w,
      ms_sockets := ms_sockets (ms_setStatus Connecting s) @ [\<lparr>so_ready = SockConnecting, so_handlers = True, so_sent = []\<rparr>]\<rparr>)" for w
    by (simp add: quiet_def load_def answered_def in_signing_def received_def answers_def)
  from * quiet_trans [OF quiet_setStatus this] show ?thesis by (simp add: ms_doConnect_def split: option.split)
qed

lemma quiet_connectDone: "quiet s (ms_connectDone E seed start s)"
proof (cases start)
  case None
  have "quiet s (ms_doConnect E (s\<lparr>ms_connects := c, ms_keys := k, ms_device := d\<rparr>))" for c k d
    by (rule quiet_trans [OF _ quiet_doConnect]) (simp add: quiet_fields)
  moreover have "quiet s (ms_emit ev (s\<lparr>ms_connects := c\<rparr>))" for ev c
    by (rule quiet_trans [OF _ quiet_emit]) (simp add: quiet_fields)
  ultimately show ?thesis using None by (simp add: ms_connectDone_def split: sum.split prod.split)
next
  case (Some sg)
  obtain r s2 where r: "ms_connectProvider E seed sg (s\<lparr>ms_connects := remove1 start (ms_connects s)\<rparr>) = (r, s2)"
    by fastforce
  with ms_connectProvider_state [OF r] have "quiet s (s2\<lparr>ms_keys := k\<rparr>)" "quiet s s2" for k
    by (auto intro!: quiet_fields)
  then have "quiet s (ms_doConnect E (s2\<lparr>ms_keys := k\<rparr>))" "quiet s (ms_emit ev s2)" for k ev
    using quiet_trans quiet_doConnect quiet_emit by blast+
  with Some r show ?thesis by (cases r) (simp_all add: ms_connectDone_def)
qed

lemma quiet_cleanup: "quiet s (ms_cleanup s)"
proof -
  define t where "t = (case ms_reconnectTimeout s of
      Some h \<Rightarrow> s\<lparr>ms_heartbeat := False, ms_timers := filter (\<lambda>(k, _). k \<noteq> h) (ms_timers s), ms_reconnectTimeout := None\<rparr>
    | None \<Rightarrow> s\<lparr>ms_heartbeat := False\<rparr>)"
  have t: "quiet s t" "ms_ws t = ms_ws s"
    by (auto simp: t_def intro!: quiet_fields split: option.split)
  let ?c = "\<lambda>so. socket_close (so\<lparr>so_handlers := False\<rparr>)"
  have "ms_cleanup s =
      (case ms_ws t of Some i \<Rightarrow> (socket_update i ?c t)\<lparr>ms_ws := None\<rparr> | None \<Rightarrow> t)\<lparr>ms_workerId := None\<rparr>"
    unfolding ms_cleanup_def Let_def ms_stopHeartbeat_def t_def by (simp split: option.split)
  moreover have "quiet t ((socket_update i ?c t)\<lparr>ms_ws := None, ms_workerId := None\<rparr>)" for i
    by (rule quiet_trans [OF quiet_socket_update quiet_fields]) simp_all
  moreover have "quiet t (t\<lparr>ms_workerId := None\<rparr>)" by (simp add: quiet_fields)
  ultimately show ?thesis using quiet_trans [OF t(1)] by (simp split: option.split)
qed

lemma quiet_track: "quiet s (ms_track now pj ok err s)"
  by (auto simp: ms_track_def ms_emit_def quiet_def load_def answered_def in_signing_def received_def)

lemma quiet_entry: "quiet s (update_job_entry f j s)"
  by (simp add: update_job_entry_def ms_emit_def quiet_def load_def answered_def in_signing_def received_def split: option.split)

lemma quiet_entries: "quiet s (fold (update_job_entry f) js s)"
  by (induction js arbitrary: s) (auto intro: quiet_trans [OF quiet_entry])

lemma quiet_ack: "quiet s (ms_handleRegisterAck wid err s)"
proof -
  have "quiet s (ms_emit ev (ms_startHeartbeat (ms_setStatus Connected (s\<lparr>ms_workerId := w\<rparr>))))" for ev w
    by (rule quiet_trans [OF quiet_fields quiet_trans [OF quiet_setStatus quiet_trans [OF quiet_fields quiet_emit]]])
      (simp_all add: ms_startHeartbeat_def ms_stopHeartbeat_def)
  moreover have "quiet s (socket_update i socket_close (ms_emit ev s))" for i ev
    by (rule quiet_trans [OF quiet_emit quiet_socket_update]) simp
  ultimately show ?thesis by (auto simp: ms_handleRegisterAck_def split: option.split)
qed

lemma answers_simps [simp]:
  "answers j [createJobRejectMsg i reason] = (if i = j then 1 else 0)"
  "answers j [JobComplete msg] = (if jc_job_id msg = j then 1 else 0)"
  "answers j [createRegisterMsg pk cs] = 0" "answers j [createHeartbeatMsg pk] = 0"
  by (simp_all add: answers_def createJobRejectMsg_def createRegisterMsg_def createHeartbeatMsg_def)

lemma once_inv_assign:
  assumes "once_inv s" shows "once_inv (ms_handleJobAssign E d msg s)"
proof (cases "ms_keys s")
  case (Some keys)
  let ?s = "ms_emit (MJobReceived (ja_job_id msg)) s"
  have got: "received j ?s = received j s + (if ja_job_id msg = j then 1 else 0)" for j
    by (simp add: received_def ms_emit_def)
  have "once_inv (?s\<lparr>ms_pending := ms_pending ?s @ [pj]\<rparr>)" if "pj_job pj = msg" for pj
    using assms got that by (auto simp: once_inv_def in_signing_def answered_def received_def ms_emit_def)
  moreover have "once_inv (ms_send (createJobRejectMsg (ja_job_id msg) reason) ?s)" for reason
    unfolding once_inv_def
  proof
    fix j
    have "answered j (ms_send (createJobRejectMsg (ja_job_id msg) reason) ?s) \<le> answered j ?s + (if ja_job_id msg = j then 1 else 0)"
      using answered_send [of j "createJobRejectMsg (ja_job_id msg) reason" ?s] by simp
    moreover have "answered j s + in_signing j s \<le> received j s" using assms by (simp add: once_inv_def)
    ultimately show "answered j (ms_send (createJobRejectMsg (ja_job_id msg) reason) ?s) +
        in_signing j (ms_send (createJobRejectMsg (ja_job_id msg) reason) ?s)
        \<le> received j (ms_send (createJobRejectMsg (ja_job_id msg) reason) ?s)"
      using got [of j] by (simp add: in_signing_def received_def answered_def ms_emit_def)
  qed
  ultimately show ?thesis unfolding ms_handleJobAssign_def Let_def using Some by (auto split: option.split sum.split)
qed (use assms in \<open>simp add: ms_handleJobAssign_def\<close>)

lemma ms_sign_job: "ms_sign E seed isodate pj s = (Inr msg, s1) \<Longrightarrow> jc_job_id msg = ja_job_id (pj_job pj)"
  by (auto simp: ms_sign_def buildJobCompleteWithProvider_def buildJobCompleteWithReceipt_def
      split: option.splits prod.splits sum.splits)

lemma in_signing_remove1:
  "pj \<in> set (ms_pending s) \<Longrightarrow>
   in_signing j (s\<lparr>ms_pending := remove1 pj (ms_pending s)\<rparr>) + (if ja_job_id (pj_job pj) = j then 1 else 0) = in_signing j s"
proof -
  have "pj \<in> set ps \<Longrightarrow> length (filter (\<lambda>pj. ja_job_id (pj_job pj) = j) (remove1 pj ps)) + (if ja_job_id (pj_job pj) = j then 1 else 0)
      = length (filter (\<lambda>pj. ja_job_id (pj_job pj) = j) ps)" for ps
    by (induction ps) auto
  then show "pj \<in> set (ms_pending s) \<Longrightarrow> ?thesis" by (simp add: in_signing_def)
qed

lemma once_inv_signed:
  assumes "once_inv s" shows "once_inv (ms_jobSigned E seed isodate now pj s)"
proof (cases "pj \<in> set (ms_pending s)")
  case True
  let ?s = "s\<lparr>ms_pending := remove1 pj (ms_pending s)\<rparr>"
  obtain r s1 where r: "ms_sign E seed isodate pj ?s = (r, s1)" by fastforce
  with ms_sign_state [OF r] have eq: "answered j s1 = answered j s" "in_signing j s1 = in_signing j ?s" "received j s1 = received j s"
    for j by (auto simp: answered_def in_signing_def received_def)
  have "once_inv s1" unfolding once_inv_def
  proof
    fix j
    have "answered j s + in_signing j s \<le> received j s" using assms by (simp add: once_inv_def)
    then show "answered j s1 + in_signing j s1 \<le> received j s1"
      using in_signing_remove1 [OF True, of j] eq [of j] by simp
  qed
  moreover have "once_inv (ms_send (JobComplete msg) s1)" if "jc_job_id msg = ja_job_id (pj_job pj)" for msg
    unfolding once_inv_def
  proof
    fix j
    have "answered j s + in_signing j s \<le> received j s" using assms by (simp add: once_inv_def)
    moreover have "answered j (ms_send (JobComplete msg) s1) \<le> answered j s1 + (if ja_job_id (pj_job pj) = j then 1 else 0)"
      using answered_send [of j "JobComplete msg" s1] that by simp
    ultimately show "answered j (ms_send (JobComplete msg) s1) + in_signing j (ms_send (JobComplete msg) s1)
        \<le> received j (ms_send (JobComplete msg) s1)"
      using in_signing_remove1 [OF True, of j] eq [of j] by (simp add: in_signing_def received_def)
  qed
  ultimately have "once_inv (ms_track now pj ok err s1)"
    "jc_job_id msg = ja_job_id (pj_job pj) \<Longrightarrow> once_inv (ms_track now pj ok err (ms_send (JobComplete msg) s1))" for ok err msg
    using once_inv_quiet quiet_track by blast+
  with True r ms_sign_job show ?thesis by (cases r) (simp_all add: ms_jobSigned_def)
qed (use assms in \<open>simp add: ms_jobSigned_def\<close>)

lemma once_inv_message:
  assumes "once_inv s" shows "once_inv (ms_onmessage E d i raw s)"
proof -
  have "quiet s (ms_handleFeedbackPosted j tx net url s)" for j tx net url
    using quiet_trans [OF quiet_entry quiet_emit] by (simp add: ms_handleFeedbackPosted_def)
  moreover have "quiet s (ms_handlePaymentPosted E js tx am tok url s)" for js tx am tok url
    using quiet_trans [OF quiet_entries quiet_emit] by (simp add: ms_handlePaymentPosted_def)
  moreover have "quiet s (ms_handleFeedbackFailed j s)" "quiet s (ms_handlePaymentFailed js s)" "quiet s (ms_handleError c m s)"
    for j js c m by (simp_all add: ms_handleFeedbackFailed_def ms_handlePaymentFailed_def ms_handleError_def quiet_entry quiet_entries)
  ultimately show ?thesis using assms once_inv_assign [OF assms, of E d] once_inv_quiet [OF assms] quiet_ack [of s]
    by (simp add: ms_onmessage_def ms_handleMessage_def split: worker_inbound.split CoordinatorToWorker.split)
qed

lemma quiet_stopHeartbeat: "quiet s (ms_stopHeartbeat s)"
  by (simp add: ms_stopHeartbeat_def quiet_fields)

lemma quiet_onclose: "quiet s (ms_onclose i s)"
proof -
  let ?t = "socket_update i (\<lambda>so. so\<lparr>so_ready := SockClosed\<rparr>) s"
  have t: "quiet s ?t" by (simp add: quiet_socket_update)
  have "quiet s (ms_scheduleReconnect (ms_setStatus Reconnecting (ms_stopHeartbeat ?t)))"
    "quiet s (ms_setStatus Disconnected (ms_stopHeartbeat ?t))"
    by (rule quiet_trans [OF t quiet_trans [OF quiet_stopHeartbeat quiet_trans [OF quiet_setStatus quiet_scheduleReconnect]]],
        rule quiet_trans [OF t quiet_trans [OF quiet_stopHeartbeat quiet_setStatus]])
  with t show ?thesis by (simp add: ms_onclose_def)
qed

lemma quiet_onopen: "quiet s (ms_onopen i s)"
proof -
  let ?t = "socket_update i (\<lambda>so. so\<lparr>so_ready := SockOpen\<rparr>) s"
  have t: "quiet s ?t" by (simp add: quiet_socket_update)
  have "quiet ?t (?t\<lparr>ms_attempts := 0\<rparr>)" by (simp add: quiet_fields)
  from quiet_trans [OF t this]
  have "quiet s (?t\<lparr>ms_attempts := 0\<rparr>)" "quiet s (ms_send (createRegisterMsg pk cs) (?t\<lparr>ms_attempts := 0\<rparr>))" for pk cs
    using quiet_trans [OF _ quiet_send] by auto
  with t show ?thesis by (simp add: ms_onopen_def ms_sendRegister_def split: option.split)
qed

lemma quiet_timer: "quiet s (ms_timer E h s)"
proof -
  have t: "quiet s (s\<lparr>ms_timers := x\<rparr>)" for x by (simp add: quiet_fields)
  from t quiet_trans [OF t quiet_doConnect] show ?thesis by (simp add: ms_timer_def)
qed

lemma quiet_disconnect: "quiet s (ms_disconnect s)"
proof -
  have "quiet s (s\<lparr>ms_shouldReconnect := False\<rparr>)" by (simp add: quiet_fields)
  from quiet_trans [OF this quiet_trans [OF quiet_cleanup quiet_setStatus]] show ?thesis by (simp add: ms_disconnect_def)
qed

lemma once_inv_step:
  assumes "once_inv s" "mobile_step E s t" shows "once_inv t"
  using assms(2)
proof (cases rule: mobile_step.cases)
  case (mob_onmessage d i raw)
  with assms(1) once_inv_message show ?thesis by simp
next
  case (mob_signed seed isodate now pj)
  with assms(1) once_inv_signed show ?thesis by simp
next
  case mob_heartbeat
  have "quiet s (ms_heartbeatTick s)" by (simp add: ms_heartbeatTick_def quiet_send split: option.split)
  with mob_heartbeat assms(1) once_inv_quiet show ?thesis by simp
qed (use once_inv_quiet [OF assms(1)] quiet_connectDone quiet_disconnect quiet_onopen quiet_onclose quiet_timer in
    \<open>simp_all add: ms_connect_def ms_setCoordinatorUrl_def ms_setSigningProvider_def ms_onerror_def quiet_fields\<close>)

definition mobile_inv :: "mobile \<Rightarrow> bool" where
  "mobile_inv s \<longleftrightarrow> conn_inv s \<and> hist_inv s \<and> once_inv s"

interpretation mobI: inductive_invariant mobile_init "mobile_step E" mobile_inv for E
proof
  show "mobile_init s \<Longrightarrow> mobile_inv s" for s
    by (auto simp: mobile_init_def mobile_new_def mobile_inv_def conn_inv_def hist_inv_def once_inv_def successes_def
        answered_def in_signing_def received_def)
  show "mobile_inv s \<Longrightarrow> mobile_step E s t \<Longrightarrow> mobile_inv t" for s t
    using conn_inv_step hist_inv_step once_inv_step by (auto simp: mobile_inv_def)
qed

subsection \<open>The provider in use signs what the coordinator accepts\<close>

definition mobile_good :: "mobile_env \<Rightarrow> string \<Rightarrow> signer \<Rightarrow> hub_env \<Rightarrow> mobile \<Rightarrow> bool" where
  "mobile_good E seed sg X s =
     (case sg of
        SDevice \<Rightarrow> device_good (me_crypto E) (me_ns E) seed X (ms_device s)
      | SWallet \<Rightarrow> mwa_good (me_wallet E) X (ms_mwa s))"

lemma provider_lift [simp]:
  "fst (provider_getPublicKeyHex E seed SDevice s) = fst (device_getPublicKeyHex (me_crypto E) (me_ns E) seed (ms_device s))"
  "ms_device (snd (provider_getPublicKeyHex E seed SDevice s)) = snd (device_getPublicKeyHex (me_crypto E) (me_ns E) seed (ms_device s))"
  "fst (provider_signMessage E seed SDevice m s) = fst (device_signMessage (me_crypto E) (me_ns E) seed m (ms_device s))"
  "ms_device (snd (provider_signMessage E seed SDevice m s)) = snd (device_signMessage (me_crypto E) (me_ns E) seed m (ms_device s))"
  "fst (provider_getPublicKeyHex E seed SWallet s) = fst (mwa_getPublicKeyHex (ms_mwa s))"
  "ms_mwa (snd (provider_getPublicKeyHex E seed SWallet s)) = snd (mwa_getPublicKeyHex (ms_mwa s))"
  "fst (provider_signMessage E seed SWallet m s) = fst (mwa_signMessage (me_wallet E) m (ms_mwa s))"
  "ms_mwa (snd (provider_signMessage E seed SWallet m s)) = snd (mwa_signMessage (me_wallet E) m (ms_mwa s))"
  by (simp_all add: provider_getPublicKeyHex_def provider_signMessage_def split: prod.split)

interpretation mobP: signing_provider "provider_getPublicKeyHex E seed sg" "provider_signMessage E seed sg" "mobile_good E seed sg"
  for E seed sg
proof
  fix X s pk m
  assume good: "mobile_good E seed sg X s"
  then show "\<exists>pk. fst (provider_getPublicKeyHex E seed sg s) = Inr pk \<and> mobile_good E seed sg X (snd (provider_getPublicKeyHex E seed sg s))"
    using deviceP.get_ok mwaP.get_ok by (cases sg) (simp_all add: mobile_good_def)
  show "fst (provider_getPublicKeyHex E seed sg (snd (provider_getPublicKeyHex E seed sg s))) = fst (provider_getPublicKeyHex E seed sg s)"
    using good deviceP.get_stable mwaP.get_stable by (cases sg) (simp_all add: mobile_good_def)
  assume "fst (provider_getPublicKeyHex E seed sg s) = Inr pk"
  with good show "\<exists>sig. fst (provider_signMessage E seed sg m s) = Inr (b64_encode sig) \<and> x_verify X m sig (hex_decode pk) = Some True \<and>
      mobile_good E seed sg X (snd (provider_signMessage E seed sg m s)) \<and>
      fst (provider_getPublicKeyHex E seed sg (snd (provider_signMessage E seed sg m s))) = Inr pk"
    using deviceP.sign_ok mwaP.sign_ok by (cases sg) (simp_all add: mobile_good_def)
qed

subsection \<open>Main properties\<close>

text \<open>Concrete values for the examples: the device key \<open>''p''\<close> with secret \<open>''s''\<close> in the key store.\<close>

definition demo_mobile_env :: mobile_env where
  "demo_mobile_env = \<lparr>me_ns = \<lambda>_. ''0'', me_crypto = demo_crypto, me_wallet = \<lparr>wl_authorize = \<lambda>_. Inl [],
     wl_signMessages = \<lambda>_ _. Inl [], wl_publicKey = \<lambda>_. None\<rparr>, me_wsError = \<lambda>_. None, me_errText = \<lambda>_. []\<rparr>"

definition demo_mobile :: mobile where
  "demo_mobile = (mobile_new \<lparr>dp_keys = Some (keypair_of ''p'' ''s''), dp_store = \<lparr>ks_secret = None, ks_pubkey = None\<rparr>\<rparr>
     \<lparr>mw_authToken = None, mw_walletAddress = None, mw_publicKeyBytes = None, mw_storedToken = None, mw_storedAddress = None\<rparr>)"

text \<open>C26. The mobile worker never gives up a connection it wants. In every reachable state, a
  connected service has a worker id, keys and a running heartbeat; a service whose status is
  \<open>reconnecting\<close> has a pending timer of one to thirty seconds, and when any pending timer fires and the
  socket can be created, the service is connecting again through a new socket.\<close>

theorem mobile_keeps_reconnecting:
  assumes "reachable mobile_init (mobile_step E) s"
  shows "(ms_status s = Connected \<longrightarrow> ms_workerId s \<noteq> None \<and> ms_keys s \<noteq> None \<and> ms_heartbeat s) \<and>
    (ms_status s = Reconnecting \<longrightarrow> ms_timers s \<noteq> [] \<and>
      (\<forall>(h, d) \<in> set (ms_timers s). 1000 \<le> d \<and> d \<le> 30000 \<and>
        (me_wsError E (ms_coordinatorUrl s) = None \<longrightarrow>
          ms_status (ms_timer E h s) = Connecting \<and> ms_ws (ms_timer E h s) = Some (length (ms_sockets s)) \<and>
          so_ready (ms_sockets (ms_timer E h s) ! length (ms_sockets s)) = SockConnecting)))"
proof -
  have inv: "conn_inv s" using mobI.reachable_inv [OF assms] by (simp add: mobile_inv_def)
  have "ms_status (ms_timer E h s) = Connecting \<and> ms_ws (ms_timer E h s) = Some (length (ms_sockets s)) \<and>
      so_ready (ms_sockets (ms_timer E h s) ! length (ms_sockets s)) = SockConnecting"
    if "(h, d) \<in> set (ms_timers s)" "me_wsError E (ms_coordinatorUrl s) = None" "ms_status s = Reconnecting" for h d
  proof -
    have "h \<in> fst ` set (ms_timers s)" using that(1) by force
    moreover have "ms_shouldReconnect s" "ms_keys s \<noteq> None" using inv that(3) by (auto simp: conn_inv_def)
    ultimately show ?thesis using that(2,3) by (simp add: ms_timer_def ms_doConnect_def ms_setStatus_def ms_emit_def)
  qed
  with inv show ?thesis by (auto simp: conn_inv_def maxReconnectDelay_def)
qed

text \<open>A run: choose the device key, connect, open, lose the connection.\<close>

definition demo_registered :: mobile where
  "demo_registered = ms_onopen 0 (ms_connectDone demo_mobile_env ''k'' (Some SDevice)
     (ms_connect (ms_setSigningProvider (Some SDevice) demo_mobile)))"

definition demo_lost :: mobile where
  "demo_lost = ms_onclose 0 demo_registered"

lemma demo_registered_reachable: "reachable mobile_init (mobile_step demo_mobile_env) demo_registered"
proof -
  let ?E = demo_mobile_env
  let ?s1 = "ms_setSigningProvider (Some SDevice) demo_mobile"
  have "reachable mobile_init (mobile_step ?E) demo_mobile"
    by (rule reachable.intros(1)) (auto simp: mobile_init_def demo_mobile_def)
  then have "reachable mobile_init (mobile_step ?E) ?s1" using mob_setSigner by (rule reachable.intros(2))
  then have "reachable mobile_init (mobile_step ?E) (ms_connect ?s1)" using mob_connect by (rule reachable.intros(2))
  then have "reachable mobile_init (mobile_step ?E) (ms_connectDone ?E ''k'' (Some SDevice) (ms_connect ?s1))"
    using mob_connectDone by (rule reachable.intros(2))
  then show ?thesis unfolding demo_registered_def using mob_onopen by (rule reachable.intros(2))
qed

lemma demo_lost_reachable: "reachable mobile_init (mobile_step demo_mobile_env) demo_lost"
  using demo_registered_reachable mob_onclose unfolding demo_lost_def by (rule reachable.intros(2))

lemmas demo_run_defs = demo_mobile_def demo_mobile_env_def demo_crypto_def keypair_of_def mobile_new_def
  ms_setSigningProvider_def ms_connect_def ms_connectDone_def ms_connectProvider_def provider_connect_def device_connect_def
  device_load_def getOrCreateKeypair_def provider_getPublicKeyHex_def device_getPublicKeyHex_def device_keys_def
  ms_doConnect_def ms_setStatus_def ms_emit_def ms_onopen_def ms_sendRegister_def socket_update_def handlers_on_def
  ms_send_def ws_is_open_def str_truthy_def

lemma demo_connected_eq:
  "\<exists>dev. ms_connectDone demo_mobile_env ''k'' (Some SDevice) (ms_connect (ms_setSigningProvider (Some SDevice) demo_mobile)) =
     demo_mobile\<lparr>ms_signingProvider := Some SDevice, ms_shouldReconnect := True, ms_device := dev,
       ms_keys := Some \<lparr>kp_publicKey = [], kp_secretKey = [], kp_pubkeyHex = hex_encode ''k''\<rparr>, ms_status := Connecting,
       ms_events := [MStatusChange Connecting], ms_ws := Some 0,
       ms_sockets := [\<lparr>so_ready = SockConnecting, so_handlers = True, so_sent = []\<rparr>]\<rparr>"
  by (simp add: demo_run_defs)

lemma demo_registered_eq:
  "\<exists>dev. demo_registered =
     demo_mobile\<lparr>ms_signingProvider := Some SDevice, ms_shouldReconnect := True, ms_device := dev,
       ms_keys := Some \<lparr>kp_publicKey = [], kp_secretKey = [], kp_pubkeyHex = hex_encode ''k''\<rparr>, ms_status := Connecting,
       ms_events := [MStatusChange Connecting], ms_ws := Some 0,
       ms_sockets := [\<lparr>so_ready = SockOpen, so_handlers = True, so_sent = [createRegisterMsg (hex_encode ''k'') [TASK]]\<rparr>]\<rparr>"
  using demo_connected_eq unfolding demo_registered_def
  by (auto simp: demo_mobile_def mobile_new_def ms_onopen_def ms_sendRegister_def socket_update_def handlers_on_def
      ms_send_def ws_is_open_def)

lemma demo_lost_eq: "ms_status demo_lost = Reconnecting \<and> ms_timers demo_lost = [(0, 1000)]"
proof -
  obtain dev where eq: "demo_registered =
     demo_mobile\<lparr>ms_signingProvider := Some SDevice, ms_shouldReconnect := True, ms_device := dev,
       ms_keys := Some \<lparr>kp_publicKey = [], kp_secretKey = [], kp_pubkeyHex = hex_encode ''k''\<rparr>, ms_status := Connecting,
       ms_events := [MStatusChange Connecting], ms_ws := Some 0,
       ms_sockets := [\<lparr>so_ready = SockOpen, so_handlers = True, so_sent = [createRegisterMsg (hex_encode ''k'') [TASK]]\<rparr>]\<rparr>"
    using demo_registered_eq by blast
  show ?thesis unfolding demo_lost_def eq
    by (simp add: demo_mobile_def mobile_new_def ms_onclose_def ms_stopHeartbeat_def ms_scheduleReconnect_def
        reconnect_delay_def maxReconnectDelay_def ms_setStatus_def ms_emit_def socket_update_def handlers_on_def)
qed

theorem mobile_keeps_reconnecting_witness:
  "ms_status demo_lost = Reconnecting \<and> ms_timers demo_lost = [(0, 1000)] \<and>
   ms_status (ms_timer demo_mobile_env 0 demo_lost) = Connecting"
proof -
  have "me_wsError demo_mobile_env (ms_coordinatorUrl demo_lost) = None" by (simp add: demo_mobile_env_def)
  with demo_lost_eq mobile_keeps_reconnecting [OF demo_lost_reachable] show ?thesis by simp
qed



lemma ms_disconnect_effect:
  assumes "ms_ws s = Some i" "i < length (ms_sockets s)"
  shows "ms_status (ms_disconnect s) = Disconnected" "ms_ws (ms_disconnect s) = None"
    "ms_sockets (ms_disconnect s) = (ms_sockets s)[i := socket_close ((ms_sockets s ! i)\<lparr>so_handlers := False\<rparr>)]"
  using assms by (simp_all add: ms_disconnect_def ms_cleanup_def ms_stopHeartbeat_def ms_setStatus_def ms_emit_def
      socket_update_def split: option.split)

lemma ms_onopen_fresh:
  assumes "ms_ws s = Some (length xs)" "ms_keys s = Some k"
    "ms_sockets s = xs @ [\<lparr>so_ready = SockConnecting, so_handlers = True, so_sent = []\<rparr>]"
  shows "ms_onopen (length xs) s = s\<lparr>ms_attempts := 0, ms_sockets := xs @
    [\<lparr>so_ready = SockOpen, so_handlers = True, so_sent = [createRegisterMsg (kp_pubkeyHex k) [TASK]]\<rparr>]\<rparr>"
  using assms by (simp add: ms_onopen_def ms_sendRegister_def socket_update_def handlers_on_def ms_send_def ws_is_open_def)

lemma ms_doConnect_fresh:
  assumes "ms_keys s \<noteq> None" "me_wsError E (ms_coordinatorUrl s) = None"
  shows "ms_ws (ms_doConnect E s) = Some (length (ms_sockets s))" "ms_keys (ms_doConnect E s) = ms_keys s"
    "ms_sockets (ms_doConnect E s) = ms_sockets s @ [\<lparr>so_ready = SockConnecting, so_handlers = True, so_sent = []\<rparr>]"
    "ms_timers (ms_doConnect E s) = ms_timers s" "ms_shouldReconnect (ms_doConnect E s) = ms_shouldReconnect s"
  using assms by (auto simp: ms_doConnect_def ms_setStatus_def ms_emit_def)

text \<open>C28. Connecting by hand while a reconnection is pending leaks a socket. \<open>connect()\<close> goes ahead when
  the status is \<open>reconnecting\<close> and leaves the timer running; when the timer fires, a second socket
  replaces the first one in \<open>this.ws\<close>. After \<open>disconnect()\<close> the service shows \<open>disconnected\<close>, but the
  first socket is still open, registered with the coordinator, and its handlers are still attached.\<close>

theorem connect_while_reconnecting_leaks:
  assumes "ms_status s = Reconnecting" and "(h, d) \<in> set (ms_timers s)" and "\<And>url. me_wsError E url = None"
    and "ms_signingProvider s = Some sg"
    and "ms_connectProvider E seed sg (s\<lparr>ms_shouldReconnect := True, ms_attempts := 0,
           ms_connects := remove1 (Some sg) (ms_connects s @ [Some sg])\<rparr>) = (Inr pk, s')"
  shows "let n = length (ms_sockets s);
             s1 = ms_onopen n (ms_connectDone E seed (Some sg) (ms_connect s));
             s2 = ms_onopen (Suc n) (ms_timer E h s1);
             s3 = ms_disconnect s2 in
     ms_status s3 = Disconnected \<and> ms_ws s3 = None \<and> so_ready (ms_sockets s3 ! Suc n) = SockClosing \<and>
     ms_sockets s3 ! n = \<lparr>so_ready = SockOpen, so_handlers = True, so_sent = [createRegisterMsg pk [TASK]]\<rparr>"
proof -
  let ?fresh = "\<lparr>so_ready = SockConnecting, so_handlers = True, so_sent = []\<rparr>"
  let ?open = "\<lparr>so_ready = SockOpen, so_handlers = True, so_sent = [createRegisterMsg pk [TASK]]\<rparr>"
  let ?n = "length (ms_sockets s)"
  let ?k = "\<lparr>kp_publicKey = [], kp_secretKey = [], kp_pubkeyHex = pk\<rparr>"
  have s': "ms_sockets s' = ms_sockets s" "ms_timers s' = ms_timers s" "ms_shouldReconnect s'"
    using ms_connectProvider_state [OF assms(5)] by auto
  define t where "t = ms_doConnect E (s'\<lparr>ms_keys := Some ?k\<rparr>)"
  have t: "ms_connectDone E seed (Some sg) (ms_connect s) = t"
    using assms(1,4,5) by (simp add: ms_connectDone_def ms_connect_def t_def)
  have t_eq: "ms_ws t = Some ?n" "ms_keys t = Some ?k" "ms_sockets t = ms_sockets s @ [?fresh]" "ms_timers t = ms_timers s"
    "ms_shouldReconnect t" unfolding t_def using assms(3) s' by (simp_all add: ms_doConnect_fresh)
  define s1 where "s1 = t\<lparr>ms_attempts := 0, ms_sockets := ms_sockets s @ [?open]\<rparr>"
  have s1: "ms_onopen ?n t = s1" using ms_onopen_fresh [OF t_eq(1-3)] by (simp add: s1_def)
  define s2 where "s2 = ms_doConnect E (s1\<lparr>ms_timers := filter (\<lambda>(k, _). k \<noteq> h) (ms_timers s1)\<rparr>)"
  have "h \<in> fst ` set (ms_timers s1)" using assms(2) t_eq(4) by (force simp: s1_def)
  then have s2: "ms_timer E h s1 = s2" using t_eq(5) by (simp add: ms_timer_def s2_def s1_def)
  have s2_eq: "ms_ws s2 = Some (Suc ?n)" "ms_keys s2 = Some ?k" "ms_sockets s2 = (ms_sockets s @ [?open]) @ [?fresh]"
    unfolding s2_def using assms(3) t_eq(2) by (simp_all add: ms_doConnect_fresh s1_def)
  have s3: "ms_onopen (Suc ?n) s2 = s2\<lparr>ms_attempts := 0, ms_sockets := (ms_sockets s @ [?open]) @ [?open]\<rparr>"
    using ms_onopen_fresh [of s2 "ms_sockets s @ [?open]", OF _ s2_eq(2) s2_eq(3)] s2_eq(1) by simp
  show ?thesis unfolding Let_def t s1 s2 s3
    using ms_disconnect_effect [of "s2\<lparr>ms_attempts := 0, ms_sockets := (ms_sockets s @ [?open]) @ [?open]\<rparr>" "Suc ?n"] s2_eq(1)
    by (simp add: socket_close_def nth_append)
qed

theorem connect_while_reconnecting_leaks_witness:
  "let s = demo_mobile\<lparr>ms_status := Reconnecting, ms_timers := [(0, 1000)], ms_signingProvider := Some SDevice\<rparr>;
       s1 = ms_onopen 0 (ms_connectDone demo_mobile_env ''k'' (Some SDevice) (ms_connect s));
       s3 = ms_disconnect (ms_onopen 1 (ms_timer demo_mobile_env 0 s1)) in
   ms_status s3 = Disconnected \<and> so_ready (ms_sockets s3 ! 0) = SockOpen \<and> so_handlers (ms_sockets s3 ! 0)"
proof -
  let ?s = "demo_mobile\<lparr>ms_status := Reconnecting, ms_timers := [(0, 1000)], ms_signingProvider := Some SDevice\<rparr>"
  have st: "ms_status ?s = Reconnecting" "(0, 1000) \<in> set (ms_timers ?s)" "\<And>url. me_wsError demo_mobile_env url = None"
    "ms_signingProvider ?s = Some SDevice" by (simp_all add: demo_mobile_env_def)
  have "\<exists>pk s'. ms_connectProvider demo_mobile_env ''k'' SDevice (?s\<lparr>ms_shouldReconnect := True, ms_attempts := 0,
      ms_connects := remove1 (Some SDevice) (ms_connects ?s @ [Some SDevice])\<rparr>) = (Inr pk, s')"
    by (simp add: demo_run_defs)
  then obtain pk s' where c: "ms_connectProvider demo_mobile_env ''k'' SDevice (?s\<lparr>ms_shouldReconnect := True, ms_attempts := 0,
      ms_connects := remove1 (Some SDevice) (ms_connects ?s @ [Some SDevice])\<rparr>) = (Inr pk, s')" by blast
  have n: "length (ms_sockets ?s) = 0" by (simp add: demo_mobile_def mobile_new_def)
  show ?thesis using connect_while_reconnecting_leaks [OF st c] unfolding n by (simp only: Let_def One_nat_def) simp
qed



end
