(* ===== verification/MobileWallet.thy ===== *)
theory MobileWallet
  imports MobileWs
begin

section \<open>Mobile worker: \<open>WalletProvider\<close> and \<open>useWorker\<close>\<close>

text \<open>
  \<open>mobile/seeker-solana/src/contexts/WalletProvider.tsx\<close> and \<open>hooks/useWorker.ts\<close>, the state
  behind the user interface. The record \<open>app\<close> holds the singleton service, the provider's React
  state and \<open>AsyncStorage\<close>. The listeners the provider subscribes run inside \<open>emit\<close>, so an
  operation on the service is followed by \<open>app_event\<close> for each event it emitted, in order.

  Jobs are shared with the service: the displayed history is a list of addresses in the service's heap.
  After \<open>loadPersistedState\<close> even the array is shared (both get the parsed array), which
  \<open>ap_shared\<close> records; every update of the React state makes a new array. Values in storage are kept
  decoded: the texts written by \<open>String\<close> and \<open>JSON.stringify\<close> are read back by \<open>parseFloat\<close>,
  \<open>parseInt\<close> and \<open>JSON.parse\<close>, and nothing else writes these keys.
\<close>

record storage =
  st_earnings :: "rat option"
  st_jobsCompleted :: "nat option"
  st_history :: "CompletedJob list option"
  st_url :: "string option"
  st_signingMode :: "signer option"
  st_hasOnboarded :: "string option"

record app =
  ap_service :: mobile
  ap_workerId :: "string option"
  ap_status :: ConnectionStatus
  ap_totalEarnings :: rat
  ap_jobsCompleted :: nat
  ap_history :: "nat list"
  ap_shared :: bool
  ap_coordinatorUrl :: string
  ap_isLoading :: bool
  ap_signingMode :: signer
  ap_walletAddress :: "string option"
  ap_shouldAutoConnect :: bool
  ap_isToggling :: bool
  ap_storage :: storage

definition DEFAULT_COORDINATOR_URL :: "string option \<Rightarrow> string" where
  "DEFAULT_COORDINATOR_URL EXPO_PUBLIC_COORDINATOR_URL =
     (case EXPO_PUBLIC_COORDINATOR_URL of
        Some u \<Rightarrow> u
      | None \<Rightarrow> ''wss://dispatch-solana-production.up.railway.app'')"

text \<open>A fresh process over what storage holds.\<close>

definition app_new :: "string option \<Rightarrow> mobile \<Rightarrow> storage \<Rightarrow> app" where
  "app_new env service st =
     \<lparr>ap_service = service, ap_workerId = None, ap_status = Disconnected, ap_totalEarnings = 0, ap_jobsCompleted = 0,
      ap_history = [], ap_shared = False, ap_coordinatorUrl = DEFAULT_COORDINATOR_URL env, ap_isLoading = True,
      ap_signingMode = SDevice, ap_walletAddress = None, ap_shouldAutoConnect = False, ap_isToggling = False,
      ap_storage = st\<rparr>"

definition loadEarnings :: "app \<Rightarrow> app" where
  "loadEarnings a =
     (case st_earnings (ap_storage a) of
        Some e \<Rightarrow> a\<lparr>ap_totalEarnings := e, ap_service := ms_setEarnings e (ap_service a)\<rparr>
      | None \<Rightarrow> a)"

definition loadHistory :: "app \<Rightarrow> app" where
  "loadHistory a =
     (case st_history (ap_storage a) of
        Some jobs \<Rightarrow>
          (let s = ms_setJobHistory jobs (ap_service a) in
           a\<lparr>ap_service := s, ap_history := ms_history s, ap_shared := True\<rparr>)
      | None \<Rightarrow> a)"

definition loadPersistedState :: "string option \<Rightarrow> app \<Rightarrow> app" where
  "loadPersistedState env a =
     (let st = ap_storage a;
          a1 = loadEarnings a;
          a2 = (case st_jobsCompleted st of Some n \<Rightarrow> a1\<lparr>ap_jobsCompleted := n\<rparr> | None \<Rightarrow> a1);
          a3 = loadHistory a2;
          url = (case st_url st of Some u \<Rightarrow> u | None \<Rightarrow> DEFAULT_COORDINATOR_URL env);
          a4 = a3\<lparr>ap_coordinatorUrl := url, ap_service := ms_setCoordinatorUrl url (ap_service a3)\<rparr>;
          mode = (if st_signingMode st = Some SWallet then SWallet else SDevice);
          a5 = a4\<lparr>ap_signingMode := mode, ap_service := ms_setSigningProvider (Some mode) (ap_service a4)\<rparr>;
          workerId = getWorkerId (dp_store (ms_device (ap_service a5)));
          a6 = (if str_truthy workerId then a5\<lparr>ap_workerId := workerId\<rparr> else a5);
          a7 = (if st_hasOnboarded st = Some ''true'' then a6\<lparr>ap_shouldAutoConnect := True\<rparr> else a6) in
      a7\<lparr>ap_isLoading := False\<rparr>)"

text \<open>\<open>prev\<close> of a state updater, and the updater's \<open>next\<close> with the write to storage.\<close>

definition prev_history :: "app \<Rightarrow> nat list" where
  "prev_history a = (if ap_shared a then ms_history (ap_service a) else ap_history a)"

definition jobs_at :: "mobile \<Rightarrow> nat list \<Rightarrow> CompletedJob list" where
  "jobs_at s as = map (\<lambda>i. ms_heap s ! i) as"

definition set_history :: "nat list \<Rightarrow> app \<Rightarrow> app" where
  "set_history as a =
     a\<lparr>ap_history := as, ap_shared := False,
       ap_storage := (ap_storage a)\<lparr>st_history := Some (jobs_at (ap_service a) as)\<rparr>\<rparr>"

definition on_jobCompleted :: "nat \<Rightarrow> app \<Rightarrow> app" where
  "on_jobCompleted i a =
     (let a1 = set_history (take 50 (i # prev_history a)) a in
      if cj_success (ms_heap (ap_service a) ! i) then
        a1\<lparr>ap_jobsCompleted := ap_jobsCompleted a1 + 1,
           ap_storage := (ap_storage a1)\<lparr>st_jobsCompleted := Some (ap_jobsCompleted a1 + 1)\<rparr>\<rparr>
      else a1)"

text \<open>The six subscriptions; \<open>jobReceived\<close> and \<open>error\<close> have none here.\<close>

definition app_event :: "mobile_event \<Rightarrow> app \<Rightarrow> app" where
  "app_event ev a =
     (case ev of
        MStatusChange st \<Rightarrow> a\<lparr>ap_status := st\<rparr>
      | MRegistered w \<Rightarrow> a\<lparr>ap_workerId := Some w\<rparr>
      | MJobCompleted i \<Rightarrow> on_jobCompleted i a
      | MEarnings t \<Rightarrow> a\<lparr>ap_totalEarnings := t, ap_storage := (ap_storage a)\<lparr>st_earnings := Some t\<rparr>\<rparr>
      | MFeedbackPosted _ _ _ _ \<Rightarrow> set_history (prev_history a) a
      | MPaymentPosted _ _ _ _ \<Rightarrow> set_history (prev_history a) a
      | MJobReceived _ \<Rightarrow> a
      | MError _ \<Rightarrow> a)"

text \<open>An operation of the service, with the listeners.\<close>

definition app_run :: "(mobile \<Rightarrow> mobile) \<Rightarrow> app \<Rightarrow> app" where
  "app_run f a =
     (let s = f (ap_service a) in
      fold app_event (drop (length (ms_events (ap_service a))) (ms_events s)) (a\<lparr>ap_service := s\<rparr>))"

definition app_connect :: "app \<Rightarrow> app" where
  "app_connect a = app_run ms_connect a"

definition app_disconnect :: "app \<Rightarrow> app" where
  "app_disconnect a = app_run ms_disconnect a"

definition app_setCoordinatorUrl :: "string \<Rightarrow> app \<Rightarrow> app" where
  "app_setCoordinatorUrl url a =
     (let nextUrl = js_trim url in
      if nextUrl = [] \<or> nextUrl = ap_coordinatorUrl a then a
      else
        (let shouldReconnect = ap_status a \<in> {Connected, Reconnecting};
             a1 = (if shouldReconnect then app_disconnect a else a);
             a2 = a1\<lparr>ap_coordinatorUrl := nextUrl, ap_service := ms_setCoordinatorUrl nextUrl (ap_service a1),
                     ap_storage := (ap_storage a1)\<lparr>st_url := Some nextUrl\<rparr>\<rparr> in
         if shouldReconnect then app_connect a2 else a2))"

definition use_signer :: "signer \<Rightarrow> app \<Rightarrow> app" where
  "use_signer sg a =
     a\<lparr>ap_signingMode := sg, ap_service := ms_setSigningProvider (Some sg) (ap_service a),
       ap_storage := (ap_storage a)\<lparr>st_signingMode := Some sg\<rparr>\<rparr>"

text \<open>The error is the exception \<open>connectWallet\<close> rethrows.\<close>

definition app_connectWallet :: "mobile_env \<Rightarrow> string \<Rightarrow> app \<Rightarrow> key_error option \<times> app" where
  "app_connectWallet E platform_OS a =
     (if \<not> mwa_isAvailable platform_OS then
        (Some (WalletError ''Mobile Wallet Adapter is only available on Android.''), a)
      else
        (case mwa_connect (me_wallet E) (ms_mwa (ap_service a)) of
           (Inr _, p) \<Rightarrow>
             (None, use_signer SWallet (a\<lparr>ap_service := (ap_service a)\<lparr>ms_mwa := p\<rparr>, ap_walletAddress := mwa_getWalletAddress p\<rparr>))
         | (Inl e, p) \<Rightarrow> (Some e, use_signer SDevice (a\<lparr>ap_service := (ap_service a)\<lparr>ms_mwa := p\<rparr>\<rparr>))))"

definition app_disconnectWallet :: "app \<Rightarrow> app" where
  "app_disconnectWallet a =
     use_signer SDevice (a\<lparr>ap_service := (ap_service a)\<lparr>ms_mwa := mwa_disconnect (ms_mwa (ap_service a))\<rparr>,
                          ap_walletAddress := None\<rparr>)"

definition app_switchSigningMode :: "signer \<Rightarrow> app \<Rightarrow> app" where
  "app_switchSigningMode mode a =
     (case mode of
        SDevice \<Rightarrow> (use_signer SDevice a)\<lparr>ap_walletAddress := None\<rparr>
      | SWallet \<Rightarrow> use_signer SWallet a)"

text \<open>\<open>toggle\<close> of \<open>useWorker\<close>, and the timer that ends its loading state.\<close>

definition app_toggle :: "app \<Rightarrow> app" where
  "app_toggle a =
     (if ap_isToggling a then a
      else
        (let a1 = a\<lparr>ap_isToggling := True\<rparr> in
         if ap_status a1 \<in> {Connected, Reconnecting} then app_disconnect a1 else app_connect a1))"

definition app_toggleDone :: "app \<Rightarrow> app" where
  "app_toggleDone a = a\<lparr>ap_isToggling := False\<rparr>"

text \<open>Everything that can happen to the app: a step of the service that is not one of the two
  settings, and the actions of the user interface.\<close>

inductive app_step :: "mobile_env \<Rightarrow> app \<Rightarrow> app \<Rightarrow> bool" for E where
  ap_service_step: "mobile_step E (ap_service a) t \<Longrightarrow> ms_coordinatorUrl t = ms_coordinatorUrl (ap_service a) \<Longrightarrow>
     ms_signingProvider t = ms_signingProvider (ap_service a) \<Longrightarrow> app_step E a (app_run (\<lambda>_. t) a)"
| ap_setUrl: "app_step E a (app_setCoordinatorUrl url a)"
| ap_connectWallet: "app_step E a (snd (app_connectWallet E os a))"
| ap_disconnectWallet: "app_step E a (app_disconnectWallet a)"
| ap_switch: "app_step E a (app_switchSigningMode mode a)"
| ap_toggle: "app_step E a (app_toggle a)"
| ap_toggleDone: "app_step E a (app_toggleDone a)"

subsection \<open>Events tell everything the interface shows\<close>

definition last_status :: "mobile_event list \<Rightarrow> ConnectionStatus \<Rightarrow> ConnectionStatus" where
  "last_status evs st = fold (\<lambda>ev st. case ev of MStatusChange x \<Rightarrow> x | _ \<Rightarrow> st) evs st"

definition last_earnings :: "mobile_event list \<Rightarrow> rat \<Rightarrow> rat" where
  "last_earnings evs e = fold (\<lambda>ev e. case ev of MEarnings x \<Rightarrow> x | _ \<Rightarrow> e) evs e"

definition reports :: "mobile_event list \<Rightarrow> nat set" where
  "reports evs = {i. MJobCompleted i \<in> set evs}"

definition addr_ok :: "mobile \<Rightarrow> bool" where
  "addr_ok s \<longleftrightarrow> (\<forall>i \<in> set (ms_history s). i < length (ms_heap s))"

definition tracked :: "mobile \<Rightarrow> mobile \<Rightarrow> bool" where
  "tracked s t \<longleftrightarrow> (addr_ok s \<longrightarrow> addr_ok t \<and> length (ms_heap s) \<le> length (ms_heap t) \<and>
     (\<exists>evs. ms_events t = ms_events s @ evs \<and> last_status evs (ms_status s) = ms_status t \<and>
        last_earnings evs (ms_totalEarnings s) = ms_totalEarnings t \<and> (\<forall>i \<in> reports evs. i < length (ms_heap t)) \<and>
        (reports evs = {} \<longrightarrow> ms_heap t = ms_heap s \<and> ms_history t = ms_history s)))"

lemma reports_simps [simp]:
  "reports [] = {}" "reports (evs @ evs') = reports evs \<union> reports evs'"
  "reports [ev] = (case ev of MJobCompleted i \<Rightarrow> {i} | _ \<Rightarrow> {})"
  by (auto simp: reports_def split: mobile_event.splits)

lemma last_append [simp]:
  "last_status [] st = st" "last_earnings [] e = e"
  "last_status (evs @ evs') st = last_status evs' (last_status evs st)"
  "last_earnings (evs @ evs') e = last_earnings evs' (last_earnings evs e)"
  by (simp_all add: last_status_def last_earnings_def)

lemma tracked_trans: "tracked s t \<Longrightarrow> tracked t u \<Longrightarrow> tracked s u"
proof (cases "addr_ok s")
  case True
  assume st: "tracked s t" and tu: "tracked t u"
  from st True obtain evs where 1: "addr_ok t" "length (ms_heap s) \<le> length (ms_heap t)" "ms_events t = ms_events s @ evs"
    "last_status evs (ms_status s) = ms_status t" "last_earnings evs (ms_totalEarnings s) = ms_totalEarnings t"
    "\<forall>i \<in> reports evs. i < length (ms_heap t)" "reports evs = {} \<longrightarrow> ms_heap t = ms_heap s \<and> ms_history t = ms_history s"
    unfolding tracked_def by blast
  from tu 1(1) obtain evs' where 2: "addr_ok u" "length (ms_heap t) \<le> length (ms_heap u)" "ms_events u = ms_events t @ evs'"
    "last_status evs' (ms_status t) = ms_status u" "last_earnings evs' (ms_totalEarnings t) = ms_totalEarnings u"
    "\<forall>i \<in> reports evs'. i < length (ms_heap u)" "reports evs' = {} \<longrightarrow> ms_heap u = ms_heap t \<and> ms_history u = ms_history t"
    unfolding tracked_def by blast
  have "\<forall>i \<in> reports (evs @ evs'). i < length (ms_heap u)" using 1(6) 2(2,6) by auto
  moreover have "reports (evs @ evs') = {} \<longrightarrow> ms_heap u = ms_heap s \<and> ms_history u = ms_history s" using 1(7) 2(7) by simp
  ultimately show "tracked s u" unfolding tracked_def using 1(2-5) 2(1-5)
    by (intro impI conjI exI [of _ "evs @ evs'"]) simp_all
qed (simp add: tracked_def)

lemma tracked_fields:
  assumes "ms_heap t = ms_heap s" "ms_history t = ms_history s" "ms_totalEarnings t = ms_totalEarnings s"
    "ms_status t = ms_status s" "ms_events t = ms_events s"
  shows "tracked s t"
  unfolding tracked_def using assms by (auto simp: addr_ok_def intro!: exI [of _ "[]"])

lemma tracked_emit:
  assumes "\<And>x. ev \<noteq> MStatusChange x" "\<And>i. ev \<noteq> MJobCompleted i" "\<And>e. ev \<noteq> MEarnings e"
  shows "tracked s (ms_emit ev s)"
  unfolding tracked_def using assms
  by (intro impI conjI exI [of _ "[ev]"]) (auto simp: ms_emit_def addr_ok_def last_status_def last_earnings_def split: mobile_event.split)

lemma tracked_setStatus [simp]: "tracked s (ms_setStatus st s)"
proof (cases "ms_status s = st")
  case False
  then show ?thesis unfolding tracked_def ms_setStatus_def
    by (intro impI conjI exI [of _ "[MStatusChange st]"])
      (auto simp: ms_emit_def addr_ok_def last_status_def last_earnings_def)
qed (simp add: ms_setStatus_def tracked_fields)

lemma tracked_entry:
  "tracked s (update_job_entry f j s)"
proof (cases "find_job j s")
  case (Some i)
  then have "i \<in> set (ms_history s)" by (auto simp: find_job_def find_Some_iff)
  with Some show ?thesis unfolding tracked_def
    by (intro impI conjI exI [of _ "[MJobCompleted i]"])
      (auto simp: update_job_entry_def ms_emit_def addr_ok_def last_status_def last_earnings_def)
qed (simp add: update_job_entry_def tracked_fields)

lemma tracked_entries: "tracked s (fold (update_job_entry f) js s)"
  by (induction js arbitrary: s) (auto intro: tracked_trans [OF tracked_entry] tracked_fields)

lemma tracked_refl [simp]: "tracked s s"
  by (simp add: tracked_fields)

lemma tracked_track: "tracked s (ms_track now pj ok err s)"
proof (cases "ja_payload (pj_job pj) = JNull")
  case False
  let ?i = "length (ms_heap s)"
  let ?evs = "(if ok then [MEarnings (ms_totalEarnings s + TASK_PRICE_BOLT)] else []) @ [MJobCompleted ?i]"
  show ?thesis unfolding tracked_def using False
    by (intro impI conjI exI [of _ ?evs])
      (auto simp: ms_track_def ms_emit_def addr_ok_def last_status_def last_earnings_def take_Cons' less_SucI dest!: in_set_takeD)
qed (simp add: ms_track_def)

lemma tracked_socket_update [simp]: "tracked s (socket_update i f s)"
  by (rule tracked_fields) (simp_all add: socket_update_def)

lemma tracked_send [simp]: "tracked s (ms_send m s)"
  by (simp add: ms_send_def split: option.split)

lemma tracked_schedule [simp]: "tracked s (ms_scheduleReconnect s)"
  by (rule tracked_fields) (simp_all add: ms_scheduleReconnect_def)

lemma tracked_error [simp]: "tracked s (ms_emit (MError e) s)"
  by (rule tracked_emit) simp_all

lemma tracked_doConnect: "tracked s (ms_doConnect E s)"
proof -
  let ?t = "ms_setStatus Connecting s"
  have "tracked s (ms_scheduleReconnect (ms_emit (MError e) ?t))" for e
    by (rule tracked_trans [OF tracked_setStatus tracked_trans [OF tracked_error tracked_schedule]])
  moreover have "tracked s (?t\<lparr>ms_ws := w, ms_sockets := so\<rparr>)" for w so
    by (rule tracked_trans [OF tracked_setStatus tracked_fields]) simp_all
  ultimately show ?thesis by (simp add: ms_doConnect_def split: option.split)
qed

lemma tracked_connectDone: "tracked s (ms_connectDone E seed start s)"
proof (cases start)
  case None
  have "tracked s (ms_doConnect E (s\<lparr>ms_connects := c, ms_keys := k, ms_device := d\<rparr>))" for c k d
    by (rule tracked_trans [OF _ tracked_doConnect]) (simp add: tracked_fields)
  moreover have "tracked s (ms_emit (MError e) (s\<lparr>ms_connects := c\<rparr>))" for e c
    by (rule tracked_trans [OF _ tracked_error]) (simp add: tracked_fields)
  ultimately show ?thesis using None by (simp add: ms_connectDone_def split: sum.split prod.split)
next
  case (Some sg)
  obtain r s2 where r: "ms_connectProvider E seed sg (s\<lparr>ms_connects := remove1 start (ms_connects s)\<rparr>) = (r, s2)"
    by fastforce
  with ms_connectProvider_state [OF r] have "tracked s (s2\<lparr>ms_keys := k\<rparr>)" "tracked s s2" for k
    by (auto intro!: tracked_fields)
  then have "tracked s (ms_doConnect E (s2\<lparr>ms_keys := k\<rparr>))" "tracked s (ms_emit (MError e) s2)" for k e
    using tracked_trans tracked_doConnect tracked_error by blast+
  with Some r show ?thesis by (cases r) (simp_all add: ms_connectDone_def)
qed

lemma tracked_disconnect: "tracked s (ms_disconnect s)"
  unfolding ms_disconnect_def
  by (rule tracked_trans [OF tracked_fields tracked_setStatus])
    (simp_all add: ms_cleanup_def ms_stopHeartbeat_def socket_update_def split: option.split)

lemma tracked_signed: "tracked s (ms_jobSigned E seed isodate now pj s)"
proof -
  obtain r s1 where r: "ms_sign E seed isodate pj (s\<lparr>ms_pending := remove1 pj (ms_pending s)\<rparr>) = (r, s1)" by fastforce
  with ms_sign_state [OF r] have s1: "tracked s s1" by (auto intro!: tracked_fields)
  have "tracked s (ms_track now pj ok err s1)" "tracked s (ms_track now pj ok err (ms_send m s1))" for ok err m
    by (rule tracked_trans [OF s1 tracked_track], rule tracked_trans [OF s1 tracked_trans [OF tracked_send tracked_track]])
  with r show ?thesis by (cases r) (simp_all add: ms_jobSigned_def)
qed

lemma tracked_message: "tracked s (ms_onmessage E d i raw s)"
proof -
  have "tracked s (ms_handleRegisterAck wid err s)" for wid err
  proof -
    have "tracked s (ms_emit (MRegistered w) (ms_startHeartbeat (ms_setStatus Connected (s\<lparr>ms_workerId := wid\<rparr>))))" for w
      by (rule tracked_trans [OF tracked_fields tracked_trans [OF tracked_setStatus tracked_trans [OF tracked_fields tracked_emit]]])
        (simp_all add: ms_startHeartbeat_def ms_stopHeartbeat_def)
    moreover have "tracked s (socket_update k f (ms_emit (MError e) s))" for k f e
      by (rule tracked_trans [OF tracked_error tracked_socket_update])
    ultimately show ?thesis by (simp add: ms_handleRegisterAck_def split: option.split)
  qed
  moreover have "tracked s (ms_handleJobAssign E d msg s)" for msg
  proof -
    have *: "tracked s (ms_emit (MJobReceived j) s)" for j by (rule tracked_emit) simp_all
    have "tracked s ((ms_emit (MJobReceived j) s)\<lparr>ms_pending := p\<rparr>)" "tracked s (ms_send m (ms_emit (MJobReceived j) s))" for j p m
      by (rule tracked_trans [OF * tracked_fields], simp_all, rule tracked_trans [OF * tracked_send])
    then show ?thesis by (simp add: ms_handleJobAssign_def split: option.split sum.split)
  qed
  moreover have "tracked s (ms_handleFeedbackPosted j tx net url s)" for j tx net url
    unfolding ms_handleFeedbackPosted_def by (auto intro: tracked_trans [OF tracked_entry tracked_emit])
  moreover have "tracked s (ms_handlePaymentPosted E js tx am tok url s)" for js tx am tok url
    unfolding ms_handlePaymentPosted_def by (auto intro: tracked_trans [OF tracked_entries tracked_emit])
  ultimately show ?thesis
    by (simp add: ms_onmessage_def ms_handleMessage_def ms_handleError_def ms_handleFeedbackFailed_def ms_handlePaymentFailed_def
        tracked_entry tracked_entries split: worker_inbound.split CoordinatorToWorker.split)
qed

lemma tracked_onclose: "tracked s (ms_onclose i s)"
proof -
  let ?t = "ms_stopHeartbeat (socket_update i (\<lambda>so. so\<lparr>so_ready := SockClosed\<rparr>) s)"
  have t: "tracked s ?t" by (rule tracked_fields) (simp_all add: ms_stopHeartbeat_def socket_update_def)
  have "tracked s (ms_scheduleReconnect (ms_setStatus Reconnecting ?t))" "tracked s (ms_setStatus Disconnected ?t)"
    by (rule tracked_trans [OF t tracked_trans [OF tracked_setStatus tracked_schedule]], rule tracked_trans [OF t tracked_setStatus])
  then show ?thesis by (simp add: ms_onclose_def)
qed

lemma tracked_onopen: "tracked s (ms_onopen i s)"
proof -
  let ?t = "(socket_update i (\<lambda>so. so\<lparr>so_ready := SockOpen\<rparr>) s)\<lparr>ms_attempts := 0\<rparr>"
  have t: "tracked s ?t" by (rule tracked_fields) (simp_all add: socket_update_def)
  from t tracked_trans [OF t tracked_send] show ?thesis by (simp add: ms_onopen_def ms_sendRegister_def split: option.split)
qed

lemma tracked_timer: "tracked s (ms_timer E h s)"
proof -
  have "tracked s (s\<lparr>ms_timers := x\<rparr>)" for x by (rule tracked_fields) simp_all
  from this tracked_trans [OF this tracked_doConnect] show ?thesis by (simp add: ms_timer_def)
qed

lemma tracked_connect: "tracked s (ms_connect s)"
  by (rule tracked_fields) (simp_all add: ms_connect_def)

lemma tracked_step:
  assumes "mobile_step E s t" shows "tracked s t"
  using assms
  by (induction rule: mobile_step.induct)
    (simp_all add: tracked_connect tracked_connectDone tracked_disconnect tracked_onopen tracked_message tracked_onclose tracked_timer
      tracked_signed ms_setCoordinatorUrl_def ms_setSigningProvider_def tracked_fields ms_onerror_def ms_heartbeatTick_def
      split: option.split)

subsection \<open>What is displayed is what is stored\<close>

definition default :: "'a \<Rightarrow> 'a option \<Rightarrow> 'a" where
  "default x v = (case v of Some y \<Rightarrow> y | None \<Rightarrow> x)"

definition shown :: "app \<Rightarrow> CompletedJob list" where
  "shown a = jobs_at (ap_service a) (ap_history a)"

definition history_stored :: "app \<Rightarrow> bool" where
  "history_stored a \<longleftrightarrow> shown a = default [] (st_history (ap_storage a)) \<and>
     (\<forall>i \<in> set (ap_history a). i < length (ms_heap (ap_service a)))"

definition numbers_stored :: "app \<Rightarrow> bool" where
  "numbers_stored a \<longleftrightarrow> ap_jobsCompleted a = default 0 (st_jobsCompleted (ap_storage a)) \<and>
     ap_totalEarnings a = default 0 (st_earnings (ap_storage a))"

definition settings_stored :: "string option \<Rightarrow> app \<Rightarrow> bool" where
  "settings_stored env a \<longleftrightarrow>
     ap_coordinatorUrl a = default (DEFAULT_COORDINATOR_URL env) (st_url (ap_storage a)) \<and>
     ap_signingMode a = default SDevice (st_signingMode (ap_storage a)) \<and>
     ms_coordinatorUrl (ap_service a) = ap_coordinatorUrl a \<and> ms_signingProvider (ap_service a) = Some (ap_signingMode a)"

definition app_inv :: "string option \<Rightarrow> app \<Rightarrow> bool" where
  "app_inv env a \<longleftrightarrow> history_stored a \<and> numbers_stored a \<and> settings_stored env a \<and>
     ap_status a = ms_status (ap_service a) \<and> ap_totalEarnings a = ms_totalEarnings (ap_service a) \<and>
     addr_ok (ap_service a) \<and> (ap_shared a \<longrightarrow> ap_history a = ms_history (ap_service a))"

lemma app_event_service [simp]: "ap_service (app_event ev a) = ap_service a"
  by (simp add: app_event_def on_jobCompleted_def set_history_def split: mobile_event.split)

lemma app_events_service [simp]: "ap_service (fold app_event evs a) = ap_service a"
  by (induction evs arbitrary: a) simp_all

lemma app_events_status:
  "ap_status (fold app_event evs a) = last_status evs (ap_status a) \<and>
   ap_totalEarnings (fold app_event evs a) = last_earnings evs (ap_totalEarnings a)"
proof (induction evs arbitrary: a)
  case (Cons ev evs)
  have "ap_status (app_event ev a) = last_status [ev] (ap_status a)" "ap_totalEarnings (app_event ev a) = last_earnings [ev] (ap_totalEarnings a)"
    by (simp_all add: app_event_def on_jobCompleted_def set_history_def last_status_def last_earnings_def split: mobile_event.split)
  with Cons show ?case by (simp add: last_status_def last_earnings_def)
qed simp

lemma app_events_numbers: "numbers_stored a \<Longrightarrow> numbers_stored (fold app_event evs a)"
proof (induction evs arbitrary: a)
  case (Cons ev evs)
  then have "numbers_stored (app_event ev a)"
    by (auto simp: numbers_stored_def default_def app_event_def on_jobCompleted_def set_history_def split: mobile_event.split)
  with Cons.IH show ?case by simp
qed simp

lemma app_events_settings:
  "settings_stored env (fold app_event evs a) = settings_stored env a"
proof (induction evs arbitrary: a)
  case (Cons ev evs)
  have "settings_stored env (app_event ev a) = settings_stored env a"
    by (simp add: settings_stored_def app_event_def on_jobCompleted_def set_history_def split: mobile_event.split)
  with Cons show ?case by simp
qed simp

text \<open>While the events of one operation are handled: the lists hold addresses of jobs.\<close>

definition lists_ok :: "app \<Rightarrow> bool" where
  "lists_ok a \<longleftrightarrow> (\<forall>i \<in> set (prev_history a) \<union> set (ap_history a). i < length (ms_heap (ap_service a)))"

lemma set_history_stored:
  "\<forall>i \<in> set as. i < length (ms_heap (ap_service a)) \<Longrightarrow>
     history_stored (set_history as a) \<and> lists_ok (set_history as a) \<and> \<not> ap_shared (set_history as a)"
  by (auto simp: history_stored_def set_history_def shown_def default_def lists_ok_def prev_history_def)

lemma app_event_lists:
  assumes "lists_ok a" "\<forall>i \<in> reports [ev]. i < length (ms_heap (ap_service a))"
  shows "lists_ok (app_event ev a)" "history_stored a \<Longrightarrow> history_stored (app_event ev a)"
    "reports [ev] \<noteq> {} \<Longrightarrow> history_stored (app_event ev a)"
    "ap_shared (app_event ev a) \<Longrightarrow> ap_shared a \<and> ap_history (app_event ev a) = ap_history a"
    "reports [ev] \<noteq> {} \<Longrightarrow> \<not> ap_shared (app_event ev a)"
proof -
  have completed: "history_stored (on_jobCompleted i a) \<and> lists_ok (on_jobCompleted i a) \<and> \<not> ap_shared (on_jobCompleted i a)"
    if "i < length (ms_heap (ap_service a))" for i
  proof -
    have "\<forall>k \<in> set (take 50 (i # prev_history a)). k < length (ms_heap (ap_service a))"
      using that assms(1) by (auto simp: lists_ok_def dest: in_set_takeD)
    from set_history_stored [OF this] show ?thesis
      by (auto simp: on_jobCompleted_def history_stored_def shown_def default_def lists_ok_def prev_history_def set_history_def)
  qed
  have kept: "history_stored (set_history (prev_history a) a) \<and> lists_ok (set_history (prev_history a) a) \<and>
      \<not> ap_shared (set_history (prev_history a) a)"
    using assms(1) by (intro set_history_stored) (auto simp: lists_ok_def)
  show "lists_ok (app_event ev a)" using assms completed kept
    by (auto simp: app_event_def lists_ok_def prev_history_def split: mobile_event.splits)
  show "history_stored a \<Longrightarrow> history_stored (app_event ev a)" using assms completed kept
    by (auto simp: app_event_def history_stored_def shown_def split: mobile_event.splits)
  show "reports [ev] \<noteq> {} \<Longrightarrow> history_stored (app_event ev a)" "reports [ev] \<noteq> {} \<Longrightarrow> \<not> ap_shared (app_event ev a)"
    using assms completed by (auto simp: app_event_def split: mobile_event.splits)
  show "ap_shared (app_event ev a) \<Longrightarrow> ap_shared a \<and> ap_history (app_event ev a) = ap_history a"
    using assms completed kept by (auto simp: app_event_def split: mobile_event.splits)
qed

lemma reports_Cons: "reports (ev # evs) = reports [ev] \<union> reports evs"
  by (auto simp: reports_def)

lemma app_events_history:
  assumes "lists_ok a" "\<forall>i \<in> reports evs. i < length (ms_heap (ap_service a))" "history_stored a \<or> reports evs \<noteq> {}"
  shows "history_stored (fold app_event evs a) \<and>
    (ap_shared (fold app_event evs a) \<longrightarrow> ap_shared a \<and> reports evs = {} \<and> ap_history (fold app_event evs a) = ap_history a)"
  using assms
proof (induction evs arbitrary: a)
  case (Cons ev evs)
  have ev: "\<forall>i \<in> reports [ev]. i < length (ms_heap (ap_service a))" using Cons.prems(2) by (auto simp: reports_Cons [of ev evs])
  note facts = app_event_lists [OF Cons.prems(1) ev]
  have "\<forall>i \<in> reports evs. i < length (ms_heap (ap_service (app_event ev a)))" using Cons.prems(2) by (auto simp: reports_Cons [of ev evs])
  moreover have "history_stored (app_event ev a) \<or> reports evs \<noteq> {}"
    using facts(2,3) Cons.prems(3) by (auto simp: reports_Cons [of ev evs])
  ultimately show ?case using Cons.IH [OF facts(1)] facts(4,5) by (auto simp: reports_Cons [of ev evs])
qed auto

lemma shown_prefix:
  "\<forall>i \<in> set as. i < length (ms_heap s) \<Longrightarrow> ms_heap t = ms_heap s \<Longrightarrow> jobs_at t as = jobs_at s as"
  by (simp add: jobs_at_def)

lemma app_inv_run:
  assumes inv: "app_inv env a" and tr: "tracked (ap_service a) t"
    and set: "ms_coordinatorUrl t = ms_coordinatorUrl (ap_service a)" "ms_signingProvider t = ms_signingProvider (ap_service a)"
  shows "app_inv env (app_run (\<lambda>_. t) a)"
proof -
  let ?s = "ap_service a"
  have ok: "addr_ok ?s" using inv by (simp add: app_inv_def)
  from tr ok obtain evs where t: "addr_ok t" "length (ms_heap ?s) \<le> length (ms_heap t)" "ms_events t = ms_events ?s @ evs"
    "last_status evs (ms_status ?s) = ms_status t" "last_earnings evs (ms_totalEarnings ?s) = ms_totalEarnings t"
    "\<forall>i \<in> reports evs. i < length (ms_heap t)" "reports evs = {} \<longrightarrow> ms_heap t = ms_heap ?s \<and> ms_history t = ms_history ?s"
    unfolding tracked_def by blast
  let ?a = "a\<lparr>ap_service := t\<rparr>"
  have run: "app_run (\<lambda>_. t) a = fold app_event evs ?a" using t(3) by (simp add: app_run_def)
  have hist: "\<forall>i \<in> set (ap_history a). i < length (ms_heap t)" using inv t(2) by (auto simp: app_inv_def history_stored_def)
  have lists: "lists_ok ?a" using hist t(1) by (auto simp: lists_ok_def prev_history_def addr_ok_def)
  have "history_stored ?a" if "reports evs = {}"
    using inv that t(7) hist by (simp add: app_inv_def history_stored_def shown_def jobs_at_def)
  then have cond: "history_stored ?a \<or> reports evs \<noteq> {}" by blast
  have rep: "\<forall>i \<in> reports evs. i < length (ms_heap (ap_service ?a))" using t(6) by simp
  note h = app_events_history [OF lists rep cond]
  have shared: "ap_history (fold app_event evs ?a) = ms_history t" if "ap_shared (fold app_event evs ?a)"
  proof -
    from h that have "ap_shared ?a" "reports evs = {}" "ap_history (fold app_event evs ?a) = ap_history a" by simp_all
    with inv t(7) show ?thesis by (simp add: app_inv_def)
  qed
  have "numbers_stored (fold app_event evs ?a)" using inv by (intro app_events_numbers) (simp add: app_inv_def numbers_stored_def)
  moreover have "settings_stored env (fold app_event evs ?a)" unfolding app_events_settings
    using inv set by (simp add: app_inv_def settings_stored_def)
  moreover have "ap_status (fold app_event evs ?a) = ms_status t" "ap_totalEarnings (fold app_event evs ?a) = ms_totalEarnings t"
    using inv t(4,5) by (simp_all add: app_events_status app_inv_def)
  ultimately show ?thesis unfolding app_inv_def run using h t(1) shared by simp
qed

lemma app_inv_connect: "app_inv env a \<Longrightarrow> app_inv env (app_connect a)"
  using app_inv_run [OF _ tracked_connect, of env a] by (simp add: app_connect_def app_run_def ms_connect_def)

lemma app_inv_disconnect: "app_inv env a \<Longrightarrow> app_inv env (app_disconnect a)"
  using app_inv_run [OF _ tracked_disconnect, of env a]
  by (simp add: app_disconnect_def app_run_def)
    (simp add: ms_disconnect_def ms_cleanup_def ms_setStatus_def ms_emit_def ms_stopHeartbeat_def socket_update_def split: option.splits)

lemma app_inv_signer: "app_inv env a \<Longrightarrow> app_inv env (use_signer sg a)"
  by (simp add: app_inv_def use_signer_def history_stored_def shown_def jobs_at_def numbers_stored_def settings_stored_def
      default_def ms_setSigningProvider_def addr_ok_def)

lemma app_inv_other [simp]:
  "app_inv env (a\<lparr>ap_isToggling := b\<rparr>) = app_inv env a" "app_inv env (a\<lparr>ap_walletAddress := w\<rparr>) = app_inv env a"
  "app_inv env (a\<lparr>ap_service := (ap_service a)\<lparr>ms_mwa := p\<rparr>\<rparr>) = app_inv env a"
  by (simp_all add: app_inv_def history_stored_def shown_def jobs_at_def numbers_stored_def settings_stored_def addr_ok_def)

lemma app_inv_url:
  "app_inv env a \<Longrightarrow> app_inv env (a\<lparr>ap_coordinatorUrl := u, ap_service := ms_setCoordinatorUrl u (ap_service a),
     ap_storage := (ap_storage a)\<lparr>st_url := Some u\<rparr>\<rparr>)"
  by (simp add: app_inv_def history_stored_def shown_def jobs_at_def numbers_stored_def settings_stored_def
      default_def ms_setCoordinatorUrl_def addr_ok_def)

lemma app_inv_step:
  assumes "app_inv env a" "app_step E a b" shows "app_inv env b"
  using assms(2,1)
proof (induction rule: app_step.induct)
  case (ap_service_step a t)
  then show ?case using app_inv_run tracked_step by blast
next
  case (ap_setUrl a url)
  then show ?case
    by (auto simp: app_setCoordinatorUrl_def intro!: app_inv_connect app_inv_url app_inv_disconnect)
next
  case (ap_connectWallet a os)
  then show ?case
    by (auto simp: app_connectWallet_def intro!: app_inv_signer split: prod.split sum.split)
next
  case (ap_disconnectWallet a)
  then show ?case by (auto simp: app_disconnectWallet_def intro!: app_inv_signer)
next
  case (ap_switch a mode)
  then show ?case by (auto simp: app_switchSigningMode_def intro!: app_inv_signer split: signer.split)
next
  case (ap_toggle a)
  then show ?case by (auto simp: app_toggle_def intro!: app_inv_connect app_inv_disconnect)
next
  case (ap_toggleDone a)
  then show ?case by (simp add: app_toggleDone_def)
qed

definition app_init :: "string option \<Rightarrow> app \<Rightarrow> bool" where
  "app_init env a \<longleftrightarrow> (\<exists>dev mwa st. a = loadPersistedState env (app_new env (mobile_new dev mwa) st))"

lemma loaded:
  fixes env dev mwa st
  defines "a \<equiv> loadPersistedState env (app_new env (mobile_new dev mwa) st)"
  shows "shown a = default [] (st_history st)" "ap_jobsCompleted a = default 0 (st_jobsCompleted st)"
    "ap_totalEarnings a = default 0 (st_earnings st)" "ms_totalEarnings (ap_service a) = default 0 (st_earnings st)"
    "ap_coordinatorUrl a = default (DEFAULT_COORDINATOR_URL env) (st_url st)" "ap_signingMode a = default SDevice (st_signingMode st)"
    "ms_coordinatorUrl (ap_service a) = ap_coordinatorUrl a" "ms_signingProvider (ap_service a) = Some (ap_signingMode a)"
    "ap_storage a = st" "ap_history a = ms_history (ap_service a)" "addr_ok (ap_service a)"
    "ap_status a = ms_status (ap_service a)"
proof -
  have nth: "map ((!) jobs \<circ> (+) 0) [0..<length jobs] = jobs" for jobs :: "CompletedJob list" by (simp add: comp_def map_nth)
  show "shown a = default [] (st_history st)"
    by (simp add: a_def loadPersistedState_def loadEarnings_def loadHistory_def app_new_def mobile_new_def shown_def jobs_at_def
        default_def ms_setEarnings_def ms_setJobHistory_def ms_setCoordinatorUrl_def ms_setSigningProvider_def nth split: option.split)
  show "ap_signingMode a = default SDevice (st_signingMode st)"
    by (cases "st_signingMode st"; cases "the (st_signingMode st)")
      (simp_all add: a_def loadPersistedState_def loadEarnings_def loadHistory_def default_def app_new_def)
qed (simp_all add: a_def loadPersistedState_def loadEarnings_def loadHistory_def app_new_def mobile_new_def addr_ok_def
    default_def ms_setEarnings_def ms_setJobHistory_def ms_setCoordinatorUrl_def ms_setSigningProvider_def split: option.split)

interpretation appI: inductive_invariant "app_init env" "app_step E" "app_inv env" for env E
proof
  show "app_inv env a" if "app_init env a" for a
  proof -
    from that obtain dev mwa st where a: "a = loadPersistedState env (app_new env (mobile_new dev mwa) st)"
      unfolding app_init_def by blast
    note l = loaded [of env dev mwa st, folded a]
    from l(10,11) have "\<forall>i \<in> set (ap_history a). i < length (ms_heap (ap_service a))" by (simp add: addr_ok_def)
    with l show ?thesis by (simp add: app_inv_def history_stored_def numbers_stored_def settings_stored_def)
  qed
  show "app_inv env a \<Longrightarrow> app_step E a b \<Longrightarrow> app_inv env b" for a b by (rule app_inv_step)
qed

subsection \<open>Main properties\<close>


definition demo_app :: app where
  "demo_app = loadPersistedState None (app_new None demo_mobile
     \<lparr>st_earnings = None, st_jobsCompleted = None, st_history = None, st_url = None, st_signingMode = None, st_hasOnboarded = None\<rparr>)"


text \<open>The messages by which the coordinator reports the on-chain outcome of one job.\<close>

fun is_notice :: "string \<Rightarrow> CoordinatorToWorker \<Rightarrow> bool" where
  "is_notice j (FeedbackPosted j' _ _ _) = (j' = j)"
| "is_notice j (PaymentPosted js _ _ _ _ _) = (js = [j])"
| "is_notice j (FeedbackFailed j' _) = (j' = j)"
| "is_notice j (PaymentFailed js _ _) = (js = [j])"
| "is_notice j _ = False"

definition app_notice :: "mobile_env \<Rightarrow> CoordinatorToWorker \<Rightarrow> app \<Rightarrow> app" where
  "app_notice E m a = app_run (ms_handleMessage E 0 (WMsg m)) a"

text \<open>The job at address \<open>i\<close> is the one a notice for \<open>j\<close> finds, and it was successful.\<close>

definition found :: "string \<Rightarrow> nat \<Rightarrow> app \<Rightarrow> bool" where
  "found j i a \<longleftrightarrow> find_job j (ap_service a) = Some i \<and> i < length (ms_heap (ap_service a)) \<and>
     cj_success (ms_heap (ap_service a) ! i) \<and> \<not> ap_shared a"

lemma find_job_update:
  assumes "find_job j s = Some i" "i < length (ms_heap s)" "\<And>x. cj_jobId (f x) = cj_jobId x" "\<And>x. cj_success (f x) = cj_success x"
    "ms_heap t = (ms_heap s)[i := f (ms_heap s ! i)]" "ms_history t = ms_history s"
  shows "find_job j t = Some i" "cj_success (ms_heap t ! i) = cj_success (ms_heap s ! i)"
proof -
  have "cj_jobId (ms_heap t ! k) = cj_jobId (ms_heap s ! k)" for k
    using assms(2,3,5) by (cases "k = i") simp_all
  then have "find_job j t = find_job j s" using assms(6) by (simp add: find_job_def)
  with assms(1) show "find_job j t = Some i" by simp
  show "cj_success (ms_heap t ! i) = cj_success (ms_heap s ! i)" using assms(2,4,5) by simp
qed

lemma app_entry_effect:
  assumes found: "found j i a" and f: "\<And>x. cj_jobId (f x) = cj_jobId x" "\<And>x. cj_success (f x) = cj_success x"
    and g: "g (ap_service a) = fold ms_emit evs (update_job_entry f j (ap_service a))"
    and evs: "\<forall>ev \<in> set evs. (\<exists>a b c d. ev = MFeedbackPosted a b c d) \<or> (\<exists>a b c d. ev = MPaymentPosted a b c d)"
  shows "ap_jobsCompleted (app_run g a) = ap_jobsCompleted a + 1 \<and> ap_history (app_run g a) = take 50 (i # ap_history a) \<and>
    found j i (app_run g a) \<and> ms_history (ap_service (app_run g a)) = ms_history (ap_service a)"
proof -
  let ?s = "ap_service a"
  let ?t = "fold ms_emit evs (update_job_entry f j ?s)"
  have emits: "ms_heap (fold ms_emit es s) = ms_heap s \<and> ms_history (fold ms_emit es s) = ms_history s \<and>
      ms_events (fold ms_emit es s) = ms_events s @ es" for es s
    by (induction es arbitrary: s) (simp_all add: ms_emit_def)
  have t: "ms_heap ?t = (ms_heap ?s)[i := f (ms_heap ?s ! i)]" "ms_history ?t = ms_history ?s"
    "ms_events ?t = ms_events ?s @ MJobCompleted i # evs"
    using found emits by (simp_all add: found_def update_job_entry_def ms_emit_def)
  have fj: "find_job j ?t = Some i" "cj_success (ms_heap ?t ! i)"
    using find_job_update [OF _ _ f t(1,2), of j] found by (simp_all add: found_def)
  let ?b = "on_jobCompleted i (a\<lparr>ap_service := ?t\<rparr>)"
  have b: "app_run g a = fold app_event evs ?b" using t(3) g by (simp add: app_run_def app_event_def)
  have b1: "ap_history ?b = take 50 (i # ap_history a)" "\<not> ap_shared ?b" "ap_jobsCompleted ?b = ap_jobsCompleted a + 1"
    "ap_service ?b = ?t"
    using found fj(2) by (simp_all add: found_def on_jobCompleted_def set_history_def prev_history_def)
  have rest: "ap_history (fold app_event es c) = ap_history c \<and> \<not> ap_shared (fold app_event es c) \<and>
      ap_jobsCompleted (fold app_event es c) = ap_jobsCompleted c"
    if "\<not> ap_shared c" "\<forall>ev \<in> set es. (\<exists>a b c d. ev = MFeedbackPosted a b c d) \<or> (\<exists>a b c d. ev = MPaymentPosted a b c d)" for es c
    using that by (induction es arbitrary: c) (auto simp: app_event_def set_history_def prev_history_def)
  have "i < length (ms_heap ?t)" using found t(1) by (simp add: found_def)
  with rest [OF b1(2) evs] b1 fj t(2) show ?thesis by (simp add: b found_def)
qed

lemma app_notice_effect:
  assumes "is_notice j m" "found j i a"
  shows "ap_jobsCompleted (app_notice E m a) = ap_jobsCompleted a + 1 \<and>
    ap_history (app_notice E m a) = take 50 (i # ap_history a) \<and> found j i (app_notice E m a) \<and>
    ms_history (ap_service (app_notice E m a)) = ms_history (ap_service a)"
proof -
  have "find_job j (ap_service a) \<noteq> None" using assms(2) by (simp add: found_def)
  with assms(1) have "\<exists>f evs. (\<forall>x. cj_jobId (f x) = cj_jobId x \<and> cj_success (f x) = cj_success x) \<and>
      ms_handleMessage E 0 (WMsg m) (ap_service a) = fold ms_emit evs (update_job_entry f j (ap_service a)) \<and>
      (\<forall>ev \<in> set evs. (\<exists>a b c d. ev = MFeedbackPosted a b c d) \<or> (\<exists>a b c d. ev = MPaymentPosted a b c d))"
  proof (cases m)
    case (FeedbackPosted j' tx net url)
    with assms(1) \<open>find_job j (ap_service a) \<noteq> None\<close> show ?thesis
      by (intro exI [of _ "\<lambda>job. job\<lparr>cj_feedbackTxHash := Some tx, cj_feedbackExplorerUrl := Some url,
           cj_feedbackNetwork := Some net, cj_feedbackFailed := Some False\<rparr>"] exI [of _ "[MFeedbackPosted j' tx net url]"])
        (auto simp: ms_handleMessage_def ms_handleFeedbackPosted_def)
  next
    case (PaymentPosted js tx am tok net url)
    with assms(1) show ?thesis
      by (intro exI [of _ "\<lambda>job. job\<lparr>cj_paymentTxHash := Some tx, cj_paymentExplorerUrl := Some url,
           cj_paymentAmount := Some (me_ns E am @ '' '' @ (case tok of Some t \<Rightarrow> t | None \<Rightarrow> ''BOLT'')),
           cj_paymentFailed := Some False\<rparr>"] exI [of _ "[MPaymentPosted js tx am url]"])
        (simp add: ms_handleMessage_def ms_handlePaymentPosted_def)
  next
    case (FeedbackFailed j' e)
    with assms(1) show ?thesis
      by (intro exI [of _ "\<lambda>job. job\<lparr>cj_feedbackFailed := Some True\<rparr>"] exI [of _ "[]"])
        (simp add: ms_handleMessage_def ms_handleFeedbackFailed_def)
  next
    case (PaymentFailed js e tok)
    with assms(1) show ?thesis
      by (intro exI [of _ "\<lambda>job. job\<lparr>cj_paymentFailed := Some True\<rparr>"] exI [of _ "[]"])
        (simp add: ms_handleMessage_def ms_handlePaymentFailed_def)
  qed simp_all
  then obtain f evs where "\<And>x. cj_jobId (f x) = cj_jobId x" "\<And>x. cj_success (f x) = cj_success x"
    "ms_handleMessage E 0 (WMsg m) (ap_service a) = fold ms_emit evs (update_job_entry f j (ap_service a))"
    "\<forall>ev \<in> set evs. (\<exists>a b c d. ev = MFeedbackPosted a b c d) \<or> (\<exists>a b c d. ev = MPaymentPosted a b c d)" by blast
  from app_entry_effect [where g = "ms_handleMessage E 0 (WMsg m)", OF assms(2) this] show ?thesis by (simp add: app_notice_def)
qed


definition demo_completed :: CompletedJob where
  "demo_completed = \<lparr>cj_jobId = ''j'', cj_taskType = JStr ''summarize'', cj_prompt = None, cj_timestamp = 0, cj_durationMs = 1,
     cj_success = True, cj_error = None, cj_feedbackTxHash = None, cj_feedbackExplorerUrl = None, cj_feedbackNetwork = None,
     cj_paymentTxHash = None, cj_paymentExplorerUrl = None, cj_paymentAmount = None, cj_feedbackFailed = None,
     cj_paymentFailed = None\<rparr>"


end
