(* ===== verification/Router.thy ===== *)
theory Router
  imports Protocol Executors
begin

section \<open>Compute router\<close>

text \<open>
  \<open>packages/compute-router/src\<close>: the client library that runs a job on a coordinator and falls
  back to a hosted model. What a program does to its environment is a function on a world \<open>'w\<close>
  (\<open>('w, 'a) io\<close>): it throws a text or returns a value, and leaves a new world; the value \<open>None\<close> stands for
  a run that never returns, which the polling loop could be.

  The environment is the record \<open>net\<close>: \<open>fetch\<close>, the clock, \<open>setTimeout\<close>, the two API keys, the SDKs of the
  two hosted providers (functions from the request to the response), and the run time's number
  printer. The optional x402 payment client is the record \<open>x402_client\<close>.
\<close>

type_synonym ('w, 'a) io = "'w \<Rightarrow> ((string + 'a) \<times> 'w) option"

definition io_return :: "'a \<Rightarrow> ('w, 'a) io" where
  "io_return x w = Some (Inr x, w)"

definition io_throw :: "string \<Rightarrow> ('w, 'a) io" where
  "io_throw e w = Some (Inl e, w)"

definition io_bind :: "('w, 'a) io \<Rightarrow> ('a \<Rightarrow> ('w, 'b) io) \<Rightarrow> ('w, 'b) io" where
  "io_bind m f w =
     (case m w of
        None \<Rightarrow> None
      | Some (Inl e, w1) \<Rightarrow> Some (Inl e, w1)
      | Some (Inr x, w1) \<Rightarrow> f x w1)"

definition io_catch :: "('w, 'a) io \<Rightarrow> (string \<Rightarrow> ('w, 'a) io) \<Rightarrow> ('w, 'a) io" where
  "io_catch m h w =
     (case m w of
        None \<Rightarrow> None
      | Some (Inl e, w1) \<Rightarrow> h e w1
      | Some (Inr x, w1) \<Rightarrow> Some (Inr x, w1))"

definition io_lift :: "string + 'a \<Rightarrow> ('w, 'a) io" where
  "io_lift r w = Some (r, w)"

definition io_call :: "('w \<Rightarrow> (string + 'a) \<times> 'w) \<Rightarrow> ('w, 'a) io" where
  "io_call f w = Some (f w)"

record http_request =
  rq_method :: string
  rq_url :: string
  rq_headers :: "(string \<times> string) list"
  rq_body :: "string option"

record http_response =
  hr_status :: nat
  hr_headers :: "string \<Rightarrow> string option"
  hr_body :: string

text \<open>What the SDKs return: the content of each choice, or the blocks of a message.\<close>

record completion =
  cp_contents :: "string option list"
  cp_model :: string
  cp_usage :: "json option"

record anthropic_message =
  am_blocks :: "(string \<times> string) list" \<comment> \<open>type, text\<close>
  am_model :: string
  am_usage :: json

record 'w net =
  n_fetch :: "http_request \<Rightarrow> 'w \<Rightarrow> (string + http_response) \<times> 'w"
  n_now :: "'w \<Rightarrow> int"
  n_sleep :: "int \<Rightarrow> 'w \<Rightarrow> 'w"
  n_openaiKey :: "string option"
  n_anthropicKey :: "string option"
  n_openai :: "string \<Rightarrow> json \<Rightarrow> 'w \<Rightarrow> (string + completion) \<times> 'w"
  n_anthropic :: "string \<Rightarrow> json \<Rightarrow> 'w \<Rightarrow> (string + anthropic_message) \<times> 'w"
  n_ns :: "rat \<Rightarrow> string"

record 'w x402_client =
  xc_required :: "(string \<Rightarrow> string option) \<Rightarrow> json option \<Rightarrow> string + json"
  xc_payload :: "json \<Rightarrow> 'w \<Rightarrow> (string + json) \<times> 'w"
  xc_header :: "json \<Rightarrow> string + (string \<times> string) list"

subsection \<open>Language helpers\<close>

definition hr_ok :: "http_response \<Rightarrow> bool" where
  "hr_ok res \<longleftrightarrow> 200 \<le> hr_status res \<and> hr_status res \<le> 299"

definition hr_json :: "http_response \<Rightarrow> string + json" where
  "hr_json res = (case JSON_parse (hr_body res) of Some v \<Rightarrow> Inr v | None \<Rightarrow> Inl ''SyntaxError'')"

text \<open>\<open>v.k\<close>: throws on \<open>null\<close>; a missing member is \<open>undefined\<close>.\<close>

definition js_get :: "string \<Rightarrow> json \<Rightarrow> string + json option" where
  "js_get k v = (if v = JNull then Inl (null_access k) else Inr (json_field k v))"

definition js_text :: "(rat \<Rightarrow> string) \<Rightarrow> json option \<Rightarrow> string" where
  "js_text ns v = (case v of None \<Rightarrow> ''undefined'' | Some x \<Rightarrow> js_String ns x)"

definition js_stringify :: "(rat \<Rightarrow> string) \<Rightarrow> json option \<Rightarrow> string" where
  "js_stringify ns v = (case v of None \<Rightarrow> ''undefined'' | Some x \<Rightarrow> stringify ns x)"

fun privacy_string :: "PrivacyClass \<Rightarrow> string" where
  "privacy_string PUBLIC = ''PUBLIC''"
| "privacy_string PRIVATE = ''PRIVATE''"
| "privacy_string (OtherPrivacy s) = s"

fun task_string :: "TaskType \<Rightarrow> string" where
  "task_string Summarize = ''summarize''"
| "task_string Classify = ''classify''"
| "task_string ExtractJson = ''extract_json''"
| "task_string (OtherTask s) = s"

definition newlines2 :: string where
  "newlines2 = [CHR 0x0A, CHR 0x0A]"

subsection \<open>Adapter interface\<close>

record LLMRequest =
  lr_prompt :: string
  lr_max_tokens :: "rat option"
  lr_policy :: Policy
  lr_privacy :: PrivacyClass
  lr_user_id :: string

record TaskRequest =
  tr_task_type :: TaskType
  tr_input :: string
  tr_policy :: Policy
  tr_privacy :: PrivacyClass
  tr_user_id :: string

record ComputeResult =
  cr_output :: "json option"
  cr_route :: string
  cr_price :: "json option"
  cr_latency_ms :: int
  cr_receipt :: "json option"

definition fetchJson :: "'w net \<Rightarrow> string \<Rightarrow> ('w, json) io" where
  "fetchJson N url =
     io_bind (io_call (n_fetch N \<lparr>rq_method = ''GET'', rq_url = url, rq_headers = [], rq_body = None\<rparr>)) (\<lambda>res.
       if \<not> hr_ok res then io_throw (''HTTP '' @ nat_text (hr_status res) @ '': '' @ hr_body res)
       else io_lift (hr_json res))"

subsection \<open>Decentralized adapter\<close>

record 'w DecentralizedConfig =
  dc_coordinatorUrl :: string
  dc_networkLabel :: string
  dc_x402Client :: "'w x402_client option"

text \<open>One round of the loop of \<open>pollResult\<close>: throw, leave with the result, or go on.\<close>

definition poll_round :: "'w net \<Rightarrow> string \<Rightarrow> string \<Rightarrow> ('w, (json option \<times> json option) option) io" where
  "poll_round N url jobId =
     io_bind (fetchJson N (url @ ''/v1/jobs/'' @ jobId)) (\<lambda>job.
       io_bind (io_lift (js_get ''status'' job)) (\<lambda>status.
         if status = Some (JStr ''completed'') then io_return (Some (json_field ''result'' job, json_field ''receipt'' job))
         else if status = Some (JStr ''failed'') then
           io_throw (''Job '' @ jobId @ '' failed: '' @ js_stringify (n_ns N) (json_field ''result'' job))
         else (\<lambda>w. Some (Inr None, n_sleep N 500 w))))"

partial_function (option) poll_loop ::
  "'w net \<Rightarrow> string \<Rightarrow> string \<Rightarrow> int \<Rightarrow> int \<Rightarrow> 'w \<Rightarrow> ((string + json option \<times> json option) \<times> 'w) option" where
  "poll_loop N url jobId timeoutMs deadline w =
     (if n_now N w < deadline then
        (case poll_round N url jobId w of
           None \<Rightarrow> None
         | Some (Inl e, w1) \<Rightarrow> Some (Inl e, w1)
         | Some (Inr (Some r), w1) \<Rightarrow> Some (Inr r, w1)
         | Some (Inr None, w1) \<Rightarrow> poll_loop N url jobId timeoutMs deadline w1)
      else Some (Inl (''Job '' @ jobId @ '' timed out after '' @ n_ns N (of_int timeoutMs) @ ''ms''), w))"

definition pollResult :: "'w net \<Rightarrow> string \<Rightarrow> string \<Rightarrow> int \<Rightarrow> ('w, json option \<times> json option) io" where
  "pollResult N url jobId timeoutMs w = poll_loop N url jobId timeoutMs (n_now N w + timeoutMs) w"

definition commit_request :: "string \<Rightarrow> (string \<times> string) list \<Rightarrow> string \<Rightarrow> http_request" where
  "commit_request commitUrl headers body =
     \<lparr>rq_method = ''POST'', rq_url = commitUrl, rq_headers = (''Content-Type'', ''application/json'') # headers, rq_body = Some body\<rparr>"

text \<open>The commit request, with the payment retry of a 402 response.\<close>

definition commit_paying :: "'w net \<Rightarrow> 'w DecentralizedConfig \<Rightarrow> string \<Rightarrow> string \<Rightarrow> ('w, http_response) io" where
  "commit_paying N cfg commitUrl body =
     io_bind (io_call (n_fetch N (commit_request commitUrl [] body))) (\<lambda>commitRes.
       if hr_status commitRes \<noteq> 402 then io_return commitRes
       else case dc_x402Client cfg of
         None \<Rightarrow> io_throw (''x402 payment required but no x402Client configured. '' @
                          ''Set TESTNET_MODE=true on coordinator or provide an x402Client.'')
       | Some client \<Rightarrow>
           io_bind (io_lift (xc_required client (hr_headers commitRes)
                      (case hr_json commitRes of Inr v \<Rightarrow> Some v | Inl _ \<Rightarrow> None))) (\<lambda>paymentRequired.
           io_bind (io_call (xc_payload client paymentRequired)) (\<lambda>paymentPayload.
           io_bind (io_lift (xc_header client paymentPayload)) (\<lambda>paymentHeaders.
             io_call (n_fetch N (commit_request commitUrl paymentHeaders body))))))"

definition check_commit :: "'w net \<Rightarrow> http_response \<Rightarrow> ('w, string) io" where
  "check_commit N commitRes =
     (if hr_status commitRes = 422 then
        io_bind (io_lift (hr_json commitRes)) (\<lambda>err.
          io_bind (io_lift (js_get ''error'' err)) (\<lambda>e. io_throw (''Privacy enforcement: '' @ js_text (n_ns N) e)))
      else if \<not> hr_ok commitRes then
        io_throw (''Commit failed: '' @ nat_text (hr_status commitRes) @ '' '' @ hr_body commitRes)
      else
        io_bind (io_lift (hr_json commitRes)) (\<lambda>v.
          io_bind (io_lift (js_get ''job_id'' v)) (\<lambda>jobId. io_return (js_text (n_ns N) jobId))))"

definition submit_from ::
  "'w net \<Rightarrow> 'w DecentralizedConfig \<Rightarrow> JobType \<Rightarrow> Policy \<Rightarrow> PrivacyClass \<Rightarrow> string \<Rightarrow> json \<Rightarrow> int \<Rightarrow> ('w, ComputeResult) io" where
  "submit_from N cfg jobType policy privacyClass userId payload start =
     (let url = dc_coordinatorUrl cfg in
      io_bind (fetchJson N (url @ ''/v1/quote?job_type='' @ jobtype_string jobType @ ''&policy='' @ policy_string policy)) (\<lambda>quote.
        let tier = (if policy = FAST then ''fast'' else ''cheap'');
            body = stringify (n_ns N) (JObj [(''job_type'', JStr (jobtype_string jobType)), (''payload'', payload),
                     (''privacy_class'', JStr (privacy_string privacyClass)), (''user_id'', JStr userId)]) in
        io_bind (commit_paying N cfg (url @ ''/v1/jobs/commit/'' @ tier) body) (\<lambda>commitRes.
        io_bind (check_commit N commitRes) (\<lambda>jobId.
        io_bind (pollResult N url jobId (if jobType = TASK then 30000 else 60000)) (\<lambda>(result, receipt).
        io_bind (io_lift (js_get ''price'' quote)) (\<lambda>price w.
          Some (Inr \<lparr>cr_output = result, cr_route = ''decentralized:'' @ dc_networkLabel cfg, cr_price = price,
                     cr_latency_ms = n_now N w - start, cr_receipt = receipt\<rparr>, w)))))))"

definition submit ::
  "'w net \<Rightarrow> 'w DecentralizedConfig \<Rightarrow> JobType \<Rightarrow> Policy \<Rightarrow> PrivacyClass \<Rightarrow> string \<Rightarrow> json \<Rightarrow> ('w, ComputeResult) io" where
  "submit N cfg jobType policy privacyClass userId payload w =
     submit_from N cfg jobType policy privacyClass userId payload (n_now N w) w"

definition decentralized_runLLM :: "'w net \<Rightarrow> 'w DecentralizedConfig \<Rightarrow> LLMRequest \<Rightarrow> ('w, ComputeResult) io" where
  "decentralized_runLLM N cfg req =
     submit N cfg LLM_INFER (resolvePolicy (lr_policy req) LLM_INFER) (lr_privacy req) (lr_user_id req)
       (obj_defined [(''job_type'', Some (JStr ''LLM_INFER'')), (''prompt'', Some (JStr (lr_prompt req))),
                     (''max_tokens'', map_option JNum (lr_max_tokens req))])"

definition decentralized_runTask :: "'w net \<Rightarrow> 'w DecentralizedConfig \<Rightarrow> TaskRequest \<Rightarrow> ('w, ComputeResult) io" where
  "decentralized_runTask N cfg req =
     submit N cfg TASK (resolvePolicy (tr_policy req) TASK) (tr_privacy req) (tr_user_id req)
       (JObj [(''job_type'', JStr ''TASK''), (''task_type'', JStr (task_string (tr_task_type req))), (''input'', JStr (tr_input req))])"

subsection \<open>Hosted adapters\<close>

definition chat_message :: "string \<Rightarrow> json" where
  "chat_message prompt = JArr [JObj [(''role'', JStr ''user''), (''content'', JStr prompt)]]"

definition max_tokens_json :: "rat option \<Rightarrow> json" where
  "max_tokens_json v = JNum (case v of Some n \<Rightarrow> n | None \<Rightarrow> 256)"

definition openai_runLLM :: "'w net \<Rightarrow> LLMRequest \<Rightarrow> ('w, ComputeResult) io" where
  "openai_runLLM N req w0 =
     (case n_openaiKey N of
        None \<Rightarrow> io_throw ''OPENAI_API_KEY not set'' w0
      | Some apiKey \<Rightarrow>
          if apiKey = [] then io_throw ''OPENAI_API_KEY not set'' w0
          else
            (let start = n_now N w0 in
             io_bind (io_call (n_openai N apiKey (JObj [(''model'', JStr ''gpt-4o-mini''),
                 (''messages'', chat_message (lr_prompt req)), (''max_tokens'', max_tokens_json (lr_max_tokens req))]))) (\<lambda>c w.
               Some (Inr \<lparr>cr_output = Some (obj_defined
                     [(''text'', Some (JStr (case cp_contents c of Some t # _ \<Rightarrow> t | _ \<Rightarrow> []))),
                      (''model'', Some (JStr (cp_model c))), (''usage'', cp_usage c)]),
                   cr_route = ''hosted:openai'', cr_price = Some JNull, cr_latency_ms = n_now N w - start,
                   cr_receipt = Some JNull\<rparr>, w)) w0))"

definition openai_buildTaskPrompt :: "string \<Rightarrow> string \<Rightarrow> string" where
  "openai_buildTaskPrompt taskType input =
     (if taskType = ''summarize'' then ''Summarize the following text concisely:'' @ newlines2 @ input
      else if taskType = ''classify'' then
        ''Classify the sentiment of the following text as positive, negative, or neutral. Respond with JSON: {\"sentiment\": \"...\", \"confidence\": 0.0-1.0}''
          @ newlines2 @ input
      else if taskType = ''extract_json'' then
        ''Extract all JSON objects from the following text. Respond with a JSON array of the extracted objects:'' @ newlines2 @ input
      else input)"

definition openai_runTask :: "'w net \<Rightarrow> TaskRequest \<Rightarrow> ('w, ComputeResult) io" where
  "openai_runTask N req =
     openai_runLLM N \<lparr>lr_prompt = openai_buildTaskPrompt (task_string (tr_task_type req)) (tr_input req), lr_max_tokens = None,
       lr_policy = tr_policy req, lr_privacy = tr_privacy req, lr_user_id = tr_user_id req\<rparr>"

definition anthropic_runLLM :: "'w net \<Rightarrow> LLMRequest \<Rightarrow> ('w, ComputeResult) io" where
  "anthropic_runLLM N req w0 =
     (case n_anthropicKey N of
        None \<Rightarrow> io_throw ''ANTHROPIC_API_KEY not set'' w0
      | Some apiKey \<Rightarrow>
          if apiKey = [] then io_throw ''ANTHROPIC_API_KEY not set'' w0
          else
            (let start = n_now N w0 in
             io_bind (io_call (n_anthropic N apiKey (JObj [(''model'', JStr ''claude-sonnet-4-5-20250929''),
                 (''max_tokens'', max_tokens_json (lr_max_tokens req)), (''messages'', chat_message (lr_prompt req))]))) (\<lambda>m w.
               Some (Inr \<lparr>cr_output = Some (JObj
                     [(''text'', JStr (concat (map snd (filter (\<lambda>(t, _). t = ''text'') (am_blocks m))))),
                      (''model'', JStr (am_model m)), (''usage'', am_usage m)]),
                   cr_route = ''hosted:anthropic'', cr_price = Some JNull, cr_latency_ms = n_now N w - start,
                   cr_receipt = Some JNull\<rparr>, w)) w0))"

definition anthropic_buildTaskPrompt :: "string \<Rightarrow> string \<Rightarrow> string" where
  "anthropic_buildTaskPrompt taskType input =
     (if taskType = ''summarize'' then ''Summarize the following text concisely:'' @ newlines2 @ input
      else if taskType = ''classify'' then
        ''Classify the sentiment of the following text as positive, negative, or neutral. Respond with JSON: {\"sentiment\": \"...\", \"confidence\": 0.0-1.0}''
          @ newlines2 @ input
      else if taskType = ''extract_json'' then
        ''Extract all JSON objects from the following text. Respond with a JSON array:'' @ newlines2 @ input
      else input)"

definition anthropic_runTask :: "'w net \<Rightarrow> TaskRequest \<Rightarrow> ('w, ComputeResult) io" where
  "anthropic_runTask N req =
     anthropic_runLLM N \<lparr>lr_prompt = anthropic_buildTaskPrompt (task_string (tr_task_type req)) (tr_input req), lr_max_tokens = None,
       lr_policy = tr_policy req, lr_privacy = tr_privacy req, lr_user_id = tr_user_id req\<rparr>"

subsection \<open>Router\<close>

datatype chain = Monad | Solana

datatype hosted = HOpenAI | HAnthropic

record 'w ComputeRouterConfig =
  rc_monadUrl :: string
  rc_solanaUrl :: string
  rc_preferredHosted :: "hosted option"
  rc_monadX402 :: "'w x402_client option"
  rc_solanaX402 :: "'w x402_client option"

text \<open>The adapters the constructor builds.\<close>

definition router_decentralized :: "'w ComputeRouterConfig \<Rightarrow> chain \<Rightarrow> 'w DecentralizedConfig" where
  "router_decentralized cfg chain =
     (case chain of
        Monad \<Rightarrow> \<lparr>dc_coordinatorUrl = rc_monadUrl cfg, dc_networkLabel = ''monad'', dc_x402Client = rc_monadX402 cfg\<rparr>
      | Solana \<Rightarrow> \<lparr>dc_coordinatorUrl = rc_solanaUrl cfg, dc_networkLabel = ''solana'', dc_x402Client = rc_solanaX402 cfg\<rparr>)"

definition router_hosted :: "'w ComputeRouterConfig \<Rightarrow> hosted list" where
  "router_hosted cfg =
     (if (case rc_preferredHosted cfg of Some h \<Rightarrow> h | None \<Rightarrow> HOpenAI) = HOpenAI then [HOpenAI, HAnthropic]
      else [HAnthropic, HOpenAI])"

datatype compute_request = ReqLLM LLMRequest | ReqTask TaskRequest

definition hosted_run :: "'w net \<Rightarrow> hosted \<Rightarrow> compute_request \<Rightarrow> ('w, ComputeResult) io" where
  "hosted_run N h req =
     (case (h, req) of
        (HOpenAI, ReqLLM r) \<Rightarrow> openai_runLLM N r
      | (HOpenAI, ReqTask r) \<Rightarrow> openai_runTask N r
      | (HAnthropic, ReqLLM r) \<Rightarrow> anthropic_runLLM N r
      | (HAnthropic, ReqTask r) \<Rightarrow> anthropic_runTask N r)"

definition all_failed :: string where
  "all_failed = ''All compute adapters failed. Ensure workers are running or BYOK API keys are set.''"

fun hosted_loop :: "'w net \<Rightarrow> compute_request \<Rightarrow> hosted list \<Rightarrow> ('w, ComputeResult) io" where
  "hosted_loop N req [] = io_throw all_failed"
| "hosted_loop N req (h # hs) = io_catch (hosted_run N h req) (\<lambda>_. hosted_loop N req hs)"

definition hostedFallback :: "'w net \<Rightarrow> 'w ComputeRouterConfig \<Rightarrow> compute_request \<Rightarrow> ('w, ComputeResult) io" where
  "hostedFallback N cfg req = hosted_loop N req (router_hosted cfg)"

record llm_opts =
  lo_prompt :: string
  lo_max_tokens :: "rat option"
  lo_policy :: "Policy option"
  lo_privacy :: "PrivacyClass option"
  lo_user_id :: string
  lo_chainPreference :: "chain option"

record task_opts =
  to_task_type :: TaskType
  to_input :: string
  to_policy :: "Policy option"
  to_privacy :: "PrivacyClass option"
  to_user_id :: string
  to_chainPreference :: "chain option"

definition llm_request :: "llm_opts \<Rightarrow> LLMRequest" where
  "llm_request opts =
     \<lparr>lr_prompt = lo_prompt opts, lr_max_tokens = lo_max_tokens opts,
      lr_policy = (case lo_policy opts of Some p \<Rightarrow> p | None \<Rightarrow> AUTO),
      lr_privacy = (case lo_privacy opts of Some p \<Rightarrow> p | None \<Rightarrow> PUBLIC), lr_user_id = lo_user_id opts\<rparr>"

definition task_request :: "task_opts \<Rightarrow> TaskRequest" where
  "task_request opts =
     \<lparr>tr_task_type = to_task_type opts, tr_input = to_input opts,
      tr_policy = (case to_policy opts of Some p \<Rightarrow> p | None \<Rightarrow> AUTO),
      tr_privacy = (case to_privacy opts of Some p \<Rightarrow> p | None \<Rightarrow> PUBLIC), tr_user_id = to_user_id opts\<rparr>"

definition router_runLLM :: "'w net \<Rightarrow> 'w ComputeRouterConfig \<Rightarrow> llm_opts \<Rightarrow> ('w, ComputeResult) io" where
  "router_runLLM N cfg opts =
     (let chain = (case lo_chainPreference opts of Some c \<Rightarrow> c | None \<Rightarrow> Monad); req = llm_request opts in
      io_catch (decentralized_runLLM N (router_decentralized cfg chain) req) (\<lambda>_. hostedFallback N cfg (ReqLLM req)))"

definition router_runTask :: "'w net \<Rightarrow> 'w ComputeRouterConfig \<Rightarrow> task_opts \<Rightarrow> ('w, ComputeResult) io" where
  "router_runTask N cfg opts =
     (let chain = (case to_chainPreference opts of Some c \<Rightarrow> c | None \<Rightarrow> Monad); req = task_request opts in
      io_catch (decentralized_runTask N (router_decentralized cfg chain) req) (\<lambda>_. hostedFallback N cfg (ReqTask req)))"

subsection \<open>Laws of effects\<close>

lemma io_bind_Inr: "io_bind m f w = Some (Inr y, w') \<longleftrightarrow> (\<exists>x w1. m w = Some (Inr x, w1) \<and> f x w1 = Some (Inr y, w'))"
  by (auto simp: io_bind_def split: option.splits sum.splits)

lemma io_simps [simp]:
  "io_return x w = Some (Inr x, w)" "io_throw e w = Some (Inl e, w)" "io_lift r w = Some (r, w)" "io_call f w = Some (f w)"
  by (simp_all add: io_return_def io_throw_def io_lift_def io_call_def)

text \<open>\<open>steps N m\<close>: the program \<open>m\<close> returns in every world, and does not turn the clock back.\<close>

definition steps :: "'w net \<Rightarrow> ('w, 'a) io \<Rightarrow> bool" where
  "steps N m \<longleftrightarrow> (\<forall>w. \<exists>r w'. m w = Some (r, w') \<and> n_now N w \<le> n_now N w')"

lemma steps_return [intro]: "steps N (io_return x)" "steps N (io_throw e)" "steps N (io_lift r)"
  by (simp_all add: steps_def)

lemma steps_bind [intro]: "steps N m \<Longrightarrow> (\<And>x. steps N (f x)) \<Longrightarrow> steps N (io_bind m f)"
  unfolding steps_def
proof (intro allI)
  fix w
  assume m: "\<forall>w. \<exists>r w'. m w = Some (r, w') \<and> n_now N w \<le> n_now N w'"
    and f: "\<And>x. \<forall>w. \<exists>r w'. f x w = Some (r, w') \<and> n_now N w \<le> n_now N w'"
  from m obtain r w1 where 1: "m w = Some (r, w1)" "n_now N w \<le> n_now N w1" by blast
  show "\<exists>r w'. io_bind m f w = Some (r, w') \<and> n_now N w \<le> n_now N w'"
  proof (cases r)
    case (Inr x)
    from f [of x] obtain r' w2 where "f x w1 = Some (r', w2)" "n_now N w1 \<le> n_now N w2" by blast
    with 1 Inr show ?thesis by (simp add: io_bind_def)
  qed (use 1 in \<open>simp add: io_bind_def\<close>)
qed

lemma steps_catch [intro]: "steps N m \<Longrightarrow> (\<And>e. steps N (h e)) \<Longrightarrow> steps N (io_catch m h)"
  unfolding steps_def
proof (intro allI)
  fix w
  assume m: "\<forall>w. \<exists>r w'. m w = Some (r, w') \<and> n_now N w \<le> n_now N w'"
    and h: "\<And>e. \<forall>w. \<exists>r w'. h e w = Some (r, w') \<and> n_now N w \<le> n_now N w'"
  from m obtain r w1 where 1: "m w = Some (r, w1)" "n_now N w \<le> n_now N w1" by blast
  show "\<exists>r w'. io_catch m h w = Some (r, w') \<and> n_now N w \<le> n_now N w'"
  proof (cases r)
    case (Inl e)
    from h [of e] obtain r' w2 where "h e w1 = Some (r', w2)" "n_now N w1 \<le> n_now N w2" by blast
    with 1 Inl show ?thesis by (simp add: io_catch_def)
  qed (use 1 in \<open>simp add: io_catch_def\<close>)
qed

text \<open>
  What is documented of clocks and timers: time does not go back across a call to the environment, and
  \<open>sleep(ms)\<close> lasts at least \<open>ms\<close>.
\<close>

definition clock_ok :: "'w net \<Rightarrow> bool" where
  "clock_ok N \<longleftrightarrow>
     (\<forall>rq w. n_now N w \<le> n_now N (snd (n_fetch N rq w))) \<and>
     (\<forall>ms w. n_now N w + ms \<le> n_now N (n_sleep N ms w)) \<and>
     (\<forall>k v w. n_now N w \<le> n_now N (snd (n_openai N k v w))) \<and>
     (\<forall>k v w. n_now N w \<le> n_now N (snd (n_anthropic N k v w)))"

definition client_ok :: "'w net \<Rightarrow> 'w x402_client option \<Rightarrow> bool" where
  "client_ok N c \<longleftrightarrow> (case c of None \<Rightarrow> True | Some x \<Rightarrow> \<forall>v w. n_now N w \<le> n_now N (snd (xc_payload x v w)))"

lemma steps_call: "(\<And>w. n_now N w \<le> n_now N (snd (f w))) \<Longrightarrow> steps N (io_call f)"
  unfolding steps_def by (auto simp: io_call_def) (metis prod.collapse)

lemma steps_fetch: "clock_ok N \<Longrightarrow> steps N (io_call (n_fetch N rq))"
  by (rule steps_call) (simp add: clock_ok_def)

lemma steps_fetchJson: "clock_ok N \<Longrightarrow> steps N (fetchJson N url)"
  unfolding fetchJson_def by (intro steps_bind steps_fetch) (auto intro: steps_return)

lemma stepsD: "steps N m \<Longrightarrow> m w = Some (r, w') \<Longrightarrow> n_now N w \<le> n_now N w'"
  by (auto simp: steps_def dest: spec [of _ w])

lemma clock_sleep: "clock_ok N \<Longrightarrow> n_now N w + 500 \<le> n_now N (n_sleep N 500 w)"
  by (simp add: clock_ok_def)

lemma steps_sleep: "clock_ok N \<Longrightarrow> steps N (\<lambda>w. Some (Inr None, n_sleep N 500 w))"
  unfolding steps_def
proof (intro allI exI conjI)
  show "n_now N w \<le> n_now N (n_sleep N 500 w)" if "clock_ok N" for w using clock_sleep [OF that, of w] by simp
qed simp_all

lemma steps_poll_round: "clock_ok N \<Longrightarrow> steps N (poll_round N url jobId)"
  unfolding poll_round_def by (intro steps_bind steps_fetchJson) (auto intro: steps_return steps_sleep)

text \<open>A round that goes on has slept.\<close>

lemma poll_round_sleeps:
  assumes "clock_ok N" "poll_round N url jobId w = Some (Inr None, w')"
  shows "n_now N w + 500 \<le> n_now N w'"
proof -
  from assms(2) obtain job w1 where 1: "fetchJson N (url @ ''/v1/jobs/'' @ jobId) w = Some (Inr job, w1)" "w' = n_sleep N 500 w1"
    unfolding poll_round_def by (auto simp: io_bind_Inr split: if_splits)
  have "n_now N w \<le> n_now N w1" using stepsD [OF steps_fetchJson [OF assms(1)] 1(1)] .
  moreover have "n_now N w1 + 500 \<le> n_now N w'" using clock_sleep [OF assms(1)] 1(2) by simp
  ultimately show ?thesis by simp
qed

lemma poll_loop_returns:
  assumes "clock_ok N"
  shows "\<exists>r w'. poll_loop N url jobId timeoutMs deadline w = Some (r, w') \<and> n_now N w \<le> n_now N w'"
proof (induction "nat (deadline - n_now N w)" arbitrary: w rule: less_induct)
  case less
  show ?case
  proof (cases "n_now N w < deadline")
    case True
    from steps_poll_round [OF assms, of url jobId] obtain r w1 where
      1: "poll_round N url jobId w = Some (r, w1)" "n_now N w \<le> n_now N w1" unfolding steps_def by blast
    show ?thesis
    proof (cases "r = Inr None")
      case r: True
      with poll_round_sleeps [OF assms, of url jobId w w1] 1(1) have "n_now N w + 500 \<le> n_now N w1" by simp
      with True have "nat (deadline - n_now N w1) < nat (deadline - n_now N w)" by simp
      from less [OF this] obtain r' w' where "poll_loop N url jobId timeoutMs deadline w1 = Some (r', w')" "n_now N w1 \<le> n_now N w'"
        by blast
      with True 1 r show ?thesis by (subst poll_loop.simps) simp
    next
      case False
      then show ?thesis using True 1 by (subst poll_loop.simps) (auto split: sum.split option.split)
    qed
  qed (subst poll_loop.simps, simp)
qed

lemma steps_pollResult: "clock_ok N \<Longrightarrow> steps N (pollResult N url jobId timeoutMs)"
  by (simp add: steps_def pollResult_def poll_loop_returns)

lemma steps_commit:
  assumes "clock_ok N" "client_ok N (dc_x402Client cfg)"
  shows "steps N (commit_paying N cfg url body)"
proof (cases "dc_x402Client cfg")
  case None
  with assms show ?thesis unfolding commit_paying_def by (intro steps_bind steps_fetch) (auto intro: steps_return)
next
  case (Some c)
  have "steps N (io_call (xc_payload c v))" for v by (rule steps_call) (use assms(2) Some in \<open>simp add: client_ok_def\<close>)
  with assms(1) Some show ?thesis unfolding commit_paying_def
    by (intro steps_bind steps_fetch) (auto intro!: steps_return steps_bind steps_fetch)
qed

lemma steps_check_commit: "steps N (check_commit N res)"
  unfolding check_commit_def by (auto intro!: steps_return steps_bind)

lemma steps_submit:
  assumes "clock_ok N" "client_ok N (dc_x402Client cfg)"
  shows "steps N (submit N cfg jobType policy privacy userId payload)"
proof -
  have last: "steps N (\<lambda>w. Some (Inr (R (n_now N w)), w))" for R :: "int \<Rightarrow> ComputeResult" by (simp add: steps_def)
  have "steps N (submit_from N cfg jobType policy privacy userId payload start)" for start
    unfolding submit_from_def Let_def case_prod_beta
    by (intro steps_bind steps_fetchJson steps_commit steps_check_commit steps_pollResult steps_return assms last)
  then show ?thesis by (simp add: steps_def submit_def)
qed

lemma clock_sdk:
  assumes "clock_ok N"
  shows "n_openai N k v w = (r, w1) \<Longrightarrow> n_now N w \<le> n_now N w1" "n_anthropic N k v w = (r', w1) \<Longrightarrow> n_now N w \<le> n_now N w1"
proof -
  have "n_now N w \<le> n_now N (snd (n_openai N k v w))" "n_now N w \<le> n_now N (snd (n_anthropic N k v w))"
    using assms by (simp_all add: clock_ok_def)
  then show "n_openai N k v w = (r, w1) \<Longrightarrow> n_now N w \<le> n_now N w1" "n_anthropic N k v w = (r', w1) \<Longrightarrow> n_now N w \<le> n_now N w1"
    by simp_all
qed

lemma steps_hosted:
  assumes "clock_ok N" shows "steps N (hosted_run N h req)"
proof -
  have "steps N (openai_runLLM N r)" for r
    using clock_sdk(1) [OF assms] unfolding steps_def
    by (auto simp: openai_runLLM_def io_bind_def split: option.split sum.split prod.split)
  moreover have "steps N (anthropic_runLLM N r)" for r
    using clock_sdk(2) [OF assms] unfolding steps_def
    by (auto simp: anthropic_runLLM_def io_bind_def split: option.split sum.split prod.split)
  ultimately show ?thesis
    by (simp add: hosted_run_def openai_runTask_def anthropic_runTask_def split: hosted.split compute_request.split)
qed

lemma steps_hosted_loop: "clock_ok N \<Longrightarrow> steps N (hosted_loop N req hs)"
  by (induction hs) (auto intro: steps_return steps_catch steps_hosted)

subsection \<open>Adapters\<close>

text \<open>The contract of \<open>ComputeAdapter\<close>: the results of an adapter carry its name as their route.\<close>

locale compute_adapter =
  fixes name :: string
    and run_llm :: "LLMRequest \<Rightarrow> ('w, ComputeResult) io"
    and run_task :: "TaskRequest \<Rightarrow> ('w, ComputeResult) io"
  assumes route_llm: "run_llm req w = Some (Inr r, w') \<Longrightarrow> cr_route r = name"
    and route_task: "run_task treq w = Some (Inr r, w') \<Longrightarrow> cr_route r = name"
begin

lemma caught_llm:
  "io_catch (run_llm req) h w = Some (Inr r, w') \<Longrightarrow>
     cr_route r = name \<or> (\<exists>e w1. run_llm req w = Some (Inl e, w1) \<and> h e w1 = Some (Inr r, w'))"
  by (auto simp: io_catch_def dest: route_llm split: option.splits sum.splits)

lemma caught_task:
  "io_catch (run_task treq) h w = Some (Inr r, w') \<Longrightarrow>
     cr_route r = name \<or> (\<exists>e w1. run_task treq w = Some (Inl e, w1) \<and> h e w1 = Some (Inr r, w'))"
  by (auto simp: io_catch_def dest: route_task split: option.splits sum.splits)

end

lemma submit_route: "submit N cfg t p c u v w = Some (Inr r, w') \<Longrightarrow> cr_route r = ''decentralized:'' @ dc_networkLabel cfg"
  by (auto simp: submit_def submit_from_def Let_def io_bind_Inr split: prod.splits)

interpretation decentralizedA: compute_adapter "''decentralized:'' @ dc_networkLabel cfg" "decentralized_runLLM N cfg" "decentralized_runTask N cfg"
  for N cfg
  by unfold_locales (simp_all add: decentralized_runLLM_def decentralized_runTask_def submit_route)

interpretation openaiA: compute_adapter "''hosted:openai''" "openai_runLLM N" "openai_runTask N" for N
  by unfold_locales (auto simp: openai_runTask_def openai_runLLM_def io_bind_Inr Let_def split: option.splits if_splits)

interpretation anthropicA: compute_adapter "''hosted:anthropic''" "anthropic_runLLM N" "anthropic_runTask N" for N
  by unfold_locales (auto simp: anthropic_runTask_def anthropic_runLLM_def io_bind_Inr Let_def split: option.splits if_splits)

lemma hosted_route: "hosted_run N h req w = Some (Inr r, w') \<Longrightarrow> cr_route r \<in> {''hosted:openai'', ''hosted:anthropic''}"
  by (auto simp: hosted_run_def split: hosted.splits compute_request.splits
      dest: openaiA.route_llm openaiA.route_task anthropicA.route_llm anthropicA.route_task)

lemma hosted_loop_result:
  "hosted_loop N req hs w = Some (r, w') \<Longrightarrow>
     (case r of Inl e \<Rightarrow> e = all_failed | Inr x \<Rightarrow> cr_route x \<in> {''hosted:openai'', ''hosted:anthropic''})"
proof (induction hs arbitrary: w)
  case (Cons h hs)
  show ?case
  proof (cases "hosted_run N h req w")
    case (Some p)
    obtain r1 w1 where p: "p = (r1, w1)" by fastforce
    show ?thesis
    proof (cases r1)
      case (Inl e)
      with Cons.prems Some p have "hosted_loop N req hs w1 = Some (r, w')" by (simp add: io_catch_def)
      then show ?thesis by (rule Cons.IH)
    next
      case (Inr x)
      with Cons.prems Some p hosted_route [of N h req w x w1] show ?thesis by (auto simp: io_catch_def)
    qed
  qed (use Cons.prems in \<open>simp add: io_catch_def\<close>)
qed auto

subsection \<open>Every run ends\<close>

definition outcome_ok :: "string + ComputeResult \<Rightarrow> bool" where
  "outcome_ok r \<longleftrightarrow>
     (case r of Inl e \<Rightarrow> e = all_failed
      | Inr x \<Rightarrow> cr_route x \<in> {''decentralized:monad'', ''decentralized:solana'', ''hosted:openai'', ''hosted:anthropic''})"

lemma fallback_outcome:
  assumes "clock_ok N" and "steps N m"
    and route: "\<And>w r w'. m w = Some (Inr r, w') \<Longrightarrow> cr_route r \<in> {''decentralized:monad'', ''decentralized:solana''}"
  shows "\<exists>r w'. io_catch m (\<lambda>_. hostedFallback N cfg req) w = Some (r, w') \<and> outcome_ok r"
proof -
  from assms(2) obtain r1 w1 where 1: "m w = Some (r1, w1)" unfolding steps_def by blast
  from steps_hosted_loop [OF assms(1)] obtain r2 w2 where 2: "hostedFallback N cfg req w1 = Some (r2, w2)"
    unfolding hostedFallback_def steps_def by blast
  note fallback = hosted_loop_result [of N req "router_hosted cfg" w1 r2 w2, folded hostedFallback_def, OF 2]
  show ?thesis
  proof (cases r1)
    case (Inl e)
    with 1 2 fallback show ?thesis by (auto simp: io_catch_def outcome_ok_def split: sum.splits)
  next
    case (Inr x)
    with 1 route show ?thesis by (auto simp: io_catch_def outcome_ok_def)
  qed
qed

lemma router_outcome:
  assumes "clock_ok N" and "client_ok N (rc_monadX402 cfg)" and "client_ok N (rc_solanaX402 cfg)"
  shows "\<exists>r w'. router_runLLM N cfg opts w = Some (r, w') \<and> outcome_ok r"
    and "\<exists>r w'. router_runTask N cfg topts w = Some (r, w') \<and> outcome_ok r"
proof -
  have client: "client_ok N (dc_x402Client (router_decentralized cfg c))" for c
    using assms(2,3) by (simp add: router_decentralized_def split: chain.split)
  have label: "''decentralized:'' @ dc_networkLabel (router_decentralized cfg c) \<in> {''decentralized:monad'', ''decentralized:solana''}" for c
    by (simp add: router_decentralized_def split: chain.split)
  have llm: "cr_route r \<in> {''decentralized:monad'', ''decentralized:solana''}"
    if "decentralized_runLLM N (router_decentralized cfg c) req w = Some (Inr r, w')" for c req w r w'
    using decentralizedA.route_llm [OF that] label [of c] by (simp only:)
  have task: "cr_route r \<in> {''decentralized:monad'', ''decentralized:solana''}"
    if "decentralized_runTask N (router_decentralized cfg c) req w = Some (Inr r, w')" for c req w r w'
    using decentralizedA.route_task [OF that] label [of c] by (simp only:)
  have ends: "steps N (decentralized_runLLM N (router_decentralized cfg c) req)"
    "steps N (decentralized_runTask N (router_decentralized cfg c) treq)" for c req treq
    using steps_submit [OF assms(1) client] by (simp_all add: decentralized_runLLM_def decentralized_runTask_def)
  show "\<exists>r w'. router_runLLM N cfg opts w = Some (r, w') \<and> outcome_ok r"
    unfolding router_runLLM_def Let_def by (rule fallback_outcome [OF assms(1) ends(1) llm])
  show "\<exists>r w'. router_runTask N cfg topts w = Some (r, w') \<and> outcome_ok r"
    unfolding router_runTask_def Let_def by (rule fallback_outcome [OF assms(1) ends(2) task])
qed

subsection \<open>Main properties\<close>

text \<open>C32. The router always returns. On a clock that moves on, \<open>runLLM\<close> and \<open>runTask\<close> return for every
  job and every behaviour of the coordinator, the payment client and the hosted providers; a result names
  the coordinator's chain or a hosted provider as its route, and the only error a caller ever sees is that all
  adapters failed, never the reason the coordinator gave.\<close>

theorem router_returns:
  assumes "clock_ok N" and "client_ok N (rc_monadX402 cfg)" and "client_ok N (rc_solanaX402 cfg)"
  shows "(\<exists>r w'. router_runLLM N cfg opts w = Some (r, w') \<and>
      (case r of Inl e \<Rightarrow> e = all_failed
       | Inr x \<Rightarrow> cr_route x \<in> {''decentralized:monad'', ''decentralized:solana'', ''hosted:openai'', ''hosted:anthropic''})) \<and>
    (\<exists>r w'. router_runTask N cfg topts w = Some (r, w') \<and>
      (case r of Inl e \<Rightarrow> e = all_failed
       | Inr x \<Rightarrow> cr_route x \<in> {''decentralized:monad'', ''decentralized:solana'', ''hosted:openai'', ''hosted:anthropic''}))"
  using router_outcome [OF assms] unfolding outcome_ok_def by blast

text \<open>Concrete values: a world is the time and the requests made; every fetch takes 100 ms.\<close>

type_synonym demo_world = "int \<times> string list"

definition demo_net :: "nat \<Rightarrow> demo_world net" where
  "demo_net status =
     \<lparr>n_fetch = \<lambda>rq (t, log). (Inr \<lparr>hr_status = (if rq_method rq = ''POST'' then status else 200), hr_headers = \<lambda>_. None, hr_body = ''0''\<rparr>,
                               (t + 100, log @ [if rq_method rq = ''POST'' then ''POST'' else rq_url rq])),
      n_now = fst, n_sleep = \<lambda>ms (t, log). (t + ms, log), n_openaiKey = Some ''key'', n_anthropicKey = None,
      n_openai = \<lambda>k v (t, log). (Inr \<lparr>cp_contents = [Some ''hi''], cp_model = ''m'', cp_usage = None\<rparr>,
                               (t + 100, log @ [stringify (\<lambda>_. ''256'') v])),
      n_anthropic = \<lambda>k v w. (Inl ''none'', w), n_ns = \<lambda>_. ''0''\<rparr>"

definition demo_router :: "demo_world ComputeRouterConfig" where
  "demo_router = \<lparr>rc_monadUrl = ''http://m'', rc_solanaUrl = ''http://s'', rc_preferredHosted = None, rc_monadX402 = None,
     rc_solanaX402 = None\<rparr>"

lemma demo_clock: "clock_ok (demo_net status)"
  by (auto simp: clock_ok_def demo_net_def)

theorem router_returns_witness:
  "\<exists>r w'. router_runTask (demo_net 500) demo_router \<lparr>to_task_type = Summarize, to_input = ''x'', to_policy = None, to_privacy = None,
      to_user_id = ''u'', to_chainPreference = None\<rparr> (0, []) = Some (r, w')"
proof -
  have "client_ok (demo_net 500) (rc_monadX402 demo_router)" "client_ok (demo_net 500) (rc_solanaX402 demo_router)"
    by (simp_all add: client_ok_def demo_router_def)
  from router_returns [OF demo_clock this] show ?thesis by blast
qed



end
