(* ===== verification/JsUrl.thy ===== *)
theory JsUrl
  imports JsString
begin

section \<open>URLs\<close>

text \<open>
  What the clients use of \<open>URL\<close>, \<open>URLSearchParams\<close> and \<open>encodeURIComponent\<close>. URLs are taken to be in the
  normal form of the URL parser (lower case host, no default port), which then keeps them as they are.
\<close>

text \<open>
  \<open>new URL(route, base)\<close> for a route that starts with a slash: it replaces the whole path of the
  base, so only the origin of the base counts.
\<close>

definition url_authority :: "string \<Rightarrow> string" where
  "url_authority rest = takeWhile (\<lambda>c. c \<notin> {CHR 0x2F, CHR 0x3F, CHR 0x23, CHR 0x5C}) rest"

definition new_URL :: "string \<Rightarrow> string \<Rightarrow> string + string" where
  "new_URL route base =
     (if startsWith base ''http://'' \<and> url_authority (drop 7 base) \<noteq> [] then Inr (''http://'' @ url_authority (drop 7 base) @ route)
      else if startsWith base ''https://'' \<and> url_authority (drop 8 base) \<noteq> [] then Inr (''https://'' @ url_authority (drop 8 base) @ route)
      else Inl ''Invalid URL'')"

text \<open>\<open>new URL(url)\<close> of an absolute URL.\<close>

definition parse_URL :: "string \<Rightarrow> string + string" where
  "parse_URL url =
     (if startsWith url ''http://'' \<and> url_authority (drop 7 url) \<noteq> [] \<or>
         startsWith url ''https://'' \<and> url_authority (drop 8 url) \<noteq> [] then Inr url
      else Inl ''Invalid URL'')"

definition uri_unreserved :: "char \<Rightarrow> bool" where
  "uri_unreserved c \<longleftrightarrow>
     (let n = byte_nat c in
      48 \<le> n \<and> n \<le> 57 \<or> 65 \<le> n \<and> n \<le> 90 \<or> 97 \<le> n \<and> n \<le> 122 \<or> n \<in> {45, 95, 46, 33, 126, 42, 39, 40, 41})"

definition encodeURIComponent :: "string \<Rightarrow> string" where
  "encodeURIComponent s =
     concat (map (\<lambda>c. if uri_unreserved c then [c]
       else [CHR ''%'', ''0123456789ABCDEF'' ! (byte_nat c div 16), ''0123456789ABCDEF'' ! (byte_nat c mod 16)]) s)"

text \<open>The serialisation of \<open>searchParams\<close>: form encoding, in the order the parameters were set.\<close>

definition form_encode :: "string \<Rightarrow> string" where
  "form_encode s =
     concat (map (\<lambda>c. let n = byte_nat c in
       if 48 \<le> n \<and> n \<le> 57 \<or> 65 \<le> n \<and> n \<le> 90 \<or> 97 \<le> n \<and> n \<le> 122 \<or> n \<in> {42, 45, 46, 95} then [c]
       else if n = 32 then ''+''
       else [CHR ''%'', ''0123456789ABCDEF'' ! (n div 16), ''0123456789ABCDEF'' ! (n mod 16)]) s)"

definition with_params :: "string \<Rightarrow> (string \<times> string) list \<Rightarrow> string" where
  "with_params url ps = url @ ''?'' @ join_with ''&'' (map (\<lambda>(k, v). form_encode k @ ''='' @ form_encode v) ps)"

end
