(* ===== verification/Settlement.thy ===== *)
theory Settlement
  imports Router JsUrl "HOL-Library.Log_Nat"
begin

section \<open>BOLT settlement\<close>

text \<open>
  \<open>packages/bolt/src\<close> (\<open>swap.ts\<close>, \<open>distribute.ts\<close>, \<open>stake.ts\<close>) and
  \<open>apps/coordinator-core/src/bolt-settlement.ts\<close>: the swap of USDC into BOLT on Jupiter, the split of the
  proceeds into fee and payout, and the stake tier of a worker.

  \<open>fetch\<close> is that of the record \<open>net\<close> (see \<open>Router\<close>). The Solana libraries are the record \<open>web3\<close>: the public key of
  the authority, decoding and signing a transaction, sending and confirming it, and reading a token balance.
  \<open>BigInt\<close> is exact. \<open>Number\<close> arithmetic is done in IEEE doubles where it decides the result: \<open>round53\<close>
  rounds a natural number to 53 significant bits, ties to even, and the constant \<open>0.05\<close> is the double nearest to
  it. Reason phrases of HTTP responses are left out of messages.
\<close>

record BoltConfig =
  bc_boltMint :: string
  bc_usdcMint :: string
  bc_rpcUrl :: string
  bc_treasuryPubkey :: string
  bc_jupiterApiUrl :: "string option"
  bc_authorityKeypair :: bool \<comment> \<open>a key pair is configured\<close>

type_synonym BoltSettlementConfig = BoltConfig

record 'w web3 =
  w3_authority :: string
  w3_signed :: "string \<Rightarrow> string + string" \<comment> \<open>base64 text, serialised signed transaction\<close>
  w3_send :: "string \<Rightarrow> 'w \<Rightarrow> (string + string) \<times> 'w"
  w3_confirm :: "string \<Rightarrow> 'w \<Rightarrow> (string + unit) \<times> 'w"
  w3_balance :: "string \<Rightarrow> string \<Rightarrow> 'w \<Rightarrow> (string + rat option) \<times> 'w" \<comment> \<open>mint, owner\<close>

subsection \<open>Integers\<close>

fun base_digits :: "nat \<Rightarrow> string \<Rightarrow> nat option" where
  "base_digits b [] = Some 0"
| "base_digits b (c # cs) =
     (case (hex_value c, base_digits b cs) of
        (Some d, Some n) \<Rightarrow> if d < b then Some (d * b ^ length cs + n) else None
      | _ \<Rightarrow> None)"

definition digits1 :: "nat \<Rightarrow> string \<Rightarrow> nat option" where
  "digits1 b s = (if s = [] then None else base_digits b s)"

text \<open>\<open>BigInt(v)\<close>\<close>

definition string_BigInt :: "string \<Rightarrow> int option" where
  "string_BigInt s =
     (case js_trim s of
        [] \<Rightarrow> Some 0
      | c # t \<Rightarrow>
          if c = CHR ''0'' \<and> t \<noteq> [] \<and> hd t \<in> {CHR ''x'', CHR ''X''} then map_option int (digits1 16 (tl t))
          else if c = CHR ''0'' \<and> t \<noteq> [] \<and> hd t \<in> {CHR ''o'', CHR ''O''} then map_option int (digits1 8 (tl t))
          else if c = CHR ''0'' \<and> t \<noteq> [] \<and> hd t \<in> {CHR ''b'', CHR ''B''} then map_option int (digits1 2 (tl t))
          else if c = CHR ''-'' then map_option (\<lambda>n. - int n) (digits1 10 t)
          else if c = CHR ''+'' then map_option int (digits1 10 t)
          else map_option int (digits1 10 (c # t)))"

definition js_BigInt :: "(rat \<Rightarrow> string) \<Rightarrow> json \<Rightarrow> string + int" where
  "js_BigInt ns v =
     (case v of
        JNull \<Rightarrow> Inl ''Cannot convert null to a BigInt''
      | JBool b \<Rightarrow> Inr (if b then 1 else 0)
      | JNum q \<Rightarrow> if q = of_int \<lfloor>q\<rfloor> then Inr \<lfloor>q\<rfloor>
                  else Inl (''The number '' @ ns q @ '' cannot be converted to a BigInt because it is not an integer'')
      | _ \<Rightarrow> (case string_BigInt (js_String ns v) of
                Some n \<Rightarrow> Inr n
              | None \<Rightarrow> Inl (''Cannot convert '' @ js_String ns v @ '' to a BigInt'')))"

text \<open>\<open>a / b\<close> of a \<open>BigInt\<close> truncates; \<open>toString()\<close>.\<close>

definition big_div :: "int \<Rightarrow> int \<Rightarrow> int" where
  "big_div a b = sgn a * sgn b * (\<bar>a\<bar> div \<bar>b\<bar>)"

definition big_text :: "int \<Rightarrow> string" where
  "big_text n = (if n < 0 then ''-'' else []) @ nat_text (nat \<bar>n\<bar>)"

subsection \<open>Jupiter\<close>

definition jupiterApi :: "BoltConfig \<Rightarrow> string" where
  "jupiterApi config = (case bc_jupiterApiUrl config of Some u \<Rightarrow> u | None \<Rightarrow> ''https://quote-api.jup.ag/v6'')"

definition jupiter_quote :: "'w net \<Rightarrow> BoltConfig \<Rightarrow> string \<Rightarrow> ('w, json) io" where
  "jupiter_quote N config usdcAmount =
     io_bind (io_lift (parse_URL (jupiterApi config @ ''/quote''))) (\<lambda>quoteUrl.
     io_bind (io_call (n_fetch N \<lparr>rq_method = ''GET'',
         rq_url = with_params quoteUrl [(''inputMint'', bc_usdcMint config), (''outputMint'', bc_boltMint config),
                    (''amount'', usdcAmount), (''slippageBps'', ''50'')],
         rq_headers = [], rq_body = None\<rparr>)) (\<lambda>quoteRes.
       if \<not> hr_ok quoteRes then io_throw ''Jupiter quote failed: '' else io_lift (hr_json quoteRes)))"

definition jupiter_swap :: "'w net \<Rightarrow> 'w web3 \<Rightarrow> BoltConfig \<Rightarrow> json \<Rightarrow> ('w, string) io" where
  "jupiter_swap N S config quote =
     io_bind (io_call (n_fetch N \<lparr>rq_method = ''POST'', rq_url = jupiterApi config @ ''/swap'',
         rq_headers = [(''Content-Type'', ''application/json'')],
         rq_body = Some (stringify (n_ns N) (JObj [(''quoteResponse'', quote), (''userPublicKey'', JStr (w3_authority S)),
           (''wrapAndUnwrapSol'', JBool True)]))\<rparr>)) (\<lambda>swapRes.
       if \<not> hr_ok swapRes then io_throw ''Jupiter swap API failed: ''
       else
         io_bind (io_lift (hr_json swapRes)) (\<lambda>swapData.
         io_bind (io_lift (js_get ''swapTransaction'' swapData)) (\<lambda>tx.
         io_bind (io_lift (case tx of Some (JStr b) \<Rightarrow> w3_signed S b | _ \<Rightarrow> Inl ''TypeError'')) (\<lambda>raw.
         io_bind (io_call (w3_send S raw)) (\<lambda>signature.
         io_bind (io_call (w3_confirm S signature)) (\<lambda>_. io_return signature))))))"

subsection \<open>\<open>bolt-settlement.ts\<close>\<close>

text \<open>The first \<open>try\<close>: the quote (\<open>null\<close> when there is none) and the amount in it.\<close>

definition out_amount :: "json \<Rightarrow> json" where
  "out_amount quote = (case json_field ''outAmount'' quote of None \<Rightarrow> JStr ''0'' | Some JNull \<Rightarrow> JStr ''0'' | Some v \<Rightarrow> v)"

definition settle_quote :: "'w net \<Rightarrow> BoltSettlementConfig \<Rightarrow> string \<Rightarrow> ('w, json \<times> json) io" where
  "settle_quote N config usdcAmount =
     io_catch (io_bind (jupiter_quote N config usdcAmount) (\<lambda>quoteData. io_return (quoteData, out_amount quoteData)))
       (\<lambda>_. io_return (JNull, JStr ''0''))"

text \<open>The second: the signature of the swap, empty when it was not made or not confirmed.\<close>

definition settle_swap :: "'w net \<Rightarrow> 'w web3 \<Rightarrow> BoltSettlementConfig \<Rightarrow> json \<Rightarrow> ('w, string) io" where
  "settle_swap N S config quoteData =
     (if bc_authorityKeypair config \<and> json_truthy quoteData then
        io_catch (jupiter_swap N S config quoteData) (\<lambda>_. io_return [])
      else io_return [])"

definition settleBolt ::
  "'w net \<Rightarrow> 'w web3 \<Rightarrow> string \<Rightarrow> string \<Rightarrow> string \<Rightarrow> BoltSettlementConfig \<Rightarrow> ('w, BoltPayment) io" where
  "settleBolt N S jobId usdcAmount workerPubkey config =
     io_bind (settle_quote N config usdcAmount) (\<lambda>(quoteData, boltAmount).
     io_bind (settle_swap N S config quoteData) (\<lambda>txSignature.
     io_bind (io_lift (js_BigInt (n_ns N) (if json_truthy boltAmount then boltAmount else JStr ''0''))) (\<lambda>totalBolt.
       let protocolFee = big_div (totalBolt * PROTOCOL_FEE_BPS) 10000;
           workerBolt = totalBolt - protocolFee in
       io_return \<lparr>bp_job_id = jobId, bp_usdc_amount = usdcAmount, bp_bolt_amount = big_text workerBolt,
         bp_worker_pubkey = workerPubkey, bp_protocol_fee = big_text protocolFee, bp_tx_signature = Some txSignature\<rparr>)))"

subsection \<open>\<open>packages/bolt\<close>\<close>

text \<open>The amounts \<open>distributeBolt\<close> logs; it transfers nothing and returns the empty text.\<close>

definition distribute_split :: "string \<Rightarrow> string + int \<times> int" where
  "distribute_split boltAmount =
     (case string_BigInt boltAmount of
        None \<Rightarrow> Inl (''Cannot convert '' @ boltAmount @ '' to a BigInt'')
      | Some totalLamports \<Rightarrow>
          (let fee = big_div (totalLamports * PROTOCOL_FEE_BPS) 10000 in Inr (totalLamports - fee, fee)))"

definition distributeBolt :: "string \<Rightarrow> string \<Rightarrow> BoltConfig \<Rightarrow> string + string" where
  "distributeBolt workerPubkey boltAmount config = bindR (distribute_split boltAmount) (\<lambda>_. Inr [])"

text \<open>\<open>String(Math.floor(Number(text) * 0.05))\<close> for a text of decimal digits, in doubles.\<close>

definition round53 :: "nat \<Rightarrow> nat" where
  "round53 m =
     (if m < 2 ^ 53 then m
      else
        (let k = floorlog 2 m - 53; q = m div 2 ^ k; r = m mod 2 ^ k in
         (if 2 * r < 2 ^ k \<or> 2 * r = 2 ^ k \<and> even q then q else q + 1) * 2 ^ k))"

definition double_005 :: nat where \<comment> \<open>the double \<open>0.05\<close>, times \<open>2 ^ 56\<close>\<close>
  "double_005 = 3602879701896397"

definition swap_fee :: "nat \<Rightarrow> nat" where
  "swap_fee n = round53 (round53 n * double_005) div 2 ^ 56"

text \<open>\<open>Number(v)\<close> where it is a natural number; negative amounts, fractions and other notations than
  decimal digits are outside the model, as Jupiter gives amounts in digits.\<close>

definition js_amount :: "json \<Rightarrow> nat option" where
  "js_amount v =
     (case v of
        JStr s \<Rightarrow> (let t = js_trim s in if list_all is_digit t then Some (digits_value t) else None)
      | JNum q \<Rightarrow> if 0 \<le> q \<and> q = of_int \<lfloor>q\<rfloor> then Some (nat \<lfloor>q\<rfloor>) else None
      | JBool b \<Rightarrow> Some (if b then 1 else 0)
      | _ \<Rightarrow> None)"

definition fee_text :: "json \<Rightarrow> string" where
  "fee_text outputAmount = (case js_amount outputAmount of Some n \<Rightarrow> nat_text (swap_fee n) | None \<Rightarrow> ''NaN'')"

record SwapResult =
  sw_inputAmount :: string
  sw_outputAmount :: json
  sw_txSignature :: string
  sw_protocolFee :: string

definition swapUsdcToBolt :: "'w net \<Rightarrow> 'w web3 \<Rightarrow> string \<Rightarrow> BoltConfig \<Rightarrow> ('w, SwapResult) io" where
  "swapUsdcToBolt N S usdcAmount config =
     io_bind (jupiter_quote N config usdcAmount) (\<lambda>quote.
     io_bind (io_lift (js_get ''outAmount'' quote)) (\<lambda>_.
       let outputAmount = out_amount quote; protocolFee = fee_text outputAmount in
       io_bind (if bc_authorityKeypair config then jupiter_swap N S config quote else io_return []) (\<lambda>txSignature.
         io_return \<lparr>sw_inputAmount = usdcAmount, sw_outputAmount = outputAmount, sw_txSignature = txSignature,
           sw_protocolFee = protocolFee\<rparr>)))"

definition stake_tier :: "rat \<Rightarrow> StakeTier" where
  "stake_tier balance =
     (if balance \<ge> STAKE_REQUIREMENTS SENTINEL then SENTINEL
      else if balance \<ge> STAKE_REQUIREMENTS VERIFIED then VERIFIED
      else OPEN)"

definition readStakeLevel :: "'w web3 \<Rightarrow> string \<Rightarrow> BoltConfig \<Rightarrow> ('w, StakeTier) io" where
  "readStakeLevel S workerPubkey config =
     io_catch
       (io_bind (io_call (w3_balance S (bc_boltMint config) workerPubkey)) (\<lambda>uiAmount.
          io_return (stake_tier (case uiAmount of Some a \<Rightarrow> a | None \<Rightarrow> 0))))
       (\<lambda>_. io_return OPEN)"

subsection \<open>Rounding\<close>

lemma floorlog_le:
  assumes "m < 2 ^ n" and "0 < m"
  shows "floorlog 2 m \<le> n"
proof -
  from assms(2) have "2 ^ (floorlog 2 m - 1) \<le> m" using floorlog_bounds [of m 2] by simp
  with assms(1) have "(2 :: nat) ^ (floorlog 2 m - 1) < 2 ^ n" by linarith
  then show ?thesis by (simp add: less_diff_conv2)
qed

lemma round53_bounds:
  assumes "m < 2 ^ (53 + k)"
  shows "2 ^ k dvd G \<Longrightarrow> G \<le> m \<Longrightarrow> G \<le> round53 m" and "2 * round53 m \<le> 2 * m + 2 ^ k"
proof -
  let ?k = "floorlog 2 m - 53"
  let ?q = "m div 2 ^ ?k" and ?r = "m mod 2 ^ ?k"
  have m: "m = ?q * 2 ^ ?k + ?r" by (rule div_mult_mod_eq [symmetric])
  have le: "?k \<le> k" if "\<not> m < 2 ^ 53" using floorlog_le [OF assms] that by (cases m) auto
  show "G \<le> round53 m" if "2 ^ k dvd G" "G \<le> m"
  proof (cases "m < 2 ^ 53")
    case False
    with le have "(2 :: nat) ^ ?k dvd G" using that(1) by (meson dvd_trans le_imp_power_dvd)
    then obtain h where h: "G = h * 2 ^ ?k" by (metis dvd_def mult.commute)
    with that(2) have "h \<le> ?q" by (simp add: less_eq_div_iff_mult_less_eq)
    then have "G \<le> ?q * 2 ^ ?k" using h by simp
    also have "\<dots> \<le> round53 m" using False by (simp add: round53_def)
    finally show ?thesis .
  qed (use that in \<open>simp add: round53_def\<close>)
  show "2 * round53 m \<le> 2 * m + 2 ^ k"
  proof (cases "m < 2 ^ 53")
    case False
    have "m = q * p + r \<Longrightarrow> p \<le> 2 * r \<Longrightarrow> 2 * ((q + 1) * p) \<le> 2 * m + p" for m p q r :: nat by (simp add: algebra_simps)
    from this [OF m] have up: "2 * ((?q + 1) * 2 ^ ?k) \<le> 2 * m + 2 ^ ?k" if "2 ^ ?k \<le> 2 * ?r" using that by blast
    have "?q * 2 ^ ?k \<le> m" using m by linarith
    then have down: "2 * (?q * 2 ^ ?k) \<le> 2 * m + 2 ^ ?k" by linarith
    have "2 * round53 m \<le> 2 * m + 2 ^ ?k"
      using False up down by (cases "2 * ?r < 2 ^ ?k \<or> 2 * ?r = 2 ^ ?k \<and> even ?q") (auto simp: round53_def Let_def)
    also have "\<dots> \<le> 2 * m + 2 ^ k" using le [OF False] by simp
    finally show ?thesis .
  qed (simp add: round53_def)
qed

lemma swap_fee_exact:
  assumes "n < 2 ^ 52"
  shows "swap_fee n = n div 20"
proof -
  let ?q = "n div 20" and ?m = "n * double_005"
  have n: "round53 n = n" using assms by (simp add: round53_def)
  have m: "?m < 2 ^ (53 + 51)" using assms by (simp add: double_005_def)
  have "?q * 20 \<le> n" "n \<le> ?q * 20 + 19" by presburger+
  then have lo: "?q * 2 ^ 56 \<le> ?m" and hi: "?m + 2 ^ 50 < (?q + 1) * 2 ^ 56"
    using assms by (simp_all add: double_005_def)
  have "(2 :: nat) ^ 51 dvd ?q * 2 ^ 56" by (rule dvd_mult) (simp add: le_imp_power_dvd)
  from round53_bounds(1) [OF m this lo] have "?q * 2 ^ 56 \<le> round53 ?m" .
  moreover have "round53 ?m < (?q + 1) * 2 ^ 56" using round53_bounds(2) [OF m] hi by simp
  ultimately have "round53 ?m div 2 ^ 56 = ?q" by (intro div_nat_eqI) (simp_all add: mult.commute)
  then show ?thesis by (simp add: swap_fee_def n)
qed

text \<open>Above \<open>2 ^ 52\<close> the doubles can be one unit off.\<close>

lemma floorlog_eqI:
  assumes "2 ^ n \<le> m" and "m < 2 ^ Suc n"
  shows "floorlog 2 m = Suc n"
proof -
  have m: "0 < m" using assms(1) by (cases m) auto
  then have "m < 2 ^ floorlog 2 m" using floorlog_bounds [of m 2] by simp
  with assms(1) have "(2 :: nat) ^ n < 2 ^ floorlog 2 m" by linarith
  then have "n < floorlog 2 m" by simp
  with floorlog_le [OF assms(2) m] show ?thesis by linarith
qed

lemma swap_fee_off_by_one: "swap_fee 9007199254740979 = 9007199254740979 div 20 + 1"
proof -
  have "floorlog 2 32451855365842627642319328352663 = Suc 104" by (rule floorlog_eqI) simp_all
  then have "round53 32451855365842627642319328352663 = 32451855365842629443759179300864" by (simp add: round53_def)
  moreover have "round53 9007199254740979 = 9007199254740979" by (simp add: round53_def)
  ultimately show ?thesis by (simp add: swap_fee_def double_005_def)
qed

subsection \<open>Printed amounts\<close>

lemma hex_value_digit_char: "is_digit c \<Longrightarrow> hex_value c = Some (byte_nat c - 48)"
  by (simp add: is_digit_def hex_value_def byte_nat_def)

lemma base_digits_value: "list_all is_digit ds \<Longrightarrow> base_digits 10 ds = Some (digits_value ds)"
proof -
  have acc: "foldl (\<lambda>a c. 10 * a + (byte_nat c - 48)) a ds = a * 10 ^ length ds + foldl (\<lambda>a c. 10 * a + (byte_nat c - 48)) 0 ds" for a ds
  proof (induction ds arbitrary: a)
    case (Cons c ds)
    from Cons [of "10 * a + (byte_nat c - 48)"] Cons [of "byte_nat c - 48"] show ?case by (simp add: algebra_simps)
  qed simp
  assume "list_all is_digit ds"
  then show ?thesis
  proof (induction ds)
    case (Cons c ds)
    then have "byte_nat c - 48 < 10" by (auto simp: is_digit_def)
    with Cons show ?case using acc [of "byte_nat c - 48" ds] by (simp add: hex_value_digit_char digits_value_def)
  qed (simp add: digits_value_def)
qed

lemma plain_digits: "s \<noteq> [] \<Longrightarrow> list_all is_digit s \<Longrightarrow> plain_word s"
  by (auto simp: plain_word_def is_digit_def list_all_iff)

lemma string_BigInt_nat_text [simp]: "string_BigInt (nat_text n) = Some (int n)"
proof -
  have d: "js_trim (nat_text n) = nat_text n" by (simp add: js_trim_plain plain_digits nat_text_digits)
  obtain c t where ct: "nat_text n = c # t" by (cases "nat_text n") auto
  have "digits1 10 (nat_text n) = Some n"
    by (simp add: digits1_def base_digits_value nat_text_digits digits_value_nat_text)
  moreover have "is_digit c" using nat_text_digits [of n] ct by simp
  then have "c \<noteq> CHR ''-''" "c \<noteq> CHR ''+''" by (auto simp: is_digit_def byte_nat_def)
  moreover have "c = CHR ''0'' \<Longrightarrow> t = []" using nat_text_no_zero [of n] ct by simp
  ultimately show ?thesis by (auto simp: string_BigInt_def d [unfolded ct] ct)
qed

lemma big_div_fee: "big_div (int n * PROTOCOL_FEE_BPS) 10000 = int (n div 20)"
proof -
  have "n * 500 div 10000 = n div 20" by (simp flip: div_mult2_eq [of "n * 500" 500 20])
  then have "int n * 500 div 10000 = int (n div 20)" by (metis of_nat_mult of_nat_numeral zdiv_int)
  then show ?thesis by (cases "n = 0") (simp_all add: big_div_def PROTOCOL_FEE_BPS_def)
qed

lemma big_text_nat: "big_text (int n) = nat_text n"
  by (simp add: big_text_def)

lemma js_amount_nat_text: "js_amount (JStr (nat_text n)) = Some n"
  by (simp add: js_amount_def js_trim_plain plain_digits nat_text_digits digits_value_nat_text)

subsection \<open>The fee\<close>

definition quote_request :: "BoltConfig \<Rightarrow> string \<Rightarrow> http_request" where
  "quote_request config usdcAmount =
     \<lparr>rq_method = ''GET'',
      rq_url = with_params (jupiterApi config @ ''/quote'') [(''inputMint'', bc_usdcMint config), (''outputMint'', bc_boltMint config),
        (''amount'', usdcAmount), (''slippageBps'', ''50'')],
      rq_headers = [], rq_body = None\<rparr>"

lemma jupiter_quote_ok:
  assumes "parse_URL (jupiterApi config @ ''/quote'') = Inr (jupiterApi config @ ''/quote'')"
    and "n_fetch N (quote_request config usdc) w = (Inr res, w1)" and "hr_ok res" and "hr_json res = Inr quote"
  shows "jupiter_quote N config usdc w = Some (Inr quote, w1)"
  using assms by (simp add: jupiter_quote_def quote_request_def io_bind_def)

lemma io_bind_returns: "m w \<noteq> None \<Longrightarrow> (\<And>x w. f x w \<noteq> None) \<Longrightarrow> io_bind m f w \<noteq> None"
  by (auto simp: io_bind_def split: sum.split)

lemma jupiter_swap_returns: "jupiter_swap N S config q w \<noteq> None"
  unfolding jupiter_swap_def
proof (rule io_bind_returns)
  fix swapRes w
  show "(if \<not> hr_ok swapRes then io_throw ''Jupiter swap API failed: ''
       else
         io_bind (io_lift (hr_json swapRes)) (\<lambda>swapData.
         io_bind (io_lift (js_get ''swapTransaction'' swapData)) (\<lambda>tx.
         io_bind (io_lift (case tx of Some (JStr b) \<Rightarrow> w3_signed S b | _ \<Rightarrow> Inl ''TypeError'')) (\<lambda>raw.
         io_bind (io_call (w3_send S raw)) (\<lambda>signature.
         io_bind (io_call (w3_confirm S signature)) (\<lambda>_. io_return signature)))))) w \<noteq> None"
    by (cases "hr_ok swapRes"; simp only: not_True_eq_False not_False_eq_True if_True if_False; (intro io_bind_returns)?; simp only: io_simps option.simps simp_thms)
qed simp

lemma settle_swap_returns: "\<exists>sig w1. settle_swap N S config q w = Some (Inr sig, w1)"
proof (cases "bc_authorityKeypair config \<and> json_truthy q")
  case True
  obtain p where "jupiter_swap N S config q w = Some p"
    using jupiter_swap_returns [of N S config q w] by (cases "jupiter_swap N S config q w") simp_all
  then obtain r w1 where 1: "jupiter_swap N S config q w = Some (r, w1)" by (cases p) simp
  show ?thesis
  proof (cases r)
    case (Inl e)
    then show ?thesis by (simp only: settle_swap_def if_P [OF True] io_catch_def 1) simp
  next
    case (Inr sig)
    then show ?thesis by (simp only: settle_swap_def if_P [OF True] io_catch_def 1) simp
  qed
next
  case False
  then show ?thesis by (simp only: settle_swap_def if_not_P [OF False]) simp
qed

lemma js_BigInt_nat_text: "js_BigInt ns (if json_truthy (JStr (nat_text n)) then JStr (nat_text n) else JStr ''0'') = Inr (int n)"
  by (simp add: js_BigInt_def)

lemma settleBolt_amounts:
  assumes "jupiter_quote N config usdc w = Some (Inr quote, w1)" and "out_amount quote = JStr (nat_text n)"
    and "settle_swap N S config quote w1 = Some (Inr sig, w2)"
  shows "settleBolt N S jobId usdc worker config w =
      Some (Inr \<lparr>bp_job_id = jobId, bp_usdc_amount = usdc, bp_bolt_amount = nat_text (n - n div 20),
        bp_worker_pubkey = worker, bp_protocol_fee = nat_text (n div 20), bp_tx_signature = Some sig\<rparr>, w2)"
proof -
  have "settle_quote N config usdc w = Some (Inr (quote, JStr (nat_text n)), w1)"
    by (simp add: settle_quote_def io_catch_def io_bind_def assms(1,2))
  moreover have "big_text (int n - int (n div 20)) = nat_text (n - n div 20)" by (metis big_text_nat of_nat_diff div_le_dividend)
  ultimately show ?thesis
    by (simp add: settleBolt_def io_bind_def assms(3) js_BigInt_nat_text big_div_fee big_text_nat del: json_truthy.simps)
qed

lemma swap_amounts:
  assumes "jupiter_quote N config usdc w = Some (Inr quote, w1)" and "quote \<noteq> JNull"
  shows "swapUsdcToBolt N S usdc config w = Some (Inr r, w2) \<longleftrightarrow>
    (\<exists>sig. (if bc_authorityKeypair config then jupiter_swap N S config quote else io_return []) w1 = Some (Inr sig, w2) \<and>
       r = \<lparr>sw_inputAmount = usdc, sw_outputAmount = out_amount quote, sw_txSignature = sig, sw_protocolFee = fee_text (out_amount quote)\<rparr>)"
proof -
  have "swapUsdcToBolt N S usdc config w =
      io_bind (if bc_authorityKeypair config then jupiter_swap N S config quote else io_return []) (\<lambda>sig.
        io_return \<lparr>sw_inputAmount = usdc, sw_outputAmount = out_amount quote, sw_txSignature = sig,
          sw_protocolFee = fee_text (out_amount quote)\<rparr>) w1"
    unfolding swapUsdcToBolt_def by (subst io_bind_def) (simp add: assms js_get_def, simp add: io_bind_def)
  then show ?thesis by (simp only: io_bind_Inr) auto
qed

text \<open>C38. The three computations of the protocol fee agree. When Jupiter's quote gives an amount of \<open>n\<close>
  raw units below \<open>2 ^ 52\<close>, \<open>settleBolt\<close> returns, whatever becomes of the swap, and its fee is a twentieth of
  \<open>n\<close>, rounded down, with the rest for the worker; \<open>distributeBolt\<close> splits the amount in the same way, and
  so does \<open>swapUsdcToBolt\<close>, although it computes in doubles with the inexact factor \<open>0.05\<close>.\<close>

theorem settlement_fees_agree:
  assumes "parse_URL (jupiterApi config @ ''/quote'') = Inr (jupiterApi config @ ''/quote'')"
    and "n_fetch N (quote_request config usdc) w = (Inr res, w1)" and "hr_ok res" and "hr_json res = Inr quote"
    and "json_field ''outAmount'' quote = Some (JStr (nat_text n))" and "n < 2 ^ 52"
  shows "(\<exists>sig w2. settleBolt N S jobId usdc worker config w =
            Some (Inr \<lparr>bp_job_id = jobId, bp_usdc_amount = usdc, bp_bolt_amount = nat_text (n - n div 20),
              bp_worker_pubkey = worker, bp_protocol_fee = nat_text (n div 20), bp_tx_signature = Some sig\<rparr>, w2)) \<and>
         distribute_split (nat_text n) = Inr (int (n - n div 20), int (n div 20)) \<and>
         (\<forall>r w2. swapUsdcToBolt N S usdc config w = Some (Inr r, w2) \<longrightarrow> sw_protocolFee r = nat_text (n div 20)) \<and>
         (\<not> bc_authorityKeypair config \<longrightarrow> (\<exists>r. swapUsdcToBolt N S usdc config w = Some (Inr r, w1)))"
proof -
  note q = jupiter_quote_ok [OF assms(1-4)]
  have amount: "out_amount quote = JStr (nat_text n)" using assms(5) by (simp add: out_amount_def)
  have obj: "quote \<noteq> JNull" using assms(5) by (auto simp: json_field_def)
  have fee: "fee_text (out_amount quote) = nat_text (n div 20)"
    by (simp add: amount fee_text_def js_amount_nat_text swap_fee_exact [OF assms(6)])
  from settle_swap_returns [of N S config quote w1] obtain sig w2 where "settle_swap N S config quote w1 = Some (Inr sig, w2)" by blast
  from settleBolt_amounts [OF q amount this] have "\<exists>sig w2. settleBolt N S jobId usdc worker config w =
      Some (Inr \<lparr>bp_job_id = jobId, bp_usdc_amount = usdc, bp_bolt_amount = nat_text (n - n div 20),
        bp_worker_pubkey = worker, bp_protocol_fee = nat_text (n div 20), bp_tx_signature = Some sig\<rparr>, w2)" by blast
  moreover have "distribute_split (nat_text n) = Inr (int (n - n div 20), int (n div 20))"
    by (simp add: distribute_split_def big_div_fee of_nat_diff)
  moreover have "sw_protocolFee r = nat_text (n div 20)" if "swapUsdcToBolt N S usdc config w = Some (Inr r, w2)" for r w2
    using that unfolding swap_amounts [OF q obj] by (auto simp: fee)
  moreover have "\<exists>r. swapUsdcToBolt N S usdc config w = Some (Inr r, w1)" if "\<not> bc_authorityKeypair config"
    unfolding swap_amounts [OF q obj] using that by simp
  ultimately show ?thesis by (intro conjI allI impI)
qed

definition demo_bolt :: BoltConfig where
  "demo_bolt = \<lparr>bc_boltMint = ''B'', bc_usdcMint = ''U'', bc_rpcUrl = ''http://r'', bc_treasuryPubkey = ''T'',
     bc_jupiterApiUrl = None, bc_authorityKeypair = False\<rparr>"

definition demo_web3 :: "nat web3" where
  "demo_web3 = \<lparr>w3_authority = ''A'', w3_signed = \<lambda>_. Inl ''none'', w3_send = \<lambda>_ w. (Inl ''none'', w),
     w3_confirm = \<lambda>_ w. (Inl ''none'', w), w3_balance = \<lambda>_ _ w. (Inl ''none'', w)\<rparr>"

definition demo_quote :: json where
  "demo_quote = JObj [(''outAmount'', JStr ''1999'')]"

definition demo_jupiter :: "nat net" where
  "demo_jupiter =
     \<lparr>n_fetch = \<lambda>rq t. (Inr \<lparr>hr_status = 200, hr_headers = \<lambda>_. None, hr_body = stringify int_text demo_quote\<rparr>, Suc t),
      n_now = int, n_sleep = \<lambda>ms t. t, n_openaiKey = None, n_anthropicKey = None,
      n_openai = \<lambda>k v w. (Inl ''none'', w), n_anthropic = \<lambda>k v w. (Inl ''none'', w), n_ns = int_text\<rparr>"

theorem settlement_fees_agree_witness:
  "(\<exists>p w2. settleBolt demo_jupiter demo_web3 ''j'' ''5'' ''w'' demo_bolt 0 = Some (Inr p, w2) \<and>
      bp_protocol_fee p = ''99'' \<and> bp_bolt_amount p = ''1900'') \<and>
   (\<exists>r. swapUsdcToBolt demo_jupiter demo_web3 ''5'' demo_bolt 0 = Some (Inr r, 1) \<and> sw_protocolFee r = ''99'')"
proof -
  let ?res = "\<lparr>hr_status = 200, hr_headers = \<lambda>_. None, hr_body = stringify int_text demo_quote\<rparr>"
  have digits: "nat_text 1999 = ''1999''" "nat_text 99 = ''99''" "nat_text 1900 = ''1900''" by code_simp+
  have "JSON_parse (stringify int_text demo_quote) = Some demo_quote"
    by (rule JSON_parse_stringify) (simp add: demo_quote_def is_index_def is_digit_def byte_nat_def)
  then have json: "hr_json ?res = Inr demo_quote" by (simp add: hr_json_def)
  have url: "parse_URL (jupiterApi demo_bolt @ ''/quote'') = Inr (jupiterApi demo_bolt @ ''/quote'')"
    by (simp add: parse_URL_def jupiterApi_def demo_bolt_def startsWith_def url_authority_def)
  have fetch: "n_fetch demo_jupiter (quote_request demo_bolt ''5'') 0 = (Inr ?res, 1)" by (simp add: demo_jupiter_def)
  have amount: "json_field ''outAmount'' demo_quote = Some (JStr (nat_text 1999))"
    by (simp add: json_field_def demo_quote_def digits)
  have "hr_ok ?res" by (simp add: hr_ok_def)
  from settlement_fees_agree [OF url fetch this json amount, of demo_web3 "''j''" "''w''"] show ?thesis
    by (fastforce simp: digits demo_bolt_def)
qed

end
