(* ===== verification/Erc8004.thy ===== *)
theory Erc8004
  imports Settlement Payouts
begin

section \<open>ERC-8004 registries\<close>

text \<open>
  \<open>packages/erc8004/src\<close>: the chain configuration, the identity registry (\<open>identity.ts\<close>) and the reputation
  registry (\<open>reputation.ts\<close>). What viem does on the chain is the record \<open>viem\<close>, with one function per contract
  function the package calls; each takes the address of the registry first. \<open>v_keccak\<close> is \<open>keccak256\<close> with its
  \<open>0x\<close> text. A chain id that \<open>parseInt\<close> cannot read (\<open>NaN\<close>) is \<open>None\<close>.
\<close>

record ChainConfig =
  cc_chainId :: "int option"
  cc_rpcUrl :: string
  cc_identityRegistry :: string
  cc_reputationRegistry :: string

definition MONAD_TESTNET :: ChainConfig where
  "MONAD_TESTNET =
     \<lparr>cc_chainId = Some 10143, cc_rpcUrl = ''https://testnet-rpc.monad.xyz'',
      cc_identityRegistry = ''0x8004A818BFB912233c491871b3d84c89A494BD9e'',
      cc_reputationRegistry = ''0x8004B663056A597Dffe9eCcC1965A193B7388713''\<rparr>"

definition BASE_SEPOLIA :: ChainConfig where
  "BASE_SEPOLIA =
     \<lparr>cc_chainId = Some 84532, cc_rpcUrl = ''https://sepolia.base.org'',
      cc_identityRegistry = ''0x8004A818BFB912233c491871b3d84c89A494BD9e'',
      cc_reputationRegistry = ''0x8004B663056A597Dffe9eCcC1965A193B7388713''\<rparr>"

definition MONAD_MAINNET :: ChainConfig where
  "MONAD_MAINNET =
     \<lparr>cc_chainId = Some 10143, cc_rpcUrl = ''https://rpc.monad.xyz'',
      cc_identityRegistry = ''0x8004A169FB4a3325136EB29fA0ceB6D2e539a432'',
      cc_reputationRegistry = ''0x8004BAa17C55a88189AE136b182e5fdA19dE9b63''\<rparr>"

text \<open>\<open>parseInt(s, 10)\<close>: the digits after white space and a sign.\<close>

definition js_parseInt :: "string \<Rightarrow> int option" where
  "js_parseInt s =
     (let t = js_trim s;
          neg = startsWith t ''-'';
          ds = takeWhile is_digit (if neg \<or> startsWith t ''+'' then tl t else t) in
      if ds = [] then None else Some ((if neg then - 1 else 1) * int (digits_value ds)))"

definition getChainConfig :: "(string \<Rightarrow> string option) \<Rightarrow> ChainConfig" where
  "getChainConfig env =
     (let i = env ''ERC8004_IDENTITY_REGISTRY''; rep = env ''ERC8004_REPUTATION_REGISTRY'';
          rpc = env ''ERC8004_RPC_URL''; chainId = env ''ERC8004_CHAIN_ID'' in
      if str_truthy i \<and> str_truthy rep \<and> str_truthy rpc \<and> str_truthy chainId then
        \<lparr>cc_chainId = js_parseInt (the chainId), cc_rpcUrl = the rpc, cc_identityRegistry = the i,
         cc_reputationRegistry = the rep\<rparr>
      else MONAD_TESTNET)"

record FeedbackEntry =
  fe_agentId :: int
  fe_value :: int
  fe_valueDecimals :: nat
  fe_tag1 :: string
  fe_tag2 :: string
  fe_endpoint :: string
  fe_feedbackURI :: string
  fe_feedbackHash :: string

record ReputationSummary =
  rs_count :: int
  rs_summaryValue :: int
  rs_summaryValueDecimals :: nat

record AgentInfo =
  ai_agentId :: int
  ai_owner :: string
  ai_uri :: string

record 'w viem =
  v_address :: string \<comment> \<open>of the account\<close>
  v_register :: "string \<Rightarrow> string option \<Rightarrow> 'w \<Rightarrow> (string + string) \<times> 'w"
  v_setAgentURI :: "string \<Rightarrow> int \<Rightarrow> string \<Rightarrow> 'w \<Rightarrow> (string + string) \<times> 'w"
  v_giveFeedback :: "string \<Rightarrow> FeedbackEntry \<Rightarrow> nat \<Rightarrow> 'w \<Rightarrow> (string + string) \<times> 'w"
  v_waitReceipt :: "string \<Rightarrow> int option \<Rightarrow> 'w \<Rightarrow> (string + string list list) \<times> 'w" \<comment> \<open>topics of the logs\<close>
  v_agentURI :: "string \<Rightarrow> int \<Rightarrow> 'w \<Rightarrow> (string + string) \<times> 'w"
  v_ownerOf :: "string \<Rightarrow> int \<Rightarrow> 'w \<Rightarrow> (string + string) \<times> 'w"
  v_getSummary :: "string \<Rightarrow> int \<Rightarrow> string list \<Rightarrow> string \<Rightarrow> string \<Rightarrow> 'w \<Rightarrow> (string + int \<times> int \<times> nat) \<times> 'w"
  v_getClients :: "string \<Rightarrow> int \<Rightarrow> 'w \<Rightarrow> (string + string list) \<times> 'w"
  v_readFeedback :: "string \<Rightarrow> int \<Rightarrow> string \<Rightarrow> int \<Rightarrow> 'w \<Rightarrow> (string + int \<times> nat \<times> string \<times> string \<times> bool) \<times> 'w"
  v_keccak :: "string \<Rightarrow> string" \<comment> \<open>\<open>keccak256(toBytes(s))\<close>\<close>

subsection \<open>\<open>identity.ts\<close>\<close>

text \<open>The first log with two topics.\<close>

fun registered_id :: "string \<Rightarrow> string list list \<Rightarrow> string + int" where
  "registered_id hash [] = Inl (''registerAgent: no Registered event found in tx '' @ hash)"
| "registered_id hash (topics # logs) =
     (case topics of
        t0 # t1 # _ \<Rightarrow>
          if t0 \<noteq> [] \<and> t1 \<noteq> [] then
            (case string_BigInt t1 of Some n \<Rightarrow> Inr n | None \<Rightarrow> Inl (''Cannot convert '' @ t1 @ '' to a BigInt''))
          else registered_id hash logs
      | _ \<Rightarrow> registered_id hash logs)"

definition registerAgent :: "'w viem \<Rightarrow> ChainConfig \<Rightarrow> string option \<Rightarrow> ('w, int) io" where
  "registerAgent V cfg agentURI =
     io_bind (io_call (v_register V (cc_identityRegistry cfg) (if str_truthy agentURI then agentURI else None))) (\<lambda>hash.
     io_bind (io_call (v_waitReceipt V hash None)) (\<lambda>logs. io_lift (registered_id hash logs)))"

definition getAgentURI :: "'w viem \<Rightarrow> ChainConfig \<Rightarrow> int \<Rightarrow> ('w, string) io" where
  "getAgentURI V cfg agentId = io_call (v_agentURI V (cc_identityRegistry cfg) agentId)"

definition setAgentURI :: "'w viem \<Rightarrow> ChainConfig \<Rightarrow> int \<Rightarrow> string \<Rightarrow> ('w, string) io" where
  "setAgentURI V cfg agentId uri =
     io_bind (io_call (v_setAgentURI V (cc_identityRegistry cfg) agentId uri)) (\<lambda>hash.
     io_bind (io_call (v_waitReceipt V hash None)) (\<lambda>_. io_return hash))"

definition getAgentOwner :: "'w viem \<Rightarrow> ChainConfig \<Rightarrow> int \<Rightarrow> ('w, string) io" where
  "getAgentOwner V cfg agentId = io_call (v_ownerOf V (cc_identityRegistry cfg) agentId)"

text \<open>\<open>Promise.all\<close> of two calls: both are made, and an error of one is the error of the whole.\<close>

definition io_both :: "('w, 'a) io \<Rightarrow> ('w, 'b) io \<Rightarrow> ('a \<Rightarrow> 'b \<Rightarrow> 'c) \<Rightarrow> ('w, 'c) io" where
  "io_both m n f w =
     (case m w of
        None \<Rightarrow> None
      | Some (r, w1) \<Rightarrow>
          map_option (\<lambda>(s, w2). (bindR r (\<lambda>x. bindR s (\<lambda>y. Inr (f x y))), w2)) (n w1))"

definition getAgentInfo :: "'w viem \<Rightarrow> ChainConfig \<Rightarrow> int \<Rightarrow> ('w, AgentInfo) io" where
  "getAgentInfo V cfg agentId =
     io_both (getAgentOwner V cfg agentId) (getAgentURI V cfg agentId) (\<lambda>owner uri.
       \<lparr>ai_agentId = agentId, ai_owner = owner, ai_uri = uri\<rparr>)"

definition fetchRegistrationFile :: "'w net \<Rightarrow> 'w viem \<Rightarrow> ChainConfig \<Rightarrow> int \<Rightarrow> ('w, json) io" where
  "fetchRegistrationFile N V cfg agentId =
     io_bind (getAgentURI V cfg agentId) (\<lambda>uri.
       if uri = [] then io_throw (''Agent '' @ big_text agentId @ '' has no URI set'')
       else
         io_bind (io_call (n_fetch N \<lparr>rq_method = ''GET'', rq_url = uri, rq_headers = [], rq_body = None\<rparr>)) (\<lambda>response.
           if \<not> hr_ok response then
             io_throw (''Failed to fetch registration file at '' @ uri @ '': '' @ nat_text (hr_status response))
           else io_lift (hr_json response)))"

definition chain_id_text :: "int option \<Rightarrow> string" where
  "chain_id_text i = (case i of Some n \<Rightarrow> big_text n | None \<Rightarrow> ''NaN'')"

definition buildRegistrationFile ::
  "ChainConfig \<Rightarrow> string \<Rightarrow> string \<Rightarrow> string \<Rightarrow> string list \<Rightarrow> rat option \<Rightarrow> json" where
  "buildRegistrationFile cfg name description endpoint skills agentId =
     obj_defined
       [(''type'', Some (JStr ''https://eips.ethereum.org/EIPS/eip-8004#registration-v1'')),
        (''name'', Some (JStr name)),
        (''description'', Some (JStr description)),
        (''services'', Some (JArr [JObj [(''name'', JStr ''dispatch-compute''), (''endpoint'', JStr endpoint),
           (''version'', JStr ''0.1.0''), (''skills'', JArr (map JStr skills))]])),
        (''x402Support'', Some (JBool True)),
        (''active'', Some (JBool True)),
        (''registrations'', map_option (\<lambda>i. JArr [JObj [(''agentId'', JNum i),
           (''agentRegistry'', JStr (''eip155:'' @ chain_id_text (cc_chainId cfg) @ '':'' @ cc_identityRegistry cfg))]]) agentId)]"

subsection \<open>\<open>reputation.ts\<close>\<close>

definition giveFeedback :: "'w viem \<Rightarrow> ChainConfig \<Rightarrow> FeedbackEntry \<Rightarrow> ('w, string) io" where
  "giveFeedback V cfg entry =
     io_bind (io_call (v_giveFeedback V (cc_reputationRegistry cfg) entry 300000)) (\<lambda>hash.
     io_bind (io_call (v_waitReceipt V hash (Some 60000))) (\<lambda>_. io_return hash))"

definition getReputationSummary ::
  "'w viem \<Rightarrow> ChainConfig \<Rightarrow> int \<Rightarrow> string list option \<Rightarrow> string option \<Rightarrow> string option \<Rightarrow> ('w, ReputationSummary) io" where
  "getReputationSummary V cfg agentId clientAddresses tag1 tag2 =
     io_bind (io_call (v_getSummary V (cc_reputationRegistry cfg) agentId
         (case clientAddresses of Some cs \<Rightarrow> cs | None \<Rightarrow> []) (case tag1 of Some t \<Rightarrow> t | None \<Rightarrow> [])
         (case tag2 of Some t \<Rightarrow> t | None \<Rightarrow> []))) (\<lambda>(count, summaryValue, summaryValueDecimals).
       io_return \<lparr>rs_count = count, rs_summaryValue = summaryValue, rs_summaryValueDecimals = summaryValueDecimals\<rparr>)"

definition getFeedbackClients :: "'w viem \<Rightarrow> ChainConfig \<Rightarrow> int \<Rightarrow> ('w, string list) io" where
  "getFeedbackClients V cfg agentId = io_call (v_getClients V (cc_reputationRegistry cfg) agentId)"

definition readFeedback :: "'w viem \<Rightarrow> ChainConfig \<Rightarrow> int \<Rightarrow> string \<Rightarrow> int \<Rightarrow> ('w, int \<times> nat \<times> string \<times> string \<times> bool) io" where
  "readFeedback V cfg agentId clientAddress feedbackIndex =
     io_call (v_readFeedback V (cc_reputationRegistry cfg) agentId clientAddress feedbackIndex)"

definition buildFeedbackHash :: "'w viem \<Rightarrow> (rat \<Rightarrow> string) \<Rightarrow> json \<Rightarrow> string" where
  "buildFeedbackHash V ns feedbackJson = v_keccak V (stringify ns feedbackJson)"

definition buildJobFeedback :: "int \<Rightarrow> rat \<Rightarrow> string \<Rightarrow> string \<Rightarrow> string option \<Rightarrow> FeedbackEntry" where
  "buildJobFeedback agentId score jobType endpoint feedbackURI =
     \<lparr>fe_agentId = agentId, fe_value = js_round (score * 100), fe_valueDecimals = 2, fe_tag1 = ''dispatch-compute'',
      fe_tag2 = jobType, fe_endpoint = endpoint,
      fe_feedbackURI = (case feedbackURI of Some u \<Rightarrow> u | None \<Rightarrow> []),
      fe_feedbackHash = ''0x'' @ replicate 64 (CHR ''0'')\<rparr>"

text \<open>A score is stored in hundredths: reading the entry back gives the score, to half a hundredth.\<close>

lemma buildJobFeedback_score:
  "\<bar>of_int (fe_value (buildJobFeedback i score t e u)) / 10 ^ fe_valueDecimals (buildJobFeedback i score t e u) - score\<bar> \<le> 1 / 200"
proof -
  have "\<bar>of_int (js_round (score * 100)) - score * 100\<bar> \<le> 1 / 2" by (rule js_round_near)
  then have "\<bar>(of_int (js_round (score * 100)) - score * 100) / 100\<bar> \<le> 1 / 200" by (simp add: abs_divide)
  then show ?thesis by (simp add: buildJobFeedback_def diff_divide_distrib)
qed

lemma buildJobFeedback_exact: "fe_value (buildJobFeedback i (of_int s) t e u) = 100 * s"
  using js_round_int [of "s * 100"] by (simp add: buildJobFeedback_def mult.commute)

end
