(* ===== verification/Jobs.thy ===== *)
theory Jobs
  imports Hub
begin

section \<open>Job commit, retry and poll routes\<close>

text \<open>
  \<open>apps/coordinator-core/src/routes/jobs.ts\<close>. The request body is the record
  \<open>commit_body\<close> (a field that is absent is \<open>None\<close>; \<open>payload\<close> is any JSON value). A route returns
  the response, status and body, and the new state; an exception is \<open>Inl\<close> (Express answers 500).
  A background retry loop is a record with its counter; the list of running loops is part of the
  coordinator's state, and \<open>retry_tick\<close> is the callback of its interval, which returns the loop to
  keep or \<open>None\<close> when it cleared the interval.
\<close>

record commit_body =
  cb_job_type :: "string option"
  cb_payload :: json
  cb_privacy_class :: "string option"
  cb_user_id :: "string option"

datatype response = Response nat json

record retry_loop =
  rl_jobId :: string
  rl_jobType :: JobType
  rl_policy :: Policy
  rl_privacyClass :: PrivacyClass
  rl_userId :: string
  rl_payload :: json
  rl_attempts :: nat

definition RETRY_MAX_ATTEMPTS :: nat where "RETRY_MAX_ATTEMPTS = 15"

definition error_response :: "nat \<Rightarrow> string \<Rightarrow> response" where
  "error_response code msg = Response code (JObj [(''error'', JStr msg)])"

text \<open>\<open>UPDATE jobs SET status = 'assigned'\<close> followed by \<open>hub.assignJob\<close>.\<close>

definition dispatch_job ::
  "TrackedWorker \<Rightarrow> string \<Rightarrow> JobType \<Rightarrow> json \<Rightarrow> Policy \<Rightarrow> PrivacyClass \<Rightarrow> string \<Rightarrow> hub \<Rightarrow> hub" where
  "dispatch_job worker jobId jobType payload policy privacyClass userId h =
     assignJob worker jobId
       \<lparr>ja_job_id = jobId, ja_job_type = jobType, ja_payload = payload, ja_policy = policy,
        ja_privacy_class = privacyClass, ja_user_id = userId\<rparr>
       (h\<lparr>h_db := sql_assign_job (w_pubkey worker) jobId (h_db h)\<rparr>)"

definition new_job_row ::
  "int \<Rightarrow> string \<Rightarrow> JobType \<Rightarrow> Policy \<Rightarrow> PrivacyClass \<Rightarrow> string \<Rightarrow> json \<Rightarrow> job_row" where
  "new_job_row now jobId jobType tier privacyClass userId payload =
     \<lparr>j_id = jobId, j_type = jobType, j_policy = tier, j_privacy_class = privacyClass, j_user_id = userId,
      j_status = PENDING, j_payload = payload, j_result = None, j_worker_pubkey = None,
      j_created_at = sql_now now, j_completed_at = None\<rparr>"

text \<open>\<open>handleCommit\<close> after validation: create the row, match, or start a retry loop.\<close>

definition commit_valid ::
  "int \<Rightarrow> string \<Rightarrow> Policy \<Rightarrow> JobType \<Rightarrow> PrivacyClass \<Rightarrow> string \<Rightarrow> json \<Rightarrow> hub
     \<Rightarrow> hub_error + response \<times> hub \<times> retry_loop option" where
  "commit_valid now jobId tier jobType privacyClass userId payload h =
     (case insert_job (new_job_row now jobId jobType tier privacyClass userId payload) (h_db h) of
        Inl e \<Rightarrow> Inl (DbError e)
      | Inr db \<Rightarrow>
          (case claimWorker now jobType tier privacyClass userId (h\<lparr>h_db := db\<rparr>) of
             (Some worker, h1) \<Rightarrow>
               Inr (Response 201 (JObj [(''job_id'', JStr jobId)]),
                    dispatch_job worker jobId jobType payload tier privacyClass userId h1, None)
           | (None, h1) \<Rightarrow>
               if privacyClass = PRIVATE then
                 Inr (Response 422 (JObj [(''error'', JStr ''no_trusted_worker''), (''job_id'', JStr jobId)]),
                      h1\<lparr>h_db := sql_fail_job ''no_trusted_worker'' jobId (h_db h1)\<rparr>, None)
               else
                 Inr (Response 201 (JObj [(''job_id'', JStr jobId)]), h1,
                      Some \<lparr>rl_jobId = jobId, rl_jobType = jobType, rl_policy = tier,
                            rl_privacyClass = privacyClass, rl_userId = userId, rl_payload = payload,
                            rl_attempts = 0\<rparr>)))"

definition handleCommit ::
  "int \<Rightarrow> string \<Rightarrow> Policy \<Rightarrow> commit_body \<Rightarrow> hub \<Rightarrow> hub_error + response \<times> hub \<times> retry_loop option" where
  "handleCommit now uuid tier body h =
     (if \<not> str_truthy (cb_job_type body) \<or> \<not> json_truthy (cb_payload body) \<or> \<not> str_truthy (cb_user_id body) then
        Inr (error_response 400 ''Missing required fields: job_type, payload, user_id'', h, None)
      else
        (case jobtype_of_string (the (cb_job_type body)) of
           None \<Rightarrow> Inr (error_response 400 ''Invalid job_type'', h, None)
         | Some jobType \<Rightarrow>
             (let privacyClass = (case cb_privacy_class body of Some p \<Rightarrow> privacy_of_string p | None \<Rightarrow> PUBLIC) in
              commit_valid now uuid tier jobType privacyClass (the (cb_user_id body)) (cb_payload body) h)))"

definition retry_tick :: "int \<Rightarrow> retry_loop \<Rightarrow> hub \<Rightarrow> hub \<times> retry_loop option" where
  "retry_tick now rl h =
     (let rl1 = rl\<lparr>rl_attempts := rl_attempts rl + 1\<rparr> in
      case select_job (rl_jobId rl) (h_db h) of
        None \<Rightarrow> (h, None)
      | Some job \<Rightarrow>
          if j_status job \<noteq> PENDING then (h, None)
          else
            (case claimWorker now (rl_jobType rl) (rl_policy rl) (rl_privacyClass rl) (rl_userId rl) h of
               (Some worker, h1) \<Rightarrow>
                 (dispatch_job worker (rl_jobId rl) (rl_jobType rl) (rl_payload rl) (rl_policy rl)
                    (rl_privacyClass rl) (rl_userId rl) h1, None)
             | (None, h1) \<Rightarrow>
                 if rl_attempts rl1 \<ge> RETRY_MAX_ATTEMPTS
                 then (h1\<lparr>h_db := sql_fail_job ''no_eligible_worker'' (rl_jobId rl) (h_db h1)\<rparr>, None)
                 else (h1, Some rl1)))"

text \<open>\<open>GET /v1/jobs/:id\<close>. The receipt object is the stored receipt with two members added.\<close>

definition receipt_object :: "receipt_row \<Rightarrow> json" where
  "receipt_object r =
     (case receipt_json (rr_receipt r) of
        JObj kvs \<Rightarrow> JObj (kvs @ [(''signature'', JStr (rr_signature r)), (''verified'', JBool (rr_verified r))])
      | j \<Rightarrow> j)"

definition poll_job :: "(int \<Rightarrow> string) \<Rightarrow> string \<Rightarrow> hub \<Rightarrow> response" where
  "poll_job datetime jobId h =
     (case select_job jobId (h_db h) of
        None \<Rightarrow> error_response 404 ''Job not found''
      | Some row \<Rightarrow>
          (let receipt = (if j_status row = COMPLETED then
                            (case select_receipt (j_id row) (h_db h) of
                               Some r \<Rightarrow> receipt_object r | None \<Rightarrow> JNull)
                          else JNull) in
           Response 200 (JObj
             [(''id'', JStr (j_id row)), (''status'', JStr (status_string (j_status row))),
              (''result'', case j_result row of Some j \<Rightarrow> j | None \<Rightarrow> JNull),
              (''receipt'', receipt),
              (''created_at'', JStr (datetime (j_created_at row))),
              (''completed_at'', case j_completed_at row of Some t \<Rightarrow> JStr (datetime t) | None \<Rightarrow> JNull)])))"

subsection \<open>The retry loop ends\<close>

text \<open>The ticks of one loop, each at its own time and in whatever state the hub then is.\<close>

fun retry_ticks :: "(int \<times> hub) list \<Rightarrow> retry_loop \<Rightarrow> retry_loop option" where
  "retry_ticks [] rl = Some rl"
| "retry_ticks ((now, h) # ts) rl =
     (case snd (retry_tick now rl h) of None \<Rightarrow> None | Some rl' \<Rightarrow> retry_ticks ts rl')"

lemma retry_tick_Some:
  "retry_tick now rl h = (h', Some rl') \<Longrightarrow>
   rl' = rl\<lparr>rl_attempts := rl_attempts rl + 1\<rparr> \<and> rl_attempts rl + 1 < RETRY_MAX_ATTEMPTS"
  by (auto simp: retry_tick_def split: option.splits if_splits prod.splits)

lemma retry_ticks_attempts:
  "retry_ticks ts rl = Some rl' \<Longrightarrow> ts \<noteq> [] \<Longrightarrow> rl_attempts rl + length ts < RETRY_MAX_ATTEMPTS"
proof (induction ts arbitrary: rl)
  case (Cons t ts)
  obtain now h where t: "t = (now, h)" by fastforce
  obtain h' rl1 where tick: "retry_tick now rl h = (h', Some rl1)" "retry_ticks ts rl1 = Some rl'"
    using Cons.prems(1) unfolding t by (cases "retry_tick now rl h") (auto split: option.splits)
  note rl1 = retry_tick_Some [OF tick(1)]
  show ?case
  proof (cases "ts = []")
    case True
    with rl1 show ?thesis by simp
  next
    case False
    then show ?thesis using Cons.IH [OF tick(2)] rl1 by simp
  qed
qed simp

text \<open>C14. A retry loop makes at most 15 attempts. Whatever the hub's state at its ticks, a loop
  started by a commit has cleared its interval by its 15th tick.\<close>

theorem retry_loop_ends:
  assumes "rl_attempts rl = 0" and "length ts \<ge> 15"
  shows "retry_ticks ts rl = None"
proof (rule ccontr)
  assume "retry_ticks ts rl \<noteq> None"
  then obtain rl' where "retry_ticks ts rl = Some rl'" by blast
  then show False
    using retry_ticks_attempts [of ts rl rl'] assms by (cases ts) (auto simp: RETRY_MAX_ATTEMPTS_def)
qed

theorem retry_loop_ends_witness:
  "retry_ticks (replicate 15 (0, demo_hub))
     \<lparr>rl_jobId = ''j'', rl_jobType = LLM_INFER, rl_policy = FAST, rl_privacyClass = PUBLIC, rl_userId = ''u'',
      rl_payload = JNull, rl_attempts = 0\<rparr> = None"
  by (rule retry_loop_ends) simp_all

end
