(* ===== verification/HubInv.thy ===== *)
theory HubInv
  imports Jobs
begin

section \<open>The invariant of the hub\<close>

text \<open>
  What holds between two events: the registry and the jobs table agree. A worker is busy exactly
  when it has an active job, no job is active at two workers, a real (not demo) active job has a row
  that is \<open>assigned\<close> to the public key of that worker, every \<open>assigned\<close> row is active at some
  worker, and a PRIVATE job only ever has a worker its user is paired with. Each handler of the hub
  and each route of the jobs router is shown to keep it.

  The link between registry and table is stated on the relation \<open>runs\<close>, so that the handlers
  reduce to three moves: a worker releases its job, a worker starts a job, nothing changes.
\<close>

definition runs :: "TrackedWorker jsmap \<Rightarrow> string \<Rightarrow> string \<Rightarrow> string \<Rightarrow> bool" where
  "runs ws k j pk \<longleftrightarrow> (\<exists>w. map_of ws k = Some w \<and> w_activeJobId w = Some j \<and> w_pubkey w = pk)"

definition registry_ok :: "TrackedWorker jsmap \<Rightarrow> bool" where
  "registry_ok ws \<longleftrightarrow> workers_wf ws \<and>
     (\<forall>k w. map_of ws k = Some w \<longrightarrow>
        (w_status w = Busy \<longleftrightarrow> w_activeJobId w \<noteq> None) \<and> w_activeJobId w \<noteq> Some [])"

definition linked :: "(string \<Rightarrow> string \<Rightarrow> string \<Rightarrow> bool) \<Rightarrow> database \<Rightarrow> bool" where
  "linked R db \<longleftrightarrow>
     (\<forall>k k' j pk pk'. R k j pk \<and> R k' j pk' \<longrightarrow> k = k') \<and>
     (\<forall>k j pk. R k j pk \<and> \<not> is_demo j \<longrightarrow>
        (\<exists>r. select_job j db = Some r \<and> j_status r = ASSIGNED \<and> j_worker_pubkey r = Some pk)) \<and>
     (\<forall>j r. select_job j db = Some r \<and> j_status r = ASSIGNED \<longrightarrow> (\<exists>k pk. R k j pk))"

definition trusted :: "database \<Rightarrow> string \<Rightarrow> string \<Rightarrow> bool" where
  "trusted db userId pubkey \<longleftrightarrow>
     (\<exists>p \<in> set (db_pairings db). t_user_id p = userId \<and> t_claimed p \<and> t_provider_pubkey p = Some pubkey)"

definition jobs_ok :: "database \<Rightarrow> bool" where
  "jobs_ok db \<longleftrightarrow>
     (\<forall>j r. select_job j db = Some r \<longrightarrow> \<not> is_demo j \<and> j \<noteq> [] \<and>
        (\<forall>pk. j_privacy_class r = PRIVATE \<and> j_worker_pubkey r = Some pk \<longrightarrow> trusted db (j_user_id r) pk))"

definition hub_inv :: "hub \<Rightarrow> bool" where
  "hub_inv h \<longleftrightarrow>
     registry_ok (h_workers h) \<and> db_inv (h_db h) \<and> jobs_ok (h_db h) \<and> linked (runs (h_workers h)) (h_db h)"

subsection \<open>The three moves on the registry\<close>

lemma runs_fun: "runs ws k j pk \<Longrightarrow> runs ws k j' pk' \<Longrightarrow> j = j' \<and> pk = pk'"
  by (auto simp: runs_def)

definition neutral :: "(TrackedWorker \<Rightarrow> TrackedWorker) \<Rightarrow> bool" where
  "neutral f \<longleftrightarrow> (\<forall>w. w_id (f w) = w_id w \<and> w_pubkey (f w) = w_pubkey w \<and> w_status (f w) = w_status w \<and>
     w_activeJobId (f w) = w_activeJobId w)"

lemma neutral_updates [simp]:
  "neutral (\<lambda>w. w\<lparr>w_lastHeartbeat := t\<rparr>)" "neutral (\<lambda>w. w\<lparr>w_reputationScore := s\<rparr>)"
  "neutral (\<lambda>w. w\<lparr>w_stakeLevel := l\<rparr>)"
  by (simp_all add: neutral_def)

lemma runs_neutral: "neutral f \<Longrightarrow> runs (map_modify i f ws) = runs ws"
  by (auto simp: runs_def map_of_modify neutral_def fun_eq_iff)

lemma registry_neutral: "neutral f \<Longrightarrow> registry_ok ws \<Longrightarrow> registry_ok (map_modify i f ws)"
  by (auto simp: registry_ok_def map_of_modify neutral_def workers_wf_modify split: if_splits)

lemma runs_idle: "runs (map_modify i set_idle ws) k j pk \<longleftrightarrow> runs ws k j pk \<and> k \<noteq> i"
  by (auto simp: runs_def map_of_modify set_idle_def)

lemma registry_idle: "registry_ok ws \<Longrightarrow> registry_ok (map_modify i set_idle ws)"
  by (auto simp: registry_ok_def map_of_modify set_idle_def workers_wf_modify split: if_splits)

lemma runs_delete: "runs (AList.delete i ws) k j pk \<longleftrightarrow> runs ws k j pk \<and> k \<noteq> i"
  by (auto simp: runs_def delete_conv)

lemma registry_delete: "registry_ok ws \<Longrightarrow> registry_ok (AList.delete i ws)"
  by (auto simp: registry_ok_def delete_conv workers_wf_delete split: if_splits)

lemma runs_register:
  "map_of ws i = None \<Longrightarrow> w_activeJobId w = None \<Longrightarrow> runs (AList.update i w ws) = runs ws"
  by (auto simp: runs_def update_conv fun_eq_iff)

lemma registry_register:
  "registry_ok ws \<Longrightarrow> w_id w = i \<Longrightarrow> w_activeJobId w = None \<Longrightarrow> w_status w = Idle \<Longrightarrow>
   registry_ok (AList.update i w ws)"
  by (auto simp: registry_ok_def update_conv workers_wf_update split: if_splits)

definition start :: "string \<Rightarrow> TrackedWorker \<Rightarrow> TrackedWorker" where
  "start j w = w\<lparr>w_status := Busy, w_activeJobId := Some j\<rparr>"

lemma runs_start:
  "map_of ws i = Some w \<Longrightarrow> w_activeJobId w = None \<Longrightarrow>
   runs (map_modify i (start j) ws) k j' pk \<longleftrightarrow> runs ws k j' pk \<or> (k = i \<and> j' = j \<and> pk = w_pubkey w)"
  by (auto simp: runs_def map_of_modify start_def)

lemma registry_start: "registry_ok ws \<Longrightarrow> j \<noteq> [] \<Longrightarrow> registry_ok (map_modify i (start j) ws)"
  by (auto simp: registry_ok_def map_of_modify start_def workers_wf_modify split: if_splits)

subsection \<open>The three moves on the link\<close>

lemma linkedD:
  assumes "linked R db"
  shows linked_unique: "R k j pk \<Longrightarrow> R k' j pk' \<Longrightarrow> k = k'"
    and linked_row: "R k j pk \<Longrightarrow> \<not> is_demo j \<Longrightarrow>
      \<exists>r. select_job j db = Some r \<and> j_status r = ASSIGNED \<and> j_worker_pubkey r = Some pk"
    and linked_worker: "select_job j db = Some r \<Longrightarrow> j_status r = ASSIGNED \<Longrightarrow> \<exists>k pk. R k j pk"
  using assms unfolding linked_def by blast+

lemma linkedI:
  assumes "\<And>k k' j pk pk'. R k j pk \<Longrightarrow> R k' j pk' \<Longrightarrow> k = k'"
    and "\<And>k j pk. R k j pk \<Longrightarrow> \<not> is_demo j \<Longrightarrow>
      \<exists>r. select_job j db = Some r \<and> j_status r = ASSIGNED \<and> j_worker_pubkey r = Some pk"
    and "\<And>j r. select_job j db = Some r \<Longrightarrow> j_status r = ASSIGNED \<Longrightarrow> \<exists>k pk. R k j pk"
  shows "linked R db"
  using assms unfolding linked_def by blast

lemma linked_same_jobs:
  assumes "linked R db" "\<And>i. select_job i db' = select_job i db"
  shows "linked R db'"
  using assms(1) unfolding linked_def assms(2) .

lemma linked_release:
  assumes l: "linked R db" and k: "R k j pk" "\<And>j' pk'. R k j' pk' \<Longrightarrow> j' = j"
    and row: "\<And>r. select_job j db' = Some r \<Longrightarrow> j_status r \<noteq> ASSIGNED"
    and same: "\<And>i. i \<noteq> j \<Longrightarrow> select_job i db' = select_job i db"
    and R': "\<And>k' j' pk'. R' k' j' pk' \<longleftrightarrow> R k' j' pk' \<and> k' \<noteq> k"
  shows "linked R' db'"
proof (rule linkedI)
  have other: "R' k' j' pk' \<Longrightarrow> j' \<noteq> j" for k' j' pk'
    using linked_unique [OF l k(1)] R' by metis
  show "R' k1 i p1 \<Longrightarrow> R' k2 i p2 \<Longrightarrow> k1 = k2" for k1 k2 i p1 p2
    using linked_unique [OF l] R' by metis
  show "\<exists>r. select_job i db' = Some r \<and> j_status r = ASSIGNED \<and> j_worker_pubkey r = Some p"
    if "R' k1 i p" "\<not> is_demo i" for k1 i p
    using that linked_row [OF l] R' other same by metis
  show "\<exists>k pk. R' k i pk" if "select_job i db' = Some r" "j_status r = ASSIGNED" for i r
    using that linked_worker [OF l] row same R' k(2) by metis
qed

lemma linked_start:
  assumes l: "linked R db" and free: "\<And>k pk. \<not> R k j pk"
    and row: "\<not> is_demo j \<Longrightarrow> \<exists>r. select_job j db' = Some r \<and> j_status r = ASSIGNED \<and> j_worker_pubkey r = Some pk"
    and same: "\<And>i. i \<noteq> j \<Longrightarrow> select_job i db' = select_job i db"
    and R': "\<And>k' j' pk'. R' k' j' pk' \<longleftrightarrow> R k' j' pk' \<or> (k' = k \<and> j' = j \<and> pk' = pk)"
  shows "linked R' db'"
proof (rule linkedI)
  show "R' k1 i p1 \<Longrightarrow> R' k2 i p2 \<Longrightarrow> k1 = k2" for k1 k2 i p1 p2
    using linked_unique [OF l] R' free by metis
  show "\<exists>r. select_job i db' = Some r \<and> j_status r = ASSIGNED \<and> j_worker_pubkey r = Some p"
    if "R' k1 i p" "\<not> is_demo i" for k1 i p
    using that linked_row [OF l] R' free row same by metis
  show "\<exists>k pk. R' k i pk" if "select_job i db' = Some r" "j_status r = ASSIGNED" for i r
    using that linked_worker [OF l] same R' by metis
qed

subsection \<open>Row updates keep the table well formed\<close>

definition row_ok :: "(job_row \<Rightarrow> job_row) \<Rightarrow> bool" where
  "row_ok f \<longleftrightarrow> (\<forall>r. j_privacy_class (f r) = j_privacy_class r \<and> j_user_id (f r) = j_user_id r \<and>
     (j_worker_pubkey (f r) = j_worker_pubkey r \<or> j_worker_pubkey (f r) = None))"

lemma trusted_cong: "db_pairings db' = db_pairings db \<Longrightarrow> trusted db' = trusted db"
  by (simp add: trusted_def fun_eq_iff)

lemma jobs_ok_update:
  assumes "jobs_ok db" "row_ok f" "same_id f"
  shows "jobs_ok (update_job i f db)"
  using assms
  by (auto simp: jobs_ok_def select_update_job row_ok_def trusted_cong [of "update_job i f db" db] split: if_splits)
    (metis option.distinct(1))+

lemma row_ok_sql [simp]:
  "row_ok (\<lambda>r. r\<lparr>j_status := s, j_result := x, j_completed_at := t\<rparr>)"
  "row_ok (\<lambda>r. r\<lparr>j_status := s, j_worker_pubkey := None\<rparr>)"
  "row_ok (\<lambda>r. r\<lparr>j_status := s, j_result := x\<rparr>)"
  by (simp_all add: row_ok_def)

lemma jobs_ok_sql [simp]:
  "jobs_ok db \<Longrightarrow> jobs_ok (sql_complete_job now res i db)" "jobs_ok db \<Longrightarrow> jobs_ok (sql_reject_job i db)"
  "jobs_ok db \<Longrightarrow> jobs_ok (sql_fail_job e i db)"
  by (simp_all add: sql_updates jobs_ok_update)

lemma jobs_ok_assign:
  assumes "jobs_ok db" "\<And>r. select_job i db = Some r \<Longrightarrow> j_privacy_class r = PRIVATE \<Longrightarrow> trusted db (j_user_id r) pk"
  shows "jobs_ok (sql_assign_job pk i db)"
  using assms trusted_cong [of "sql_assign_job pk i db" db]
  by (auto simp: jobs_ok_def select_sql split: if_splits)

lemma jobs_ok_same_jobs:
  "jobs_ok db \<Longrightarrow> db_jobs db' = db_jobs db \<Longrightarrow> (\<And>u pk. trusted db u pk \<Longrightarrow> trusted db' u pk) \<Longrightarrow> jobs_ok db'"
  by (auto simp: jobs_ok_def select_job_def)

lemma jobs_ok_insert:
  assumes "jobs_ok db" "insert_job r db = Inr db'" "\<not> is_demo (j_id r)" "j_id r \<noteq> []" "j_worker_pubkey r = None"
  shows "jobs_ok db'"
proof -
  have "db_pairings db' = db_pairings db" using assms(2) by (simp add: insert_job_Inr)
  then show ?thesis
    using assms trusted_cong [of db' db] by (auto simp: jobs_ok_def select_insert_job [OF assms(2)])
qed

lemma linked_insert:
  assumes l: "linked R db" and ins: "insert_job r db = Inr db'" and r: "j_status r \<noteq> ASSIGNED" "\<not> is_demo (j_id r)"
  shows "linked R db'"
proof (rule linkedI)
  have none: "select_job (j_id r) db = None" using ins by (simp add: insert_job_Inr select_job_None)
  show "R k1 i p1 \<Longrightarrow> R k2 i p2 \<Longrightarrow> k1 = k2" for k1 k2 i p1 p2 using linked_unique [OF l] by metis
  show "\<exists>r. select_job i db' = Some r \<and> j_status r = ASSIGNED \<and> j_worker_pubkey r = Some p"
    if R: "R k1 i p" "\<not> is_demo i" for k1 i p
  proof -
    obtain r' where "select_job i db = Some r'" "j_status r' = ASSIGNED" "j_worker_pubkey r' = Some p"
      using linked_row [OF l R] by blast
    with none show ?thesis by (auto simp: select_insert_job [OF ins])
  qed
  show "\<exists>k pk. R k i pk" if "select_job i db' = Some r'" "j_status r' = ASSIGNED" for i r'
    using that r linked_worker [OF l] by (auto simp: select_insert_job [OF ins] split: if_splits)
qed

subsection \<open>The handlers keep the invariant\<close>

lemma hub_inv_cong: "h_workers h' = h_workers h \<Longrightarrow> h_db h' = h_db h \<Longrightarrow> hub_inv h' = hub_inv h"
  by (simp add: hub_inv_def)

lemma hub_inv_send [simp]: "hub_inv (ws_send ws m h) = hub_inv h" "hub_inv (ws_close ws h) = hub_inv h"
  by (simp_all add: hub_inv_def)

lemma hub_inv_calls [simp]:
  "hub_inv (call_postFeedback w j h) = hub_inv h" "hub_inv (queue_payouts X pk j h) = hub_inv h"
  by (simp_all add: hub_inv_def)

lemma hub_inv_neutral: "neutral f \<Longrightarrow> hub_inv h \<Longrightarrow> hub_inv (modify_worker i f h)"
  by (simp add: hub_inv_def registry_neutral runs_neutral)

lemma hub_inv_db:
  "hub_inv h \<Longrightarrow> db_inv db \<Longrightarrow> jobs_ok db \<Longrightarrow> (\<And>i. select_job i db = select_job i (h_db h)) \<Longrightarrow>
   hub_inv (h\<lparr>h_db := db\<rparr>)"
  using linked_same_jobs [of "runs (h_workers h)" "h_db h" db] by (simp add: hub_inv_def)

text \<open>A worker gives its job up: it becomes idle (or is removed), and the row, if the job is a
  real one, leaves the status \<open>assigned\<close>.\<close>

lemma linked_release_worker:
  assumes inv: "hub_inv h" and w: "map_of (h_workers h) k = Some w" "w_activeJobId w = Some j"
    and f: "\<And>r. j_status (f r) \<noteq> ASSIGNED" "same_id f"
    and R': "\<And>k' j' pk'. R' k' j' pk' \<longleftrightarrow> runs (h_workers h) k' j' pk' \<and> k' \<noteq> k"
  shows "linked R' (if is_demo j then h_db h else update_job j f (h_db h))"
proof (rule linked_release [where k = k and j = j and pk = "w_pubkey w"])
  show "linked (runs (h_workers h)) (h_db h)" using inv by (simp add: hub_inv_def)
  show "runs (h_workers h) k j (w_pubkey w)" using w by (simp add: runs_def)
  then show "runs (h_workers h) k j' pk' \<Longrightarrow> j' = j" for j' pk' by (auto dest: runs_fun)
  show "j_status r \<noteq> ASSIGNED"
    if "select_job j (if is_demo j then h_db h else update_job j f (h_db h)) = Some r" for r
    using that f inv by (auto simp: select_update_job hub_inv_def jobs_ok_def split: if_splits)
  show "select_job i (if is_demo j then h_db h else update_job j f (h_db h)) = select_job i (h_db h)"
    if "i \<noteq> j" for i using that f by (simp add: select_update_job)
qed (rule R')

lemma hub_inv_release:
  assumes "hub_inv h" "map_of (h_workers h) k = Some w" "w_activeJobId w = Some j"
    and "\<And>r. j_status (f r) \<noteq> ASSIGNED" "same_id f" "row_ok f"
  shows "hub_inv (modify_worker k set_idle (if is_demo j then h else h\<lparr>h_db := update_job j f (h_db h)\<rparr>))"
proof -
  have "linked (runs (map_modify k set_idle (h_workers h))) (if is_demo j then h_db h else update_job j f (h_db h))"
    by (rule linked_release_worker [OF assms(1-5)]) (rule runs_idle)
  with assms show ?thesis
    by (auto simp: hub_inv_def registry_idle db_inv_update_job jobs_ok_update)
qed

lemma hub_inv_disconnect:
  assumes "hub_inv h"
  shows "hub_inv (handleDisconnect i h)"
proof (cases "map_of (h_workers h) i")
  case None
  with assms show ?thesis by (simp add: handleDisconnect_def)
next
  case (Some w)
  show ?thesis
  proof (cases "w_activeJobId w")
    case None
    have "runs (AList.delete i (h_workers h)) = runs (h_workers h)"
      using Some None by (auto simp: runs_def delete_conv fun_eq_iff)
    with Some None assms show ?thesis
      by (simp add: handleDisconnect_def hub_inv_def registry_delete)
  next
    case (Some j)
    note w = \<open>map_of (h_workers h) i = Some w\<close>
    let ?f = "\<lambda>r. r\<lparr>j_status := FAILED, j_result := Some (JObj [(''error'', JStr ''worker_disconnected'')])\<rparr>"
    have "linked (runs (AList.delete i (h_workers h))) (if is_demo j then h_db h else update_job j ?f (h_db h))"
      by (rule linked_release_worker [OF assms w Some]) (simp_all add: runs_delete)
    moreover have "j \<noteq> []" using assms w Some by (auto simp: hub_inv_def registry_ok_def)
    ultimately show ?thesis
      using assms w Some
      by (auto simp: handleDisconnect_def hub_inv_def registry_delete sql_fail_job_def db_inv_update_job jobs_ok_update)
  qed
qed

lemma hub_inv_register:
  assumes "hub_inv h" "map_of (h_workers h) uuid = None"
  shows "hub_inv ((handleRegister now uuid ws msg h)\<lparr>h_conns := c\<rparr>)"
  using assms
  by (simp add: hub_inv_def handleRegister_def runs_register registry_register)

lemma hub_inv_heartbeat: "hub_inv h \<Longrightarrow> hub_inv (handleHeartbeat now msg h)"
  by (simp add: handleHeartbeat_def hub_inv_neutral split: option.splits)

lemma hub_inv_reject: "hub_inv h \<Longrightarrow> hub_inv (handleJobReject msg h)"
proof (cases "findByActiveJob (jr_job_id msg) h")
  case (Some w)
  assume inv: "hub_inv h"
  then have "map_of (h_workers h) (w_id w) = Some w \<and> w_activeJobId w = Some (jr_job_id msg)"
    using Some by (intro findByActiveJob_Some) (simp_all add: hub_inv_def registry_ok_def)
  then show ?thesis
    using hub_inv_release [OF inv, of "w_id w" w "jr_job_id msg"
        "\<lambda>r. r\<lparr>j_status := PENDING, j_worker_pubkey := None\<rparr>"] Some
    by (simp add: handleJobReject_def sql_reject_job_def split: if_splits)
qed (simp add: handleJobReject_def)

lemma receipts_same:
  assumes "insert_receipt r db = Inr db'"
  shows "select_job i db' = select_job i db" "jobs_ok db \<Longrightarrow> jobs_ok db'" "db_pairings db' = db_pairings db"
  using assms by (auto simp: insert_receipt_Inr select_job_def jobs_ok_def trusted_def)

lemma hub_inv_receiptSubmit:
  "hub_inv h \<Longrightarrow> handleReceiptSubmit X now uuid msg h = Inr h' \<Longrightarrow> hub_inv h'"
  by (auto simp: handleReceiptSubmit_def receipts_same intro!: hub_inv_db split: sum.splits)
    (auto simp: hub_inv_def insert_receipt_inv receipts_same)

lemma complete_txn_cases:
  assumes "complete_txn X now uuid w msg db = Inr db'"
  shows "\<exists>rs. db' = (sql_complete_job now (jc_output msg) (jc_job_id msg) db)\<lparr>db_receipts := db_receipts db @ rs\<rparr>"
proof -
  let ?db = "sql_complete_job now (jc_output msg) (jc_job_id msg) db"
  have "\<exists>rs. ?db = ?db\<lparr>db_receipts := db_receipts db @ rs\<rparr>" by (rule exI [of _ "[]"]) simp
  moreover have "insert_receipt r ?db = Inr db' \<Longrightarrow> ?thesis" for r
    by (auto simp: insert_receipt_Inr)
  ultimately show ?thesis
    using assms by (auto simp: complete_txn_def split: option.splits if_splits)
qed

lemma complete_txn_inv:
  assumes "complete_txn X now uuid w msg db = Inr db'" "db_inv db"
  shows "db_inv db'"
  using assms
  by (auto simp: complete_txn_def insert_receipt_inv split: option.splits if_splits)

lemma hub_inv_complete:
  assumes inv: "hub_inv h" and ok: "handleJobComplete X now uuid msg h = Inr h'"
  shows "hub_inv h'"
proof (cases "findByActiveJob (jc_job_id msg) h")
  case None
  with assms show ?thesis by (simp add: handleJobComplete_def)
next
  case (Some w)
  let ?j = "jc_job_id msg" and ?f = "\<lambda>r. r\<lparr>j_status := COMPLETED, j_result := Some (jc_output msg), j_completed_at := Some (sql_now now)\<rparr>"
  have w: "map_of (h_workers h) (w_id w) = Some w" "w_activeJobId w = Some ?j"
    using findByActiveJob_Some [of h ?j w] Some inv by (simp_all add: hub_inv_def registry_ok_def)
  have rel: "hub_inv (modify_worker (w_id w) set_idle (if is_demo ?j then h else h\<lparr>h_db := update_job ?j ?f (h_db h)\<rparr>))"
    by (rule hub_inv_release [OF inv w]) simp_all
  show ?thesis
  proof (cases "is_demo ?j")
    case True
    with ok Some rel show ?thesis by (auto simp: handleJobComplete_def)
  next
    case False
    with ok Some obtain db where txn: "complete_txn X now uuid w msg (h_db h) = Inr db"
      and h': "h' = modify_worker (w_id w) set_idle (queue_payouts X (w_pubkey w) ?j
                (call_postFeedback w ?j (h\<lparr>h_db := db\<rparr>)))"
      by (auto simp: handleJobComplete_def split: sum.splits)
    obtain rs where db: "db = (update_job ?j ?f (h_db h))\<lparr>db_receipts := db_receipts (h_db h) @ rs\<rparr>"
      using complete_txn_cases [OF txn] by (auto simp: sql_complete_job_def)
    have sel: "select_job i db = select_job i (update_job ?j ?f (h_db h))" for i
      by (simp add: db select_job_def)
    have "jobs_ok db"
      by (rule jobs_ok_same_jobs [of "update_job ?j ?f (h_db h)"])
        (use inv in \<open>simp_all add: db hub_inv_def jobs_ok_update trusted_def\<close>)
    moreover have "db_inv db" using complete_txn_inv [OF txn] inv by (simp add: hub_inv_def)
    ultimately show ?thesis
      using rel False h' linked_same_jobs [OF _ sel, of "runs (map_modify (w_id w) set_idle (h_workers h))"]
      by (simp add: hub_inv_def)
  qed
qed

lemma hub_inv_prune: "hub_inv h \<Longrightarrow> hub_inv (pruneStale now h)"
proof -
  have "hub_inv h \<Longrightarrow> hub_inv (fold (prune_one now) ks h)" for ks
    by (induction ks arbitrary: h) (auto simp: prune_one_def hub_inv_disconnect split: option.splits)
  then show "hub_inv h \<Longrightarrow> hub_inv (pruneStale now h)" by (simp add: pruneStale_def)
qed

lemma hub_inv_close: "hub_inv h \<Longrightarrow> hub_inv (hub_onClose ws h)"
proof -
  have "hub_inv h \<Longrightarrow> hub_inv ((ws_close ws h)\<lparr>h_conns := c\<rparr>)" for c by (simp add: hub_inv_def)
  then show "hub_inv h \<Longrightarrow> hub_inv (hub_onClose ws h)"
    by (auto simp: hub_onClose_def intro!: hub_inv_disconnect split: option.splits)
qed

lemma hub_inv_promises:
  assumes "hub_inv h"
  shows "hub_inv (reputation_resolved i score h)" "hub_inv (stake_resolved i tier h)"
    "hub_inv (feedback_resolved f tx h)" "hub_inv (feedback_rejected f err h)"
proof -
  have 1: "hub_inv (h\<lparr>h_repCalls := a\<rparr>)" "hub_inv (h\<lparr>h_stakeCalls := a\<rparr>)" "hub_inv (h\<lparr>h_feedback := b\<rparr>)" for a b
    using assms by (simp_all add: hub_inv_def)
  show "hub_inv (reputation_resolved i score h)" "hub_inv (stake_resolved i tier h)"
    using 1 by (auto simp: reputation_resolved_def stake_resolved_def intro!: hub_inv_neutral split: option.splits)
  show "hub_inv (feedback_resolved f tx h)" "hub_inv (feedback_rejected f err h)"
    using 1 by (auto simp: feedback_resolved_def feedback_rejected_def split: option.splits prod.splits)
qed

lemma hub_inv_message:
  assumes "hub_inv h" "hub_onMessage X now uuid ws m h = Inr h'" "map_of (h_workers h) uuid = None"
  shows "hub_inv h'"
proof (cases m)
  case (KnownMsg msg)
  show ?thesis
  proof (cases msg)
    case (JobComplete x)
    with KnownMsg assms(2) have "handleJobComplete X now uuid x h = Inr h'" by (simp add: hub_onMessage_def)
    with assms(1) show ?thesis by (rule hub_inv_complete)
  next
    case (ReceiptSubmit x)
    with KnownMsg assms(2) have "handleReceiptSubmit X now uuid x h = Inr h'" by (simp add: hub_onMessage_def)
    with assms(1) show ?thesis by (rule hub_inv_receiptSubmit)
  qed (use KnownMsg assms in \<open>auto simp: hub_onMessage_def hub_inv_register hub_inv_heartbeat hub_inv_reject\<close>)
qed (use assms in \<open>auto simp: hub_onMessage_def\<close>)

lemma hub_inv_sendToWorker: "hub_inv h \<Longrightarrow> hub_inv (sendToWorker pk m h)"
  by (simp add: sendToWorker_def split: option.splits)

subsection \<open>Starting a job keeps the invariant\<close>

lemma map_modify_comp: "map_modify k g (map_modify k f m) = map_modify k (g \<circ> f) m"
  by (induction m) auto

lemma idle_no_job:
  assumes "hub_inv h" "map_of (h_workers h) k = Some w" "w_status w = Idle"
  shows "w_activeJobId w = None"
proof -
  have "w_status w = Busy \<longleftrightarrow> w_activeJobId w \<noteq> None"
    using assms unfolding hub_inv_def registry_ok_def by blast
  with assms(3) show ?thesis by simp
qed

lemma hub_inv_start:
  assumes inv: "hub_inv h" and w: "map_of (h_workers h) k = Some w" "w_status w = Idle"
    and j: "j \<noteq> []" "\<And>k pk. \<not> runs (h_workers h) k j pk"
    and db: "db_inv db" "jobs_ok db" "\<And>i. i \<noteq> j \<Longrightarrow> select_job i db = select_job i (h_db h)"
      "\<not> is_demo j \<Longrightarrow> \<exists>r. select_job j db = Some r \<and> j_status r = ASSIGNED \<and> j_worker_pubkey r = Some (w_pubkey w)"
  shows "hub_inv (h\<lparr>h_workers := map_modify k (start j) (h_workers h), h_db := db\<rparr>)"
proof -
  have l: "linked (runs (h_workers h)) (h_db h)" using inv by (simp add: hub_inv_def)
  have "linked (runs (map_modify k (start j) (h_workers h))) db"
    by (rule linked_start [OF l j(2) db(4,3) runs_start [OF w(1) idle_no_job [OF inv w]]])
  with inv j db show ?thesis by (simp add: hub_inv_def registry_start)
qed

lemma hub_inv_inject:
  assumes inv: "hub_inv h" and j: "is_demo (ja_job_id msg)" "\<And>k pk. \<not> runs (h_workers h) k (ja_job_id msg) pk"
  shows "hub_inv (snd (injectDemoJob i msg h))"
proof (cases "map_of (h_workers h) i")
  case (Some w)
  have "(\<lambda>w. w\<lparr>w_status := Busy, w_activeJobId := Some (ja_job_id msg)\<rparr>) = start (ja_job_id msg)"
    by (simp add: start_def fun_eq_iff)
  moreover have "hub_inv (h\<lparr>h_workers := map_modify i (start (ja_job_id msg)) (h_workers h), h_db := h_db h\<rparr>)"
    if "w_status w = Idle"
    by (rule hub_inv_start [OF inv Some that])
      (use inv j in \<open>auto simp: hub_inv_def is_demo_def startsWith_def\<close>)
  ultimately show ?thesis
    using inv Some by (auto simp: injectDemoJob_def modify_worker_def hub_inv_def)
qed (use inv in \<open>simp add: injectDemoJob_def\<close>)

lemma runs_not_assigned:
  assumes "hub_inv h" "select_job j (h_db h) = Some r" "j_status r \<noteq> ASSIGNED"
  shows "\<not> runs (h_workers h) k j pk"
  using assms linked_row [of "runs (h_workers h)" "h_db h" k j pk]
  by (auto simp: hub_inv_def jobs_ok_def)

lemma claimed_worker:
  assumes "hub_inv h" "claimWorker now jt pol pc u h = (Some b, h1)"
  obtains w where "map_of (h_workers h) (w_id w) = Some w" "w_status w = Idle" "b = w\<lparr>w_status := Busy\<rparr>"
    "h1 = modify_worker (w_id w) (\<lambda>w. w\<lparr>w_status := Busy\<rparr>) h" "jt \<in> set (w_capabilities w)"
    "pc = PRIVATE \<Longrightarrow> trusted (h_db h) u (w_pubkey w)"
proof -
  have wf: "workers_wf (h_workers h)" using assms(1) by (simp add: hub_inv_def registry_ok_def)
  from assms(2) show ?thesis
  proof (rule claimWorker_Some)
    fix w pre post
    assume w: "map_values (h_workers h) = pre @ w # post" "b = w\<lparr>w_status := Busy\<rparr>"
      "h1 = modify_worker (w_id w) (\<lambda>w. w\<lparr>w_status := Busy\<rparr>) h" "eligible (h_db h) jt pc u w"
    then have "map_of (h_workers h) (w_id w) = Some w" by (simp flip: workers_wf_mem [OF wf])
    with w show thesis by (intro that) (auto simp: eligible_def trusted_def)
  qed
qed

lemma hub_inv_dispatch:
  assumes inv: "hub_inv h" and claim: "claimWorker now jt pol pc u h = (Some b, h1)"
    and r: "select_job j (h_db h) = Some r" "j_status r = PENDING" "j_privacy_class r = pc" "j_user_id r = u"
  shows "hub_inv (dispatch_job b j jt payload pol pc u h1)"
proof -
  obtain w where w: "map_of (h_workers h) (w_id w) = Some w" "w_status w = Idle" "b = w\<lparr>w_status := Busy\<rparr>"
    "h1 = modify_worker (w_id w) (\<lambda>w. w\<lparr>w_status := Busy\<rparr>) h" "pc = PRIVATE \<Longrightarrow> trusted (h_db h) u (w_pubkey w)"
    using claimed_worker [OF inv claim] by metis
  let ?db = "sql_assign_job (w_pubkey w) j (h_db h)"
  have "hub_inv (h\<lparr>h_workers := map_modify (w_id w) (start j) (h_workers h), h_db := ?db\<rparr>)"
  proof (rule hub_inv_start [OF inv w(1,2)])
    show "j \<noteq> []" using inv r by (auto simp: hub_inv_def jobs_ok_def)
    show "\<not> runs (h_workers h) k j pk" for k pk by (rule runs_not_assigned [OF inv r(1)]) (simp add: r)
    show "db_inv ?db" using inv by (simp add: hub_inv_def)
    show "jobs_ok ?db" by (rule jobs_ok_assign) (use inv r w in \<open>auto simp: hub_inv_def\<close>)
  qed (use r in \<open>auto simp: select_sql\<close>)
  moreover have "(\<lambda>w. w\<lparr>w_activeJobId := Some j\<rparr>) \<circ> (\<lambda>w. w\<lparr>w_status := Busy\<rparr>) = start j"
    by (simp add: start_def fun_eq_iff)
  ultimately show ?thesis
    using w by (simp add: dispatch_job_def assignJob_def hub_inv_def map_modify_comp)
qed

lemma hub_inv_fail_pending:
  assumes inv: "hub_inv h" and r: "select_job j (h_db h) = Some r" "j_status r \<noteq> ASSIGNED"
  shows "hub_inv (h\<lparr>h_db := sql_fail_job e j (h_db h)\<rparr>)"
proof -
  have "linked (runs (h_workers h)) (sql_fail_job e j (h_db h))"
  proof (rule linkedI)
    note l = inv [unfolded hub_inv_def, THEN conjunct2, THEN conjunct2, THEN conjunct2]
    show "runs (h_workers h) k1 i p1 \<Longrightarrow> runs (h_workers h) k2 i p2 \<Longrightarrow> k1 = k2" for k1 k2 i p1 p2
      by (rule linked_unique [OF l])
    show "\<exists>r. select_job i (sql_fail_job e j (h_db h)) = Some r \<and> j_status r = ASSIGNED \<and> j_worker_pubkey r = Some p"
      if "runs (h_workers h) k1 i p" "\<not> is_demo i" for k1 i p
      using linked_row [OF l that] runs_not_assigned [OF inv r] that by (auto simp: select_sql)
    show "\<exists>k pk. runs (h_workers h) k i pk"
      if "select_job i (sql_fail_job e j (h_db h)) = Some r'" "j_status r' = ASSIGNED" for i r'
      using that linked_worker [OF l] by (auto simp: select_sql split: if_splits)
  qed
  with inv show ?thesis by (simp add: hub_inv_def)
qed

subsection \<open>The commit route and the retry loop keep the invariant\<close>

lemma hub_inv_insert:
  assumes inv: "hub_inv h" and ins: "insert_job r (h_db h) = Inr db"
    and r: "j_status r = PENDING" "j_worker_pubkey r = None" "\<not> is_demo (j_id r)" "j_id r \<noteq> []"
  shows "hub_inv (h\<lparr>h_db := db\<rparr>)"
  using inv r jobs_ok_insert [OF _ ins] linked_insert [OF _ ins] insert_job_inv [OF ins]
  by (simp add: hub_inv_def)

lemma hub_inv_commit:
  assumes inv: "hub_inv h" and ok: "commit_valid now i tier jt pc u payload h = Inr (resp, h', rl)"
    and i: "\<not> is_demo i" "i \<noteq> []"
  shows "hub_inv h'"
proof -
  let ?r = "new_job_row now i jt tier pc u payload"
  obtain db where ins: "insert_job ?r (h_db h) = Inr db"
    using ok by (auto simp: commit_valid_def split: sum.splits)
  have inv1: "hub_inv (h\<lparr>h_db := db\<rparr>)"
    by (rule hub_inv_insert [OF inv ins]) (simp_all add: new_job_row_def i)
  have row: "select_job i (h_db (h\<lparr>h_db := db\<rparr>)) = Some ?r"
    using select_insert_job [OF ins] by (simp add: new_job_row_def)
  obtain w h1 where claim: "claimWorker now jt tier pc u (h\<lparr>h_db := db\<rparr>) = (w, h1)" by fastforce
  show ?thesis
  proof (cases w)
    case None
    then have "h1 = h\<lparr>h_db := db\<rparr>" using claim by (simp add: claimWorker_None)
    with None ok ins claim inv1 hub_inv_fail_pending [OF inv1 row] show ?thesis
      by (auto simp: commit_valid_def new_job_row_def split: if_splits)
  next
    case (Some b)
    have "hub_inv (dispatch_job b i jt payload tier pc u h1)"
      by (rule hub_inv_dispatch [OF inv1 claim [unfolded Some] row]) (simp_all add: new_job_row_def)
    with Some ok ins claim show ?thesis by (simp add: commit_valid_def)
  qed
qed

definition retry_matches :: "retry_loop \<Rightarrow> job_row \<Rightarrow> bool" where
  "retry_matches rl r \<longleftrightarrow> j_privacy_class r = rl_privacyClass rl \<and> j_user_id r = rl_userId rl"

lemma hub_inv_retry:
  assumes inv: "hub_inv h" and tick: "retry_tick now rl h = (h', r')"
    and m: "\<And>r. select_job (rl_jobId rl) (h_db h) = Some r \<Longrightarrow> retry_matches rl r"
  shows "hub_inv h'"
proof (cases "\<exists>r. select_job (rl_jobId rl) (h_db h) = Some r \<and> j_status r = PENDING")
  case False
  with tick inv show ?thesis by (auto simp: retry_tick_def split: option.splits if_splits)
next
  case True
  then obtain r where r: "select_job (rl_jobId rl) (h_db h) = Some r" "j_status r = PENDING" by blast
  obtain w h1 where claim: "claimWorker now (rl_jobType rl) (rl_policy rl) (rl_privacyClass rl) (rl_userId rl) h = (w, h1)"
    by fastforce
  show ?thesis
  proof (cases w)
    case None
    then have "h1 = h" using claim by (simp add: claimWorker_None)
    with None r tick claim inv hub_inv_fail_pending [OF inv r(1)] show ?thesis
      by (auto simp: retry_tick_def split: if_splits)
  next
    case (Some b)
    have "hub_inv (dispatch_job b (rl_jobId rl) (rl_jobType rl) (rl_payload rl) (rl_policy rl) (rl_privacyClass rl) (rl_userId rl) h1)"
      by (rule hub_inv_dispatch [OF inv claim [unfolded Some] r]) (use m [OF r(1)] in \<open>simp_all add: retry_matches_def\<close>)
    with Some r tick claim show ?thesis by (auto simp: retry_tick_def)
  qed
qed

subsection \<open>Pairings only grow\<close>

lemma hub_inv_pairings:
  assumes "hub_inv h" "db_inv db" "db_jobs db = db_jobs (h_db h)"
    "\<And>u pk. trusted (h_db h) u pk \<Longrightarrow> trusted db u pk"
  shows "hub_inv (h\<lparr>h_db := db\<rparr>)"
  by (rule hub_inv_db [OF assms(1,2) jobs_ok_same_jobs [OF _ assms(3)]])
    (use assms in \<open>auto simp: hub_inv_def select_job_def\<close>)

lemma trusted_claim:
  assumes "db_inv db" "select_pairing c db = Some row" "\<not> t_claimed row" "trusted db u pk"
  shows "trusted (sql_claim_pairing pk' (t_id row) db) u pk"
proof -
  obtain p where p: "p \<in> set (db_pairings db)" "t_user_id p = u" "t_claimed p" "t_provider_pubkey p = Some pk"
    using assms(4) by (auto simp: trusted_def)
  have "row \<in> set (db_pairings db)" using assms(2) by (auto simp: select_pairing_def dest: find_value_mem)
  then have "t_id p \<noteq> t_id row"
    using p assms(1,3) by (auto simp: db_inv_def distinct_map inj_on_def)
  with p show ?thesis by (force simp: trusted_def sql_claim_pairing_def)
qed

end
