(* ===== verification/Routes.thy ===== *)
theory Routes
  imports Jobs
begin

section \<open>The other routes and the coordinator's configuration\<close>

text \<open>
  \<open>apps/coordinator-core/src/routes/\<close> (\<open>quote.ts\<close>, \<open>trust.ts\<close>, \<open>health.ts\<close>, the statistics of
  \<open>dashboard.ts\<close>), \<open>x402.ts\<close> and \<open>config.ts\<close>. Query and body fields are options; the pairing
  code is the argument \<open>code\<close> (six upper-case hexadecimal digits of three random bytes), the
  time stamps in responses are printed by the argument \<open>isodate\<close> (\<open>Date.prototype.toISOString\<close>).
\<close>

subsection \<open>Quotes and payment requirements\<close>

definition commit_endpoint :: "Policy \<Rightarrow> string" where
  "commit_endpoint tier = ''/v1/jobs/commit/'' @ (if tier = FAST then ''fast'' else ''cheap'')"

definition quote_route :: "string \<Rightarrow> string option \<Rightarrow> string option \<Rightarrow> response + Quote" where
  "quote_route network jobTypeRaw policyRaw =
     (case jobTypeRaw of
        None \<Rightarrow> Inl (error_response 400 ''Invalid job_type. Use LLM_INFER or TASK'')
      | Some s \<Rightarrow>
          (case jobtype_of_string s of
             None \<Rightarrow> Inl (error_response 400 ''Invalid job_type. Use LLM_INFER or TASK'')
           | Some jobType \<Rightarrow>
               (let policy = (case policyRaw of Some p \<Rightarrow> policy_of_string p | None \<Rightarrow> AUTO);
                    resolved = resolvePolicy policy jobType in
                Inr \<lparr>q_price = getPrice resolved jobType, q_endpoint = commit_endpoint resolved,
                     q_policy_resolved = resolved, q_network = network, q_expires_at = None\<rparr>)))"

record CoordinatorConfig =
  cfg_port :: int
  cfg_dbPath :: string
  cfg_network :: string
  cfg_payTo :: string
  cfg_facilitatorUrl :: string
  cfg_asset :: "string option"
  cfg_boltEnabled :: bool
  cfg_boltMint :: "string option"

text \<open>\<open>overrides?.x ?? process.env.X ?? default\<close>; \<open>parseInt\<close> is an argument.\<close>

record config_overrides =
  o_port :: "int option"
  o_dbPath :: "string option"
  o_network :: "string option"
  o_payTo :: "string option"
  o_facilitatorUrl :: "string option"
  o_asset :: "string option"
  o_boltEnabled :: "bool option"
  o_boltMint :: "string option"

definition nullish :: "'a option \<Rightarrow> 'a \<Rightarrow> 'a" where
  "nullish x d = (case x of Some v \<Rightarrow> v | None \<Rightarrow> d)"

definition configFromEnv ::
  "(string \<Rightarrow> int) \<Rightarrow> (string \<Rightarrow> string option) \<Rightarrow> config_overrides \<Rightarrow> CoordinatorConfig" where
  "configFromEnv parseInt env ov =
     \<lparr>cfg_port = nullish (o_port ov) (parseInt (nullish (env ''PORT'') ''4010'')),
      cfg_dbPath = nullish (o_dbPath ov) (nullish (env ''DB_PATH'') ''./data/coordinator.db''),
      cfg_network = nullish (o_network ov) (nullish (env ''NETWORK'') ''eip155:10143''),
      cfg_payTo = nullish (o_payTo ov) (nullish (env ''PAY_TO'') ''''),
      cfg_facilitatorUrl = nullish (o_facilitatorUrl ov) (nullish (env ''FACILITATOR_URL'') ''''),
      cfg_asset = (case o_asset ov of Some a \<Rightarrow> Some a | None \<Rightarrow> env ''ASSET''),
      cfg_boltEnabled = nullish (o_boltEnabled ov) (env ''BOLT_ENABLED'' = Some ''true''),
      cfg_boltMint = (case o_boltMint ov of Some a \<Rightarrow> Some a | None \<Rightarrow> env ''BOLT_MINT'')\<rparr>"

record PaymentAccept =
  pa_scheme :: string
  pa_price :: string
  pa_network :: string
  pa_payTo :: string
  pa_asset :: "string option"

definition makeAccept :: "CoordinatorConfig \<Rightarrow> string \<Rightarrow> PaymentAccept" where
  "makeAccept config price =
     \<lparr>pa_scheme = ''exact'', pa_price = price, pa_network = cfg_network config, pa_payTo = cfg_payTo config,
      pa_asset = (if str_truthy (cfg_asset config) then cfg_asset config else None)\<rparr>"

text \<open>Route, what it accepts, description.\<close>

definition buildPaymentConfig :: "CoordinatorConfig \<Rightarrow> (string \<times> PaymentAccept list \<times> string) list" where
  "buildPaymentConfig config =
     [(''POST /v1/jobs/commit/fast'', [makeAccept config (getPrice FAST LLM_INFER)], ''Fast compute job''),
      (''POST /v1/jobs/commit/cheap'', [makeAccept config (getPrice CHEAP TASK)], ''Cheap compute job'')]"

subsection \<open>Trust pairing\<close>

definition PAIRING_TTL_MS :: int where "PAIRING_TTL_MS = 60 * 60 * 1000"

definition trust_create ::
  "(int \<Rightarrow> string) \<Rightarrow> int \<Rightarrow> string \<Rightarrow> string \<Rightarrow> string option \<Rightarrow> database \<Rightarrow> db_error + response \<times> database" where
  "trust_create isodate now uuid code user_id db =
     (if \<not> str_truthy user_id then Inr (error_response 400 ''Missing user_id'', db)
      else
        (let expiresAt = now + PAIRING_TTL_MS in
         case insert_pairing
                \<lparr>t_id = uuid, t_user_id = the user_id, t_provider_pubkey = None, t_pairing_code = code,
                 t_claimed = False, t_expires_at = expiresAt, t_created_at = sql_now now\<rparr> db of
           Inl e \<Rightarrow> Inl e
         | Inr db1 \<Rightarrow> Inr (Response 201 (JObj [(''pairing_code'', JStr code), (''expires_at'', JStr (isodate expiresAt))]), db1)))"

definition trust_claim ::
  "(int \<Rightarrow> string) \<Rightarrow> int \<Rightarrow> string option \<Rightarrow> string option \<Rightarrow> database \<Rightarrow> response \<times> database" where
  "trust_claim isodate now pairing_code provider_pubkey db =
     (if \<not> str_truthy pairing_code \<or> \<not> str_truthy provider_pubkey then
        (error_response 400 ''Missing pairing_code or provider_pubkey'', db)
      else
        (case select_pairing (the pairing_code) db of
           None \<Rightarrow> (error_response 400 ''invalid_code'', db)
         | Some row \<Rightarrow>
             if t_claimed row then (error_response 400 ''already_claimed'', db)
             else if t_expires_at row < now then (error_response 400 ''expired'', db)
             else (Response 200 (JObj [(''user_id'', JStr (t_user_id row)), (''paired_at'', JStr (isodate now))]),
                   sql_claim_pairing (the provider_pubkey) (t_id row) db)))"

definition trust_list :: "(int \<Rightarrow> string) \<Rightarrow> string option \<Rightarrow> database \<Rightarrow> response" where
  "trust_list datetime user_id db =
     (if \<not> str_truthy user_id then error_response 400 ''Missing user_id query param''
      else Response 200 (JObj [(''providers'', JArr
        (map (\<lambda>r. JObj [(''provider_pubkey'', case t_provider_pubkey r of Some p \<Rightarrow> JStr p | None \<Rightarrow> JNull),
                         (''paired_at'', JStr (datetime (t_created_at r)))])
          (select_trusted (the user_id) db)))]))"

subsection \<open>Health and dashboard statistics\<close>

definition health_route :: "(int \<Rightarrow> string) \<Rightarrow> int \<Rightarrow> string \<Rightarrow> hub \<Rightarrow> response" where
  "health_route isodate now network h = Response 200 (JObj
     [(''status'', JStr ''ok''), (''workers_online'', JNum (of_nat (onlineCount h))),
      (''network'', JStr network), (''timestamp'', JStr (isodate now))])"

record dashboard_stats =
  ds_totalWorkers :: nat
  ds_workersOnline :: nat
  ds_totalJobsCompleted :: nat
  ds_totalReceipts :: nat
  ds_verifiedReceipts :: nat
  ds_verificationRate :: int
  ds_recentJobs :: "job_row list"

text \<open>\<open>ORDER BY created_at DESC LIMIT 10\<close>; among equal time stamps SQLite's order is the
  insertion order here.\<close>

definition dashboard_route :: "hub \<Rightarrow> dashboard_stats" where
  "dashboard_route h =
     (let db = h_db h;
          total = length (db_receipts db);
          verified = length (filter rr_verified (db_receipts db)) in
      \<lparr>ds_totalWorkers = length (remdups (List.map_filter j_worker_pubkey (db_jobs db))),
       ds_workersOnline = onlineCount h,
       ds_totalJobsCompleted = length (filter (\<lambda>r. j_status r = COMPLETED) (db_jobs db)),
       ds_totalReceipts = total,
       ds_verifiedReceipts = verified,
       ds_verificationRate = (if total > 0 then js_round (of_nat verified / of_nat total * 100) else 0),
       ds_recentJobs = take 10 (sort_key (\<lambda>r. - j_created_at r) (db_jobs db))\<rparr>)"

subsection \<open>Properties\<close>

lemma select_pairing_Some: "select_pairing c db = Some r \<Longrightarrow> r \<in> set (db_pairings db) \<and> t_pairing_code r = c"
  by (auto simp: select_pairing_def dest: find_value_mem)

lemma select_pairing_claim:
  assumes "db_inv db" "select_pairing c db = Some r"
  shows "select_pairing c (sql_claim_pairing pk (t_id r) db) = Some (r\<lparr>t_claimed := True, t_provider_pubkey := Some pk\<rparr>)"
proof -
  let ?r = "r\<lparr>t_claimed := True, t_provider_pubkey := Some pk\<rparr>" and ?db = "sql_claim_pairing pk (t_id r) db"
  have r: "r \<in> set (db_pairings db)" "t_pairing_code r = c" using select_pairing_Some [OF assms(2)] by auto
  have "?r \<in> set (db_pairings ?db)" using r by (auto simp: sql_claim_pairing_def image_iff)
  moreover have "db_inv ?db" using assms by (simp add: sql_claim_pairing_inv)
  ultimately show ?thesis
    using r find_distinct_id [of t_pairing_code "db_pairings ?db" ?r] by (simp add: select_pairing_def db_inv_def)
qed

text \<open>C12. A pairing code works once. After a claim succeeds, the provider is trusted by the
  user who made the code, and every later claim of the same code is refused as already claimed and
  changes nothing.\<close>

theorem trust_claim_once:
  assumes "db_inv db" and "trust_claim isodate now (Some code) (Some pk) db = (Response 200 body, db')"
  shows "(\<exists>row. select_pairing code db = Some row \<and> \<not> t_claimed row \<and> now \<le> t_expires_at row \<and>
      Some pk \<in> set (map t_provider_pubkey (select_trusted (t_user_id row) db'))) \<and>
    (q \<noteq> [] \<longrightarrow> trust_claim isodate now' (Some code) (Some q) db' = (error_response 400 ''already_claimed'', db'))"
proof -
  obtain row where row: "select_pairing code db = Some row" "\<not> t_claimed row" "now \<le> t_expires_at row"
    and db': "db' = sql_claim_pairing pk (t_id row) db" and code: "code \<noteq> []"
    using assms(2)
    by (auto simp: trust_claim_def error_response_def str_truthy_def split: if_splits option.splits)
  have r: "row \<in> set (db_pairings db)" using select_pairing_Some [OF row(1)] by simp
  then have "row\<lparr>t_claimed := True, t_provider_pubkey := Some pk\<rparr> \<in> set (select_trusted (t_user_id row) db')"
    by (auto simp: db' sql_claim_pairing_def select_trusted_def image_iff)
  then have "Some pk \<in> set (map t_provider_pubkey (select_trusted (t_user_id row) db'))"
    by (force simp: image_iff)
  moreover have "select_pairing code db' = Some (row\<lparr>t_claimed := True, t_provider_pubkey := Some pk\<rparr>)"
    unfolding db' by (rule select_pairing_claim [OF assms(1) row(1)])
  ultimately show ?thesis using row code by (auto simp: trust_claim_def str_truthy_def)
qed

theorem trust_claim_once_witness:
  "let db = \<lparr>db_jobs = [], db_pairings =
         [\<lparr>t_id = ''p'', t_user_id = ''alice'', t_provider_pubkey = None, t_pairing_code = ''A1B2C3'',
           t_claimed = False, t_expires_at = 10, t_created_at = 0\<rparr>], db_receipts = []\<rparr>;
       db' = snd (trust_claim (\<lambda>_. []) 5 (Some ''A1B2C3'') (Some ''k'') db) in
     trust_claim (\<lambda>_. []) 6 (Some ''A1B2C3'') (Some ''m'') db' = (error_response 400 ''already_claimed'', db')"
proof -
  let ?db = "\<lparr>db_jobs = [], db_pairings =
         [\<lparr>t_id = ''p'', t_user_id = ''alice'', t_provider_pubkey = None, t_pairing_code = ''A1B2C3'',
           t_claimed = False, t_expires_at = 10, t_created_at = 0\<rparr>], db_receipts = []\<rparr>"
  have "db_inv ?db" by (simp add: db_inv_def)
  moreover have "trust_claim (\<lambda>_. []) 5 (Some ''A1B2C3'') (Some ''k'') ?db =
      (Response 200 (JObj [(''user_id'', JStr ''alice''), (''paired_at'', JStr [])]),
       snd (trust_claim (\<lambda>_. []) 5 (Some ''A1B2C3'') (Some ''k'') ?db))"
    by (simp add: trust_claim_def str_truthy_def select_pairing_def)
  ultimately show ?thesis
    using trust_claim_once [where isodate = "\<lambda>_. []" and now = 5 and now' = 6 and q = "''m''" and pk = "''k''"] by simp
qed

text \<open>C17. The quoted price and the price charged. For the two job types and the three declared
  policies the quote is the pricing table's entry and names the endpoint of the resolved tier; but
  the payment middleware charges each endpoint one price whatever the job type, so the amount
  charged at the quoted endpoint is the quoted one exactly for FAST inference and CHEAP tasks.\<close>

theorem quote_vs_charge:
  assumes "policyRaw \<in> {None, Some ''AUTO'', Some ''FAST'', Some ''CHEAP''}"
  shows "\<exists>q. quote_route network (Some (jobtype_string t)) policyRaw = Inr q \<and>
    q_policy_resolved q \<in> {FAST, CHEAP} \<and> q_price q = getPrice (q_policy_resolved q) t \<and>
    (\<exists>a d. map_of (buildPaymentConfig config) (''POST '' @ q_endpoint q) = Some ([a], d) \<and>
       pa_price a = getPrice (q_policy_resolved q) (if q_policy_resolved q = FAST then LLM_INFER else TASK) \<and>
       (pa_price a = q_price q \<longleftrightarrow> (q_policy_resolved q, t) \<in> {(FAST, LLM_INFER), (CHEAP, TASK)}))"
  using assms
  by (cases t)
    (auto simp: quote_route_def jobtype_of_string_def policy_of_string_def resolvePolicy_def
      buildPaymentConfig_def makeAccept_def commit_endpoint_def getPrice_table)

theorem quote_vs_charge_witness:
  "\<exists>q. quote_route ''net'' (Some ''LLM_INFER'') (Some ''CHEAP'') = Inr q \<and>
     (\<exists>a d. map_of (buildPaymentConfig (configFromEnv (\<lambda>_. 4010) (\<lambda>_. None)
          \<lparr>o_port = None, o_dbPath = None, o_network = None, o_payTo = None, o_facilitatorUrl = None,
           o_asset = None, o_boltEnabled = None, o_boltMint = None\<rparr>)) (''POST '' @ q_endpoint q) = Some ([a], d) \<and>
        pa_price a \<noteq> q_price q)"
proof -
  have "quote_route ''net'' (Some (jobtype_string LLM_INFER)) (Some ''CHEAP'') = Inr q \<Longrightarrow>
      q_policy_resolved q = CHEAP" for q
    by (auto simp: quote_route_def jobtype_of_string_def policy_of_string_def resolvePolicy_def)
  then show ?thesis
    using quote_vs_charge [where policyRaw = "Some ''CHEAP''" and network = "''net''" and t = LLM_INFER]
    by fastforce
qed

end
