(* ===== verification/Coordinator.thy ===== *)
theory Coordinator
  imports HubInv Routes
begin

section \<open>The coordinator server\<close>

text \<open>
  \<open>apps/coordinator-core/src/server.ts\<close> with the callbacks that
  \<open>apps/coordinator-solana/src/index.ts\<close> and \<open>apps/coordinator-monad/src/index.ts\<close> give their
  distributors. The state is the hub, the retry loops that are running and the demo mode;
  \<open>co_step\<close> has a rule per entry point (socket events, HTTP routes, timers, promises and
  distributor steps), so its runs are all interleavings of the event loop. A handler that throws
  takes no step here: an exception that escapes a socket handler or a timer ends the process.

  \<open>c_used\<close> lists the values \<open>uuid()\<close> has returned; a step that calls \<open>uuid()\<close> gets a value not
  returned before, not empty and not starting with \<open>demo-\<close>, which is what a version 4 UUID is.
\<close>

record coordinator =
  c_hub :: hub
  c_retry :: "retry_loop list"
  c_demoActive :: bool
  c_demoTimer :: bool
  c_used :: "string list"

definition createServer ::
  "database \<Rightarrow> bool option \<Rightarrow> bool \<Rightarrow> bolt_dist option \<Rightarrow> wbolt_dist option \<Rightarrow> coordinator" where
  "createServer db erc8004 stakeConfig bolt wbolt =
     \<lparr>c_hub = hub_new db erc8004 stakeConfig bolt wbolt, c_retry = [], c_demoActive = False,
      c_demoTimer = False, c_used = []\<rparr>"

definition uuid_ok :: "string \<Rightarrow> coordinator \<Rightarrow> bool" where
  "uuid_ok x c \<longleftrightarrow> x \<notin> set (c_used c) \<and> x \<noteq> [] \<and> \<not> is_demo x"

subsection \<open>Demo mode\<close>

definition DEMO_PROMPTS :: "string \<Rightarrow> string list" where
  "DEMO_PROMPTS taskType =
     (if taskType = ''summarize'' then
        [''Summarize the latest Solana validator update'',
         ''Summarize this week's DeFi yield farming trends'',
         ''Summarize the recent Monad testnet performance report'',
         ''Summarize key changes in the latest Ethereum EIP proposals'']
      else if taskType = ''classify'' then
        [''Classify this transaction: 500 USDC transfer to a new wallet'',
         ''Classify this network event: validator node went offline for 30 seconds'',
         ''Classify this user behavior: 12 swaps in 5 minutes across 3 DEXs'',
         ''Classify this alert: gas prices spiked 400% in the last block'']
      else
        [''Extract structured data from: The token launched at $0.05, reached $1.20 ATH, current market cap $45M'',
         ''Extract JSON from: Block 18234567 produced by validator Hx7k...9f2a, 1,247 transactions, 0.3s finality'',
         ''Extract structured data from: Liquidity pool TVL $12.5M, 24h volume $3.2M, APY 34.5%'',
         ''Extract JSON from: NFT collection: 10,000 items, floor 2.3 SOL, 45% listed, 12 SOL top sale today''])"

definition DEMO_TASK_TYPES :: "string list" where
  "DEMO_TASK_TYPES = [''summarize'', ''classify'', ''extract_json'']"

text \<open>\<open>arr[Math.floor(Math.random() * arr.length)]\<close>, the random number an argument.\<close>

definition pickRandom :: "rat \<Rightarrow> 'a list \<Rightarrow> 'a" where
  "pickRandom r arr = arr ! nat \<lfloor>r * of_nat (length arr)\<rfloor>"

definition demo_msg :: "string \<Rightarrow> string \<Rightarrow> string \<Rightarrow> JobAssignMsg" where
  "demo_msg uuid taskType prompt =
     \<lparr>ja_job_id = ''demo-'' @ uuid, ja_job_type = TASK,
      ja_payload = JObj [(''task_type'', JStr taskType), (''input'', JStr prompt)],
      ja_policy = CHEAP, ja_privacy_class = PUBLIC, ja_user_id = ''demo-coordinator''\<rparr>"

definition demoTick :: "rat \<Rightarrow> rat \<Rightarrow> rat \<Rightarrow> string \<Rightarrow> coordinator \<Rightarrow> coordinator" where
  "demoTick r1 r2 r3 uuid c =
     (if \<not> c_demoActive c then c
      else
        (let idleWorkers = getIdleWorkers (c_hub c);
             c1 = (if idleWorkers \<noteq> [] then
                     (let worker = pickRandom r1 idleWorkers;
                          taskType = pickRandom r2 DEMO_TASK_TYPES;
                          prompt = pickRandom r3 (DEMO_PROMPTS taskType) in
                      c\<lparr>c_hub := snd (injectDemoJob (w_id worker) (demo_msg uuid taskType prompt) (c_hub c))\<rparr>)
                   else c) in
         c1\<lparr>c_demoTimer := True\<rparr>))"

definition startDemoMode :: "coordinator \<Rightarrow> coordinator" where
  "startDemoMode c = (if c_demoActive c then c else c\<lparr>c_demoActive := True, c_demoTimer := True\<rparr>)"

definition stopDemoMode :: "coordinator \<Rightarrow> coordinator" where
  "stopDemoMode c = c\<lparr>c_demoActive := False, c_demoTimer := False\<rparr>"

definition demo_status :: "coordinator \<Rightarrow> response" where
  "demo_status c = Response 200 (JObj [(''active'', JBool (c_demoActive c))])"

definition co_shutdown :: "coordinator \<Rightarrow> coordinator" where
  "co_shutdown c = (stopDemoMode c)\<lparr>c_hub := hub_shutdown (c_hub c)\<rparr>"

subsection \<open>Payment notifications\<close>

definition solana_onSettled :: "SettlementResult \<Rightarrow> hub \<Rightarrow> hub" where
  "solana_onSettled r = sendToWorker (sr_worker r)
     (PaymentPosted (sr_jobIds r) (sr_txHash r) (sr_amount r) None ''solana-devnet''
        (''https://explorer.solana.com/tx/'' @ sr_txHash r @ ''?cluster=devnet''))"

definition solana_onFailed :: "failed_call \<Rightarrow> hub \<Rightarrow> hub" where
  "solana_onFailed f = sendToWorker (fst f) (PaymentFailed (po_jobIds (fst (snd f))) (snd (snd f)) None)"

definition monad_onSettled :: "SettlementResult \<Rightarrow> hub \<Rightarrow> hub" where
  "monad_onSettled r = sendToWorker (sr_worker r)
     (PaymentPosted (sr_jobIds r) (sr_txHash r) (sr_amount r) (Some ''wBOLT'') ''monad-testnet'' (monadvision_url (sr_txHash r)))"

definition monad_onFailed :: "failed_call \<Rightarrow> hub \<Rightarrow> hub" where
  "monad_onFailed f = sendToWorker (fst f) (PaymentFailed (po_jobIds (fst (snd f))) (snd (snd f)) (Some ''wBOLT''))"

text \<open>A step of a distributor, followed by the callbacks for what it newly settled or gave up.\<close>

definition notify_bolt :: "bolt_dist \<Rightarrow> bolt_dist \<Rightarrow> hub \<Rightarrow> hub" where
  "notify_bolt d d' h =
     fold solana_onFailed (drop (length (bd_failed d)) (bd_failed d'))
       (fold solana_onSettled (drop (length (bd_settled d)) (bd_settled d')) (h\<lparr>h_bolt := Some d'\<rparr>))"

definition notify_wbolt :: "wbolt_dist \<Rightarrow> wbolt_dist \<Rightarrow> hub \<Rightarrow> hub" where
  "notify_wbolt d d' h =
     fold monad_onFailed (drop (length (wb_failed d)) (wb_failed d'))
       (fold monad_onSettled (drop (length (wb_settled d)) (wb_settled d')) (h\<lparr>h_wbolt := Some d'\<rparr>))"

subsection \<open>The steps\<close>

text \<open>The interval of a retry loop fires: the loop is kept with its new counter, or cleared.\<close>

definition retry_update :: "retry_loop \<Rightarrow> retry_loop option \<Rightarrow> retry_loop list \<Rightarrow> retry_loop list" where
  "retry_update rl r rls = (case r of None \<Rightarrow> removeAll rl rls | Some rl' \<Rightarrow> map (\<lambda>x. if x = rl then rl' else x) rls)"

inductive co_step :: "hub_env \<Rightarrow> bool \<Rightarrow> coordinator \<Rightarrow> coordinator \<Rightarrow> bool" for X lands where
  step_connect: "ws \<notin> fst ` set (h_conns (c_hub c)) \<Longrightarrow>
    co_step X lands c (c\<lparr>c_hub := handleConnection ws (c_hub c)\<rparr>)"
| step_message: "ws \<in> fst ` set (h_conns (c_hub c)) \<Longrightarrow> uuid_ok u c \<Longrightarrow>
    hub_onMessage X now u ws m (c_hub c) = Inr h' \<Longrightarrow>
    co_step X lands c (c\<lparr>c_hub := h', c_used := u # c_used c\<rparr>)"
| step_close: "ws \<in> fst ` set (h_conns (c_hub c)) \<Longrightarrow>
    co_step X lands c (c\<lparr>c_hub := hub_onClose ws (c_hub c)\<rparr>)"
| step_prune: "h_heartbeatCheck (c_hub c) \<Longrightarrow> co_step X lands c (c\<lparr>c_hub := pruneStale now (c_hub c)\<rparr>)"
| step_reputation: "i \<in> set (h_repCalls (c_hub c)) \<Longrightarrow>
    co_step X lands c (c\<lparr>c_hub := reputation_resolved i score (c_hub c)\<rparr>)"
| step_stake: "i \<in> set (h_stakeCalls (c_hub c)) \<Longrightarrow>
    co_step X lands c (c\<lparr>c_hub := stake_resolved i tier (c_hub c)\<rparr>)"
| step_feedback_ok: "f \<in> set (h_feedback (c_hub c)) \<Longrightarrow>
    co_step X lands c (c\<lparr>c_hub := feedback_resolved f tx (c_hub c)\<rparr>)"
| step_feedback_fail: "f \<in> set (h_feedback (c_hub c)) \<Longrightarrow>
    co_step X lands c (c\<lparr>c_hub := feedback_rejected f err (c_hub c)\<rparr>)"
| step_commit: "tier \<in> {FAST, CHEAP} \<Longrightarrow> uuid_ok u c \<Longrightarrow>
    handleCommit now u tier body (c_hub c) = Inr (resp, h', rl) \<Longrightarrow>
    co_step X lands c (c\<lparr>c_hub := h', c_used := u # c_used c,
      c_retry := c_retry c @ (case rl of Some l \<Rightarrow> [l] | None \<Rightarrow> [])\<rparr>)"
| step_retry: "rl \<in> set (c_retry c) \<Longrightarrow> retry_tick now rl (c_hub c) = (h', r) \<Longrightarrow>
    co_step X lands c (c\<lparr>c_hub := h', c_retry := retry_update rl r (c_retry c)\<rparr>)"
| step_trust_create: "uuid_ok u c \<Longrightarrow>
    trust_create isodate now u code user (h_db (c_hub c)) = Inr (resp, db) \<Longrightarrow>
    co_step X lands c (c\<lparr>c_hub := (c_hub c)\<lparr>h_db := db\<rparr>, c_used := u # c_used c\<rparr>)"
| step_trust_claim: "trust_claim isodate now code pk (h_db (c_hub c)) = (resp, db) \<Longrightarrow>
    co_step X lands c (c\<lparr>c_hub := (c_hub c)\<lparr>h_db := db\<rparr>\<rparr>)"
| step_demo_start: "co_step X lands c (startDemoMode c)"
| step_demo_stop: "co_step X lands c (stopDemoMode c)"
| step_demo_tick: "c_demoTimer c \<Longrightarrow> uuid_ok u c \<Longrightarrow> 0 \<le> r1 \<Longrightarrow> r1 < 1 \<Longrightarrow> 0 \<le> r2 \<Longrightarrow> r2 < 1 \<Longrightarrow>
    0 \<le> r3 \<Longrightarrow> r3 < 1 \<Longrightarrow>
    co_step X lands c ((demoTick r1 r2 r3 u c)\<lparr>c_used := u # c_used c\<rparr>)"
| step_bolt: "h_bolt (c_hub c) = Some d \<Longrightarrow> bolt_internal (x_pkError X) lands d d' \<Longrightarrow>
    co_step X lands c (c\<lparr>c_hub := notify_bolt d d' (c_hub c)\<rparr>)"
| step_wbolt: "h_wbolt (c_hub c) = Some d \<Longrightarrow> wbolt_internal lands d d' \<Longrightarrow>
    co_step X lands c (c\<lparr>c_hub := notify_wbolt d d' (c_hub c)\<rparr>)"

text \<open>A coordinator that starts on a new database, with any of the optional parts.\<close>

definition co_init :: "coordinator \<Rightarrow> bool" where
  "co_init c \<longleftrightarrow> (\<exists>erc stake bolt wbolt.
     c = createServer (createDb None) erc stake bolt wbolt \<and>
     (bolt = None \<or> (\<exists>dec mode. bolt = Some (bolt_new dec mode))) \<and> (wbolt = None \<or> wbolt = Some wbolt_new))"

abbreviation co_reachable :: "hub_env \<Rightarrow> bool \<Rightarrow> coordinator \<Rightarrow> bool" where
  "co_reachable X lands \<equiv> reachable co_init (co_step X lands)"

end
