(* ===== verification/CoordInv.thy ===== *)
theory CoordInv
  imports Coordinator
begin

section \<open>Invariants of the coordinator\<close>

text \<open>
  The system invariant \<open>co_inv\<close>: the hub's invariant, every id in use was issued by \<open>uuid()\<close>, a
  retry loop belongs to a pending row and has attempts left, and each distributor holds a job at
  most once, a real one only when its row is completed. It holds in every reachable state of
  \<open>co_step\<close>, and with it the lifecycle of a job, isolation of PRIVATE jobs, and payment at most once.

  The handlers of the hub touch assigned rows only; \<open>hub_frame\<close> says so once for all of them.
\<close>

subsection \<open>What a hub handler may change\<close>

definition same_request :: "job_row \<Rightarrow> job_row \<Rightarrow> bool" where
  "same_request r r' \<longleftrightarrow> j_type r' = j_type r \<and> j_policy r' = j_policy r \<and> j_privacy_class r' = j_privacy_class r \<and>
     j_user_id r' = j_user_id r \<and> j_payload r' = j_payload r"

definition row_step :: "job_row option \<Rightarrow> job_row option \<Rightarrow> bool" where
  "row_step a b \<longleftrightarrow> (case a of
       None \<Rightarrow> b = None
     | Some r \<Rightarrow> (\<exists>r'. b = Some r' \<and> same_request r r' \<and>
         (r' = r \<or> j_status r = ASSIGNED \<and> j_status r' \<in> {PENDING, COMPLETED, FAILED})))"

definition running :: "hub \<Rightarrow> string \<Rightarrow> bool" where
  "running h j \<longleftrightarrow> (\<exists>k pk. runs (h_workers h) k j pk)"

definition hub_frame :: "hub \<Rightarrow> hub \<Rightarrow> bool" where
  "hub_frame h h' \<longleftrightarrow> (\<forall>j. row_step (select_job j (h_db h)) (select_job j (h_db h'))) \<and>
     (\<forall>j. running h' j \<longrightarrow> running h j)"

lemma running_db [simp]: "running (h\<lparr>h_db := db\<rparr>) = running h"
  by (simp add: running_def fun_eq_iff)

lemma same_request_refl [simp]: "same_request r r" by (simp add: same_request_def)

lemma row_step_refl [simp]: "row_step a a"
  by (simp add: row_step_def split: option.splits)

lemma row_step_trans: "row_step a b \<Longrightarrow> row_step b c \<Longrightarrow> row_step a c"
  by (auto simp: row_step_def same_request_def split: option.splits)

lemma hub_frame_refl [simp]: "hub_frame h h" by (simp add: hub_frame_def)

lemma hub_frame_trans: "hub_frame a b \<Longrightarrow> hub_frame b c \<Longrightarrow> hub_frame a c"
  unfolding hub_frame_def using row_step_trans by blast

lemma hub_frame_same:
  "(\<And>j. select_job j (h_db h') = select_job j (h_db h)) \<Longrightarrow> runs (h_workers h') = runs (h_workers h) \<Longrightarrow> hub_frame h h'"
  by (simp add: hub_frame_def running_def)

text \<open>A worker gives its job up: the common case of completion, rejection and disconnection.\<close>

lemma hub_frame_release:
  assumes inv: "hub_inv h" and w: "map_of (h_workers h) k = Some w" "w_activeJobId w = Some j"
    and f: "same_id f" "\<And>r. same_request r (f r) \<and> j_status (f r) \<in> {PENDING, COMPLETED, FAILED}"
    and db: "\<And>i. select_job i (h_db h') = select_job i (if is_demo j then h_db h else update_job j f (h_db h))"
    and R: "\<And>k' j' pk'. runs (h_workers h') k' j' pk' \<Longrightarrow> runs (h_workers h) k' j' pk'"
  shows "hub_frame h h'"
proof -
  have l: "linked (runs (h_workers h)) (h_db h)" using inv by (simp add: hub_inv_def)
  have run: "runs (h_workers h) k j (w_pubkey w)" using w by (simp add: runs_def)
  have "row_step (select_job i (h_db h)) (select_job i (h_db h'))" for i
  proof (cases "is_demo j \<or> i \<noteq> j")
    case True
    then show ?thesis using db [of i] f by (auto simp: select_update_job)
  next
    case False
    then obtain r where "select_job j (h_db h) = Some r" "j_status r = ASSIGNED"
      using linked_row [OF l run] by blast
    with False db [of i] f show ?thesis by (auto simp: select_update_job row_step_def)
  qed
  then show ?thesis unfolding hub_frame_def running_def using R by blast
qed

lemma hub_frame_disconnect:
  assumes "hub_inv h"
  shows "hub_frame h (handleDisconnect i h)"
proof (cases "map_of (h_workers h) i")
  case None
  then show ?thesis by (simp add: handleDisconnect_def)
next
  case (Some w)
  show ?thesis
  proof (cases "w_activeJobId w")
    case None
    with Some show ?thesis
      by (auto simp: hub_frame_def handleDisconnect_db running_def handleDisconnect_workers runs_delete)
  next
    case (Some j)
    note w = \<open>map_of (h_workers h) i = Some w\<close>
    have "j \<noteq> []" using assms w Some by (auto simp: hub_inv_def registry_ok_def)
    then show ?thesis
      using w Some
      by (intro hub_frame_release [OF assms w Some,
            where f = "\<lambda>r. r\<lparr>j_status := FAILED, j_result := Some (JObj [(''error'', JStr ''worker_disconnected'')])\<rparr>"])
        (simp_all add: handleDisconnect_db handleDisconnect_workers runs_delete sql_fail_job_def same_request_def)
  qed
qed

lemma hub_frame_prune:
  assumes "hub_inv h"
  shows "hub_frame h (pruneStale now h)"
proof -
  have one: "hub_inv h \<Longrightarrow> hub_frame h (prune_one now i h) \<and> hub_inv (prune_one now i h)" for h i
  proof -
    assume inv: "hub_inv h"
    have "hub_frame h (ws_close ws h)" for ws by (simp add: hub_frame_same)
    then show ?thesis
      using inv hub_frame_disconnect [of "ws_close ws h" i for ws] hub_frame_trans hub_inv_disconnect [of "ws_close ws h" i for ws]
      by (auto simp: prune_one_def split: option.splits) blast
  qed
  have "hub_inv h \<Longrightarrow> hub_frame h (fold (prune_one now) ks h)" for ks
  proof (induction ks arbitrary: h)
    case (Cons i ks)
    then show ?case using one [of h i] hub_frame_trans by (metis fold_simps(2))
  qed simp
  with assms show ?thesis by (simp add: pruneStale_def)
qed

lemma hub_frame_close:
  assumes "hub_inv h"
  shows "hub_frame h (hub_onClose ws h)"
proof -
  let ?h = "(ws_close ws h)\<lparr>h_conns := AList.delete ws (h_conns h)\<rparr>"
  have "hub_inv ?h" using assms by (simp add: hub_inv_def)
  moreover have "hub_frame h ?h" by (simp add: hub_frame_same)
  ultimately show ?thesis
    using hub_frame_trans hub_frame_disconnect
    by (auto simp: hub_onClose_def split: option.splits)
qed

lemma hub_frame_modify: "neutral f \<Longrightarrow> hub_frame h (modify_worker i f h)"
  by (simp add: hub_frame_same runs_neutral)

lemma hub_frame_promises:
  "hub_frame h (reputation_resolved i score h)" "hub_frame h (stake_resolved i tier h)"
  "hub_frame h (feedback_resolved f tx h)" "hub_frame h (feedback_rejected f err h)"
  by (auto simp: reputation_resolved_def stake_resolved_def feedback_resolved_def feedback_rejected_def
      runs_neutral intro!: hub_frame_same split: option.splits prod.splits)

lemma hub_frame_heartbeat: "hub_frame h (handleHeartbeat now msg h)"
  by (auto simp: handleHeartbeat_def runs_neutral intro!: hub_frame_same split: option.splits)

lemma hub_frame_register:
  "map_of (h_workers h) u = None \<Longrightarrow> hub_frame h ((handleRegister now u ws msg h)\<lparr>h_conns := c\<rparr>)"
  by (auto simp: handleRegister_def runs_register intro!: hub_frame_same)

lemma active_lookup:
  assumes "hub_inv h" "findByActiveJob j h = Some w"
  shows "map_of (h_workers h) (w_id w) = Some w" "w_activeJobId w = Some j"
  using findByActiveJob_Some [of h j w] assms by (simp_all add: hub_inv_def registry_ok_def)

lemma hub_frame_reject:
  assumes "hub_inv h"
  shows "hub_frame h (handleJobReject msg h)"
proof (cases "findByActiveJob (jr_job_id msg) h")
  case (Some w)
  then show ?thesis
    by (intro hub_frame_release [OF assms active_lookup [OF assms Some],
          where f = "\<lambda>r. r\<lparr>j_status := PENDING, j_worker_pubkey := None\<rparr>"])
      (simp_all add: handleJobReject_def runs_idle sql_reject_job_def same_request_def split: if_splits)
qed (simp add: handleJobReject_def)

lemma hub_frame_receiptSubmit:
  assumes "handleReceiptSubmit X now u msg h = Inr h'"
  shows "hub_frame h h'"
  using assms
  by (auto simp: handleReceiptSubmit_def receipts_same intro!: hub_frame_same split: sum.splits)

text \<open>A completion that is accepted: the worker becomes idle, the row completed, the payout queued.\<close>

lemma complete_accepted:
  assumes inv: "hub_inv h" and ok: "handleJobComplete X now u msg h = Inr h'"
    and w: "findByActiveJob (jc_job_id msg) h = Some w"
  shows "h_workers h' = map_modify (w_id w) set_idle (h_workers h)"
    and "select_job i (h_db h') = select_job i (if is_demo (jc_job_id msg) then h_db h
           else sql_complete_job now (jc_output msg) (jc_job_id msg) (h_db h))"
    and "h_bolt h' = map_option (bolt_queuePayout (x_pkError X) (w_pubkey w) (jc_job_id msg) (1 / 1000)) (h_bolt h)"
    and "h_wbolt h' = map_option (wbolt_queuePayout (w_pubkey w) (jc_job_id msg) (1 / 1000)) (h_wbolt h)"
proof -
  have sel: "complete_txn X now u w msg (h_db h) = Inr db \<Longrightarrow>
      select_job i db = select_job i (sql_complete_job now (jc_output msg) (jc_job_id msg) (h_db h))" for db i
    by (drule complete_txn_cases) (auto simp: select_job_def)
  show "h_workers h' = map_modify (w_id w) set_idle (h_workers h)"
    and "select_job i (h_db h') = select_job i (if is_demo (jc_job_id msg) then h_db h
           else sql_complete_job now (jc_output msg) (jc_job_id msg) (h_db h))"
    and "h_bolt h' = map_option (bolt_queuePayout (x_pkError X) (w_pubkey w) (jc_job_id msg) (1 / 1000)) (h_bolt h)"
    and "h_wbolt h' = map_option (wbolt_queuePayout (w_pubkey w) (jc_job_id msg) (1 / 1000)) (h_wbolt h)"
    using ok w sel
    by (auto simp: handleJobComplete_def queue_payouts_def split: if_splits sum.splits)
qed

lemma hub_frame_complete:
  assumes inv: "hub_inv h" and ok: "handleJobComplete X now u msg h = Inr h'"
  shows "hub_frame h h'"
proof (cases "findByActiveJob (jc_job_id msg) h")
  case None
  with ok show ?thesis by (simp add: handleJobComplete_def)
next
  case (Some w)
  show ?thesis
    by (rule hub_frame_release [OF inv active_lookup [OF inv Some],
          where f = "\<lambda>r. r\<lparr>j_status := COMPLETED, j_result := Some (jc_output msg), j_completed_at := Some (sql_now now)\<rparr>"])
      (simp_all add: complete_accepted [OF inv ok Some] runs_idle sql_complete_job_def same_request_def)
qed

lemma hub_frame_message:
  assumes "hub_inv h" "hub_onMessage X now u ws m h = Inr h'" "map_of (h_workers h) u = None"
  shows "hub_frame h h'"
proof (cases m)
  case (KnownMsg msg)
  show ?thesis
  proof (cases msg)
    case (JobComplete x)
    with KnownMsg assms(2) have "handleJobComplete X now u x h = Inr h'" by (simp add: hub_onMessage_def)
    with assms(1) show ?thesis by (rule hub_frame_complete)
  next
    case (ReceiptSubmit x)
    with KnownMsg assms(2) have "handleReceiptSubmit X now u x h = Inr h'" by (simp add: hub_onMessage_def)
    then show ?thesis by (rule hub_frame_receiptSubmit)
  qed (use KnownMsg assms in \<open>auto simp: hub_onMessage_def hub_frame_register hub_frame_heartbeat hub_frame_reject\<close>)
qed (use assms in \<open>auto simp: hub_onMessage_def intro!: hub_frame_same\<close>)

lemma sendToWorker_fields [simp]:
  "h_db (sendToWorker pk m h) = h_db h" "h_workers (sendToWorker pk m h) = h_workers h"
  "h_bolt (sendToWorker pk m h) = h_bolt h" "h_wbolt (sendToWorker pk m h) = h_wbolt h"
  by (simp_all add: sendToWorker_def split: option.splits)

lemma fold_keeps: "(\<And>x h. g (f x h) = g h) \<Longrightarrow> g (fold f xs h) = g h"
  by (induction xs arbitrary: h) simp_all

lemma callback_fields [simp]:
  "h_db (solana_onSettled r h) = h_db h" "h_workers (solana_onSettled r h) = h_workers h"
  "h_bolt (solana_onSettled r h) = h_bolt h" "h_wbolt (solana_onSettled r h) = h_wbolt h"
  "h_db (solana_onFailed f h) = h_db h" "h_workers (solana_onFailed f h) = h_workers h"
  "h_bolt (solana_onFailed f h) = h_bolt h" "h_wbolt (solana_onFailed f h) = h_wbolt h"
  "h_db (monad_onSettled r h) = h_db h" "h_workers (monad_onSettled r h) = h_workers h"
  "h_bolt (monad_onSettled r h) = h_bolt h" "h_wbolt (monad_onSettled r h) = h_wbolt h"
  "h_db (monad_onFailed f h) = h_db h" "h_workers (monad_onFailed f h) = h_workers h"
  "h_bolt (monad_onFailed f h) = h_bolt h" "h_wbolt (monad_onFailed f h) = h_wbolt h"
  by (simp_all add: solana_onSettled_def solana_onFailed_def monad_onSettled_def monad_onFailed_def)

lemma notify_bolt_fields [simp]:
  "h_db (notify_bolt d d' h) = h_db h" "h_workers (notify_bolt d d' h) = h_workers h"
  "h_bolt (notify_bolt d d' h) = Some d'" "h_wbolt (notify_bolt d d' h) = h_wbolt h"
  by (simp_all add: notify_bolt_def fold_keeps [of h_db] fold_keeps [of h_workers] fold_keeps [of h_bolt]
      fold_keeps [of h_wbolt])

lemma notify_wbolt_fields [simp]:
  "h_db (notify_wbolt d d' h) = h_db h" "h_workers (notify_wbolt d d' h) = h_workers h"
  "h_wbolt (notify_wbolt d d' h) = Some d'" "h_bolt (notify_wbolt d d' h) = h_bolt h"
  by (simp_all add: notify_wbolt_def fold_keeps [of h_db] fold_keeps [of h_workers] fold_keeps [of h_bolt]
      fold_keeps [of h_wbolt])

subsection \<open>The system invariant\<close>

definition paid_bolt :: "hub \<Rightarrow> (string \<times> string) multiset" where
  "paid_bolt h = (case h_bolt h of Some b \<Rightarrow> bolt_account b | None \<Rightarrow> {#})"

definition paid_wbolt :: "hub \<Rightarrow> (string \<times> string) multiset" where
  "paid_wbolt h = (case h_wbolt h of Some b \<Rightarrow> wbolt_account b | None \<Rightarrow> {#})"

definition dists_ok :: "hub \<Rightarrow> bool" where
  "dists_ok h \<longleftrightarrow> (\<forall>b. h_bolt h = Some b \<longrightarrow> bolt_inv b) \<and> (\<forall>b. h_wbolt h = Some b \<longrightarrow> wbolt_inv b)"

definition demo_used :: "string list \<Rightarrow> string \<Rightarrow> bool" where
  "demo_used used j \<longleftrightarrow> (\<exists>u \<in> set used. j = ''demo-'' @ u)"

definition completed_by :: "hub \<Rightarrow> string \<Rightarrow> string \<Rightarrow> bool" where
  "completed_by h j pk \<longleftrightarrow>
     (\<exists>r. select_job j (h_db h) = Some r \<and> j_status r = COMPLETED \<and> j_worker_pubkey r = Some pk)"

definition paid_ok :: "string list \<Rightarrow> (string \<times> string) multiset \<Rightarrow> hub \<Rightarrow> bool" where
  "paid_ok used M h \<longleftrightarrow> (\<forall>j. count (image_mset snd M) j \<le> 1) \<and>
     (\<forall>p \<in># M. \<not> running h (snd p) \<and>
        (if is_demo (snd p) then demo_used used (snd p) else completed_by h (snd p) (fst p)))"

definition retry_ok :: "retry_loop list \<Rightarrow> hub \<Rightarrow> bool" where
  "retry_ok rls h \<longleftrightarrow> distinct (map rl_jobId rls) \<and>
     (\<forall>rl \<in> set rls. rl_attempts rl < RETRY_MAX_ATTEMPTS \<and> rl_privacyClass rl \<noteq> PRIVATE \<and>
        (\<exists>r. select_job (rl_jobId rl) (h_db h) = Some r \<and> j_status r = PENDING \<and> retry_matches rl r))"

definition ids_ok :: "string list \<Rightarrow> hub \<Rightarrow> bool" where
  "ids_ok used h \<longleftrightarrow> fst ` set (h_workers h) \<subseteq> set used \<and>
     (\<forall>j. select_job j (h_db h) \<noteq> None \<longrightarrow> j \<in> set used) \<and>
     (\<forall>j. running h j \<and> is_demo j \<longrightarrow> demo_used used j)"

definition co_inv :: "coordinator \<Rightarrow> bool" where
  "co_inv c \<longleftrightarrow>
     hub_inv (c_hub c) \<and> ids_ok (c_used c) (c_hub c) \<and> retry_ok (c_retry c) (c_hub c) \<and> dists_ok (c_hub c) \<and>
     paid_ok (c_used c) (paid_bolt (c_hub c)) (c_hub c) \<and> paid_ok (c_used c) (paid_wbolt (c_hub c)) (c_hub c)"

lemma paid_ok_frame:
  assumes "paid_ok used M h" "hub_frame h h'" "set used \<subseteq> set used'"
  shows "paid_ok used' M h'"
proof -
  have "completed_by h' j pk" if "completed_by h j pk" for j pk
    using that assms(2) by (auto simp: completed_by_def hub_frame_def row_step_def dest!: spec [of _ j])
  moreover have "running h' j \<Longrightarrow> running h j" for j using assms(2) by (auto simp: hub_frame_def)
  moreover have "demo_used used j \<Longrightarrow> demo_used used' j" for j using assms(3) by (auto simp: demo_used_def)
  ultimately show ?thesis using assms(1) unfolding paid_ok_def by meson
qed

lemma retry_ok_frame:
  assumes "retry_ok rls h" "hub_frame h h'"
  shows "retry_ok rls h'"
proof -
  have "select_job j (h_db h') = Some r" if "select_job j (h_db h) = Some r" "j_status r = PENDING" for j r
    using that assms(2) by (auto simp: hub_frame_def row_step_def dest!: spec [of _ j])
  then show ?thesis using assms(1) unfolding retry_ok_def by meson
qed

lemma ids_ok_frame:
  assumes "ids_ok used h" "hub_frame h h'" "fst ` set (h_workers h') \<subseteq> set used'" "set used \<subseteq> set used'"
  shows "ids_ok used' h'"
proof -
  have "j \<in> set used'" if "select_job j (h_db h') \<noteq> None" for j
  proof -
    have "select_job j (h_db h) \<noteq> None"
      using that assms(2) by (auto simp: hub_frame_def row_step_def dest!: spec [of _ j] split: option.splits)
    with assms show ?thesis by (auto simp: ids_ok_def)
  qed
  moreover have "demo_used used' j" if "running h' j" "is_demo j" for j
  proof -
    have "demo_used used j" using that assms(1,2) by (simp add: ids_ok_def hub_frame_def)
    with assms(4) show ?thesis by (auto simp: demo_used_def)
  qed
  ultimately show ?thesis using assms(3) by (simp add: ids_ok_def)
qed

text \<open>Steps that start no job and queue no payout.\<close>

lemma co_inv_frame:
  assumes inv: "co_inv c" and fr: "hub_frame (c_hub c) (c_hub c')" and h: "hub_inv (c_hub c')"
    and keys: "fst ` set (h_workers (c_hub c')) \<subseteq> set (c_used c')" and used: "set (c_used c) \<subseteq> set (c_used c')"
    and r: "c_retry c' = c_retry c" and d: "dists_ok (c_hub c')"
    and p: "paid_bolt (c_hub c') = paid_bolt (c_hub c)" "paid_wbolt (c_hub c') = paid_wbolt (c_hub c)"
  shows "co_inv c'"
  using inv h d r p ids_ok_frame [OF _ fr keys used] retry_ok_frame [OF _ fr] paid_ok_frame [OF _ fr used]
  by (simp add: co_inv_def)

subsection \<open>A completion queues one payout\<close>

lemma paid_ok_add:
  assumes ok: "paid_ok used M h" and fr: "hub_frame h h'" "set used \<subseteq> set used'"
    and j: "running h j" "\<not> running h' j" "if is_demo j then demo_used used' j else completed_by h' j pk"
  shows "paid_ok used' (add_mset (pk, j) M) h'"
proof -
  have "j \<notin># image_mset snd M" using ok j(1) by (auto simp: paid_ok_def)
  then have "count (image_mset snd M) j = 0" by (simp only: not_in_iff)
  with paid_ok_frame [OF ok fr] j show ?thesis by (auto simp: paid_ok_def)
qed

lemma paid_queue:
  assumes "dists_ok h"
    and "h_bolt h' = map_option (bolt_queuePayout pkE pk j a) (h_bolt h)"
    and "h_wbolt h' = map_option (wbolt_queuePayout pk j a) (h_wbolt h)"
  shows "dists_ok h'"
    and "paid_bolt h' = (if h_bolt h = None then {#} else add_mset (pk, j) (paid_bolt h))"
    and "paid_wbolt h' = (if h_wbolt h = None then {#} else add_mset (pk, j) (paid_wbolt h))"
  using assms
  by (auto simp: dists_ok_def paid_bolt_def paid_wbolt_def bolt_queuePayout_inv bolt_queuePayout_ledger
      wbolt_queuePayout_inv wbolt_queuePayout_ledger split: option.splits)

lemma not_running_after_idle:
  assumes inv: "hub_inv h" and w: "map_of (h_workers h) k = Some w" "w_activeJobId w = Some j"
    and h': "h_workers h' = map_modify k set_idle (h_workers h)"
  shows "\<not> running h' j"
proof
  assume "running h' j"
  then obtain k' pk where "runs (h_workers h) k' j pk" "k' \<noteq> k"
    by (auto simp: running_def h' runs_idle)
  moreover have "runs (h_workers h) k j (w_pubkey w)" using w by (simp add: runs_def)
  ultimately show False
    using inv linked_unique [of "runs (h_workers h)" "h_db h"] by (auto simp: hub_inv_def)
qed

lemma paid_ok_empty [simp]: "paid_ok used {#} h" by (simp add: paid_ok_def)

lemma co_inv_complete:
  assumes inv: "co_inv c" and ok: "handleJobComplete X now u x (c_hub c) = Inr h'"
  shows "co_inv (c\<lparr>c_hub := h', c_used := u # c_used c\<rparr>)"
proof (cases "findByActiveJob (jc_job_id x) (c_hub c)")
  case None
  then have "h' = c_hub c" using ok by (simp add: handleJobComplete_def)
  with inv show ?thesis
    by (intro co_inv_frame [OF inv]) (auto simp: co_inv_def ids_ok_def)
next
  case (Some w)
  let ?h = "c_hub c" and ?j = "jc_job_id x"
  have hub: "hub_inv ?h" "ids_ok (c_used c) ?h" "dists_ok ?h" using inv by (simp_all add: co_inv_def)
  note w = active_lookup [OF hub(1) Some] and acc = complete_accepted [OF hub(1) ok Some]
  have fr: "hub_frame ?h h'" by (rule hub_frame_complete [OF hub(1) ok])
  have run: "running ?h ?j" using w by (auto simp: running_def runs_def)
  have stop: "\<not> running h' ?j" by (rule not_running_after_idle [OF hub(1) w acc(1)])
  have fin: "if is_demo ?j then demo_used (u # c_used c) ?j else completed_by h' ?j (w_pubkey w)"
  proof (cases "is_demo ?j")
    case True
    with run hub(2) show ?thesis by (auto simp: ids_ok_def demo_used_def)
  next
    case False
    have "runs (h_workers ?h) (w_id w) ?j (w_pubkey w)" using w by (simp add: runs_def)
    then obtain r where "select_job ?j (h_db ?h) = Some r" "j_worker_pubkey r = Some (w_pubkey w)"
      using linked_row [of "runs (h_workers ?h)" "h_db ?h"] hub(1) False unfolding hub_inv_def by blast
    with False acc(2) [of ?j] show ?thesis by (simp add: completed_by_def select_sql)
  qed
  note paid = paid_queue [OF hub(3) acc(3,4)]
  have add: "paid_ok (c_used c) M ?h \<Longrightarrow> paid_ok (u # c_used c) (add_mset (w_pubkey w, ?j) M) h'" for M
    by (rule paid_ok_add [OF _ fr _ run stop fin]) auto
  have "ids_ok (u # c_used c) h'"
    by (rule ids_ok_frame [OF hub(2) fr]) (use hub(2) in \<open>auto simp: ids_ok_def acc(1)\<close>)
  moreover have "retry_ok (c_retry c) h'" using inv retry_ok_frame [OF _ fr] by (simp add: co_inv_def)
  moreover have "hub_inv h'" by (rule hub_inv_complete [OF hub(1) ok])
  ultimately show ?thesis
    using inv add paid by (simp add: co_inv_def)
qed

subsection \<open>Messages, timers and routes that start no job\<close>

lemma keys_disconnect: "fst ` set (h_workers (handleDisconnect i h)) \<subseteq> fst ` set (h_workers h)"
  by (auto simp: handleDisconnect_workers set_delete_conv)

lemma keys_close: "fst ` set (h_workers (hub_onClose ws h)) \<subseteq> fst ` set (h_workers h)"
  by (auto simp: hub_onClose_def handleDisconnect_workers set_delete_conv split: option.splits if_splits)

lemma keys_same [simp]:
  "fst ` set (h_workers (handleJobReject m h)) = fst ` set (h_workers h)"
  "fst ` set (h_workers (handleHeartbeat now hb h)) = fst ` set (h_workers h)"
  by (simp_all add: handleJobReject_def handleHeartbeat_def split: option.splits)

lemma keys_register: "fst ` set (h_workers (handleRegister now u ws rg h)) = insert u (fst ` set (h_workers h))"
  by (simp add: handleRegister_def dom_update)

lemma keys_prune: "fst ` set (h_workers (pruneStale now h)) \<subseteq> fst ` set (h_workers h)"
proof -
  have "fst ` set (h_workers (fold (prune_one now) ks h)) \<subseteq> fst ` set (h_workers h)" for ks
  proof (induction ks arbitrary: h)
    case (Cons i ks)
    have "fst ` set (h_workers (prune_one now i h)) \<subseteq> fst ` set (h_workers h)"
      by (auto simp: prune_one_workers)
    with Cons.IH [of "prune_one now i h"] show ?case by auto
  qed simp
  then show ?thesis by (simp add: pruneStale_def)
qed

lemma dists_handlers [simp]:
  "h_bolt (handleDisconnect i h) = h_bolt h" "h_wbolt (handleDisconnect i h) = h_wbolt h"
  "h_bolt (hub_onClose ws h) = h_bolt h" "h_wbolt (hub_onClose ws h) = h_wbolt h"
  "h_bolt (handleJobReject m h) = h_bolt h" "h_wbolt (handleJobReject m h) = h_wbolt h"
  "h_bolt (handleHeartbeat now hb h) = h_bolt h" "h_wbolt (handleHeartbeat now hb h) = h_wbolt h"
  "h_bolt (handleRegister now u ws rg h) = h_bolt h" "h_wbolt (handleRegister now u ws rg h) = h_wbolt h"
  by (simp_all add: handleDisconnect_def hub_onClose_def handleJobReject_def handleHeartbeat_def
      handleRegister_def split: option.splits)

lemma dists_prune [simp]:
  "h_bolt (pruneStale now h) = h_bolt h" "h_wbolt (pruneStale now h) = h_wbolt h"
  by (simp_all add: pruneStale_def prune_one_def fold_keeps [of h_bolt] fold_keeps [of h_wbolt] split: option.splits)

lemma promises_fields [simp]:
  "fst ` set (h_workers (reputation_resolved i score h)) = fst ` set (h_workers h)"
  "fst ` set (h_workers (stake_resolved i tier h)) = fst ` set (h_workers h)"
  "fst ` set (h_workers (feedback_resolved f tx h)) = fst ` set (h_workers h)"
  "fst ` set (h_workers (feedback_rejected f err h)) = fst ` set (h_workers h)"
  "h_bolt (reputation_resolved i score h) = h_bolt h" "h_wbolt (reputation_resolved i score h) = h_wbolt h"
  "h_bolt (stake_resolved i tier h) = h_bolt h" "h_wbolt (stake_resolved i tier h) = h_wbolt h"
  "h_bolt (feedback_resolved f tx h) = h_bolt h" "h_wbolt (feedback_resolved f tx h) = h_wbolt h"
  "h_bolt (feedback_rejected f err h) = h_bolt h" "h_wbolt (feedback_rejected f err h) = h_wbolt h"
  by (simp_all add: reputation_resolved_def stake_resolved_def feedback_resolved_def feedback_rejected_def
      split: option.splits prod.splits)

lemma dists_cong:
  "h_bolt h' = h_bolt h \<Longrightarrow> h_wbolt h' = h_wbolt h \<Longrightarrow>
   dists_ok h' = dists_ok h \<and> paid_bolt h' = paid_bolt h \<and> paid_wbolt h' = paid_wbolt h"
  by (simp add: dists_ok_def paid_bolt_def paid_wbolt_def)

lemma co_inv_hub:
  assumes inv: "co_inv c" and fr: "hub_frame (c_hub c) h'" and h: "hub_inv h'"
    and keys: "fst ` set (h_workers h') \<subseteq> set used'" and used: "set (c_used c) \<subseteq> set used'"
    and d: "h_bolt h' = h_bolt (c_hub c)" "h_wbolt h' = h_wbolt (c_hub c)"
  shows "co_inv (c\<lparr>c_hub := h', c_used := used'\<rparr>)"
  using assms dists_cong [OF d] inv by (intro co_inv_frame [OF inv]) (simp_all add: co_inv_def)

lemma used_keys: "co_inv c \<Longrightarrow> fst ` set (h_workers (c_hub c)) \<subseteq> set (c_used c)"
  by (simp add: co_inv_def ids_ok_def)

lemma fresh_worker: "co_inv c \<Longrightarrow> uuid_ok u c \<Longrightarrow> map_of (h_workers (c_hub c)) u = None"
  by (auto simp: co_inv_def ids_ok_def uuid_ok_def map_of_eq_None_iff)

lemma message_fields:
  assumes "hub_onMessage X now u ws m h = Inr h'" "\<And>x. m \<noteq> KnownMsg (JobComplete x)"
  shows "fst ` set (h_workers h') \<subseteq> insert u (fst ` set (h_workers h)) \<and> h_bolt h' = h_bolt h \<and> h_wbolt h' = h_wbolt h"
proof (cases m)
  case (KnownMsg msg)
  show ?thesis
  proof (cases msg)
    case (ReceiptSubmit x)
    with KnownMsg assms(1) show ?thesis
      by (auto simp: hub_onMessage_def handleReceiptSubmit_def split: sum.splits)
  qed (use KnownMsg assms in \<open>clarsimp simp: hub_onMessage_def keys_register subset_insertI\<close>)+
qed (use assms in \<open>auto simp: hub_onMessage_def\<close>)

lemma co_inv_message:
  assumes inv: "co_inv c" and u: "uuid_ok u c" and ok: "hub_onMessage X now u ws m (c_hub c) = Inr h'"
  shows "co_inv (c\<lparr>c_hub := h', c_used := u # c_used c\<rparr>)"
proof (cases "\<exists>x. m = KnownMsg (JobComplete x)")
  case True
  then show ?thesis using ok by (auto simp: hub_onMessage_def intro: co_inv_complete [OF inv])
next
  case False
  have hub: "hub_inv (c_hub c)" using inv by (simp add: co_inv_def)
  note fresh = fresh_worker [OF inv u]
  have m: "fst ` set (h_workers h') \<subseteq> insert u (fst ` set (h_workers (c_hub c)))"
    "h_bolt h' = h_bolt (c_hub c)" "h_wbolt h' = h_wbolt (c_hub c)"
    using message_fields [OF ok] False by blast+
  have "fst ` set (h_workers h') \<subseteq> set (u # c_used c)"
    using order_trans [OF m(1) insert_mono [OF used_keys [OF inv]]] by simp
  then show ?thesis
    using m by (intro co_inv_hub [OF inv hub_frame_message [OF hub ok fresh] hub_inv_message [OF hub ok fresh]]) auto
qed

subsection \<open>Steps that start a job\<close>

definition start_frame :: "string \<Rightarrow> hub \<Rightarrow> hub \<Rightarrow> bool" where
  "start_frame i h h' \<longleftrightarrow>
     (\<forall>j. j \<noteq> i \<longrightarrow> select_job j (h_db h') = select_job j (h_db h)) \<and>
     (\<forall>j. running h' j \<longrightarrow> running h j \<or> j = i) \<and>
     fst ` set (h_workers h') = fst ` set (h_workers h) \<and> h_bolt h' = h_bolt h \<and> h_wbolt h' = h_wbolt h"

lemma paid_ok_start:
  assumes "paid_ok used M h" "start_frame i h h'" "i \<notin># image_mset snd M" "set used \<subseteq> set used'"
  shows "paid_ok used' M h'"
proof -
  have "\<not> running h' (snd p) \<and>
      (if is_demo (snd p) then demo_used used' (snd p) else completed_by h' (snd p) (fst p))" if "p \<in># M" for p
  proof -
    have "snd p \<noteq> i" using that assms(3) by force
    moreover have "demo_used used (snd p) \<Longrightarrow> demo_used used' (snd p)" using assms(4) by (auto simp: demo_used_def)
    ultimately show ?thesis using that assms(1,2) by (auto simp: paid_ok_def start_frame_def completed_by_def)
  qed
  with assms(1) show ?thesis by (simp add: paid_ok_def)
qed

lemma dispatch_frame:
  assumes inv: "hub_inv h" and claim: "claimWorker now jt pol pc u h = (Some b, h1)"
  shows "start_frame j h (dispatch_job b j jt payload pol pc u h1)"
    and "select_job j (h_db (dispatch_job b j jt payload pol pc u h1)) =
      map_option (\<lambda>r. r\<lparr>j_status := ASSIGNED, j_worker_pubkey := Some (w_pubkey b)\<rparr>) (select_job j (h_db h))"
proof -
  obtain w where w: "map_of (h_workers h) (w_id w) = Some w" "w_status w = Idle" "b = w\<lparr>w_status := Busy\<rparr>"
    "h1 = modify_worker (w_id w) (\<lambda>w. w\<lparr>w_status := Busy\<rparr>) h"
    using claimed_worker [OF inv claim] by metis
  have st: "(\<lambda>w. w\<lparr>w_activeJobId := Some j\<rparr>) \<circ> (\<lambda>w. w\<lparr>w_status := Busy\<rparr>) = start j"
    by (simp add: start_def fun_eq_iff)
  have "h_workers (dispatch_job b j jt payload pol pc u h1) = map_modify (w_id w) (start j) (h_workers h)"
    using w st by (simp add: dispatch_job_def assignJob_def map_modify_comp)
  then show "start_frame j h (dispatch_job b j jt payload pol pc u h1)"
    using w runs_start [OF w(1) idle_no_job [OF inv w(1,2)]]
    by (auto simp: start_frame_def running_def dispatch_job_def assignJob_def select_sql)
  show "select_job j (h_db (dispatch_job b j jt payload pol pc u h1)) =
      map_option (\<lambda>r. r\<lparr>j_status := ASSIGNED, j_worker_pubkey := Some (w_pubkey b)\<rparr>) (select_job j (h_db h))"
    using w by (simp add: dispatch_job_def assignJob_def select_sql)
qed

lemma retry_ok_other:
  assumes "retry_ok rls h" "start_frame i h h'" "i \<notin> rl_jobId ` set rls"
  shows "retry_ok rls h'"
proof -
  have "\<forall>rl \<in> set rls. select_job (rl_jobId rl) (h_db h') = select_job (rl_jobId rl) (h_db h)"
    using assms(2,3) by (auto simp: start_frame_def)
  with assms(1) show ?thesis by (simp add: retry_ok_def)
qed

text \<open>The outcome of a commit: the new row, and a retry loop exactly when it is pending.\<close>

lemma commit_outcome:
  assumes inv: "hub_inv h" and ok: "commit_valid now i tier jt pc u payload h = Inr (resp, h', rl)"
    and i: "\<not> is_demo i" "i \<noteq> []"
  shows "start_frame i h h'" and "select_job i (h_db h) = None"
    and "case rl of
       Some l \<Rightarrow> rl_jobId l = i \<and> rl_attempts l = 0 \<and> rl_privacyClass l \<noteq> PRIVATE \<and>
         (\<exists>r. select_job i (h_db h') = Some r \<and> j_status r = PENDING \<and> retry_matches l r)
     | None \<Rightarrow> \<exists>r. select_job i (h_db h') = Some r \<and> j_status r \<in> {ASSIGNED, FAILED}"
proof -
  let ?r = "new_job_row now i jt tier pc u payload"
  obtain db where ins: "insert_job ?r (h_db h) = Inr db"
    using ok by (auto simp: commit_valid_def split: sum.splits)
  let ?h = "h\<lparr>h_db := db\<rparr>"
  show none: "select_job i (h_db h) = None"
    using ins by (simp add: insert_job_Inr select_job_None new_job_row_def)
  have inv1: "hub_inv ?h" by (rule hub_inv_insert [OF inv ins]) (simp_all add: new_job_row_def i)
  have sel: "select_job k db = (if k = i then Some ?r else select_job k (h_db h))" for k
    using select_insert_job [OF ins] by (simp add: new_job_row_def)
  have fr: "start_frame i h ?h" by (simp add: start_frame_def sel)
  obtain w h1 where claim: "claimWorker now jt tier pc u ?h = (w, h1)" by fastforce
  have "start_frame i h h' \<and> (case rl of
       Some l \<Rightarrow> rl_jobId l = i \<and> rl_attempts l = 0 \<and> rl_privacyClass l \<noteq> PRIVATE \<and>
         (\<exists>r. select_job i (h_db h') = Some r \<and> j_status r = PENDING \<and> retry_matches l r)
     | None \<Rightarrow> \<exists>r. select_job i (h_db h') = Some r \<and> j_status r \<in> {ASSIGNED, FAILED})"
  proof (cases w)
    case None
    then have "h1 = ?h" using claim by (simp add: claimWorker_None)
    with None ok ins claim fr show ?thesis
      by (auto simp: commit_valid_def start_frame_def select_sql sel retry_matches_def new_job_row_def
          split: if_splits)
  next
    case (Some b)
    note d = dispatch_frame [OF inv1 claim [unfolded Some], of i payload]
    have h': "h' = dispatch_job b i jt payload tier pc u h1" "rl = None"
      using Some ok ins claim by (simp_all add: commit_valid_def)
    show ?thesis
      using d fr unfolding h' by (auto simp: start_frame_def sel)
  qed
  then show "start_frame i h h'" and "case rl of
       Some l \<Rightarrow> rl_jobId l = i \<and> rl_attempts l = 0 \<and> rl_privacyClass l \<noteq> PRIVATE \<and>
         (\<exists>r. select_job i (h_db h') = Some r \<and> j_status r = PENDING \<and> retry_matches l r)
     | None \<Rightarrow> \<exists>r. select_job i (h_db h') = Some r \<and> j_status r \<in> {ASSIGNED, FAILED}" by auto
qed

lemma handleCommit_cases:
  assumes "handleCommit now u tier body h = Inr (resp, h', rl)"
  obtains (refused) "h' = h" "rl = None"
  | (accepted) jt pc us where "commit_valid now u tier jt pc us (cb_payload body) h = Inr (resp, h', rl)"
  using assms by (auto simp: handleCommit_def split: if_splits option.splits)

lemma unpaid:
  assumes "paid_ok used M h" "\<not> is_demo i" "\<And>r. select_job i (h_db h) = Some r \<Longrightarrow> j_status r \<noteq> COMPLETED"
  shows "i \<notin># image_mset snd M"
proof
  assume "i \<in># image_mset snd M"
  then obtain pk where "(pk, i) \<in># M" by auto
  then have "completed_by h i pk" using assms(1,2) unfolding paid_ok_def by force
  with assms(3) show False by (auto simp: completed_by_def)
qed

lemma ids_ok_start:
  assumes "ids_ok used h" "start_frame i h h'" "i \<in> set used'" "\<not> is_demo i" "set used \<subseteq> set used'"
  shows "ids_ok used' h'"
proof -
  have "demo_used used j \<Longrightarrow> demo_used used' j" for j using assms(5) by (auto simp: demo_used_def)
  moreover have "select_job j (h_db h') \<noteq> None \<Longrightarrow> j \<in> set used'" for j
    using assms by (cases "j = i") (auto simp: ids_ok_def start_frame_def)
  ultimately show ?thesis using assms unfolding ids_ok_def start_frame_def by (metis subset_trans)
qed

lemma co_inv_commit:
  assumes inv: "co_inv c" and u: "uuid_ok i c"
    and ok: "commit_valid now i tier jt pc us payload (c_hub c) = Inr (resp, h', rl)"
  shows "co_inv (c\<lparr>c_hub := h', c_used := i # c_used c,
      c_retry := c_retry c @ (case rl of Some l \<Rightarrow> [l] | None \<Rightarrow> [])\<rparr>)"
proof -
  let ?h = "c_hub c"
  have hub: "hub_inv ?h" "ids_ok (c_used c) ?h" "dists_ok ?h" "retry_ok (c_retry c) ?h"
    "paid_ok (c_used c) (paid_bolt ?h) ?h" "paid_ok (c_used c) (paid_wbolt ?h) ?h"
    using inv by (simp_all add: co_inv_def)
  have i: "\<not> is_demo i" "i \<noteq> []" using u by (simp_all add: uuid_ok_def)
  note out = commit_outcome [OF hub(1) ok i]
  have new: "i \<notin> rl_jobId ` set (c_retry c)" using hub(4) out(2) by (auto simp: retry_ok_def)
  have "retry_ok (c_retry c) h'" by (rule retry_ok_other [OF hub(4) out(1) new])
  then have "retry_ok (c_retry c @ (case rl of Some l \<Rightarrow> [l] | None \<Rightarrow> [])) h'"
    using out(3) new by (auto simp: retry_ok_def RETRY_MAX_ATTEMPTS_def split: option.splits)
  moreover have "ids_ok (i # c_used c) h'" by (rule ids_ok_start [OF hub(2) out(1) _ i(1)]) auto
  moreover have "paid_ok (i # c_used c) M h'" if "paid_ok (c_used c) M ?h" for M
    by (rule paid_ok_start [OF that out(1) unpaid [OF that i(1)]]) (use out(2) in auto)
  moreover have "hub_inv h'" by (rule hub_inv_commit [OF hub(1) ok i])
  moreover have "dists_ok h' = dists_ok ?h \<and> paid_bolt h' = paid_bolt ?h \<and> paid_wbolt h' = paid_wbolt ?h"
    using out(1) by (intro dists_cong) (simp_all add: start_frame_def)
  ultimately show ?thesis using hub by (simp add: co_inv_def)
qed

text \<open>The outcome of a tick of a retry loop.\<close>

lemma retry_outcome:
  assumes inv: "hub_inv h" and tick: "retry_tick now rl h = (h', r)"
    and row: "select_job (rl_jobId rl) (h_db h) = Some row" "j_status row = PENDING"
  shows "start_frame (rl_jobId rl) h h'"
    and "case r of
       Some rl' \<Rightarrow> h' = h \<and> rl' = rl\<lparr>rl_attempts := rl_attempts rl + 1\<rparr> \<and> rl_attempts rl' < RETRY_MAX_ATTEMPTS
     | None \<Rightarrow> \<exists>row'. select_job (rl_jobId rl) (h_db h') = Some row' \<and> j_status row' \<in> {ASSIGNED, FAILED}"
proof -
  obtain w h1 where claim: "claimWorker now (rl_jobType rl) (rl_policy rl) (rl_privacyClass rl) (rl_userId rl) h = (w, h1)"
    by fastforce
  have "start_frame (rl_jobId rl) h h' \<and> (case r of
       Some rl' \<Rightarrow> h' = h \<and> rl' = rl\<lparr>rl_attempts := rl_attempts rl + 1\<rparr> \<and> rl_attempts rl' < RETRY_MAX_ATTEMPTS
     | None \<Rightarrow> \<exists>row'. select_job (rl_jobId rl) (h_db h') = Some row' \<and> j_status row' \<in> {ASSIGNED, FAILED})"
  proof (cases w)
    case None
    then have "h1 = h" using claim by (simp add: claimWorker_None)
    with None tick claim row show ?thesis
      by (auto simp: retry_tick_def start_frame_def select_sql split: if_splits)
  next
    case (Some b)
    note d = dispatch_frame [OF inv claim [unfolded Some], of "rl_jobId rl" "rl_payload rl"]
    have h': "h' = dispatch_job b (rl_jobId rl) (rl_jobType rl) (rl_payload rl) (rl_policy rl) (rl_privacyClass rl) (rl_userId rl) h1"
      "r = None"
      using Some tick claim row by (simp_all add: retry_tick_def)
    show ?thesis using d row unfolding h' by simp
  qed
  then show "start_frame (rl_jobId rl) h h'"
    and "case r of
       Some rl' \<Rightarrow> h' = h \<and> rl' = rl\<lparr>rl_attempts := rl_attempts rl + 1\<rparr> \<and> rl_attempts rl' < RETRY_MAX_ATTEMPTS
     | None \<Rightarrow> \<exists>row'. select_job (rl_jobId rl) (h_db h') = Some row' \<and> j_status row' \<in> {ASSIGNED, FAILED}" by auto
qed

lemma retry_update_ok:
  assumes "retry_ok rls h" "rl \<in> set rls"
  shows "retry_ok (removeAll rl rls) h" and "rl_jobId rl \<notin> rl_jobId ` set (removeAll rl rls)"
    and "rl' = rl\<lparr>rl_attempts := n\<rparr> \<Longrightarrow> n < RETRY_MAX_ATTEMPTS \<Longrightarrow>
      retry_ok (map (\<lambda>x. if x = rl then rl' else x) rls) h"
proof -
  have d: "distinct (map rl_jobId rls)" using assms(1) by (simp add: retry_ok_def)
  show "retry_ok (removeAll rl rls) h"
    using assms(1) by (auto simp: retry_ok_def removeAll_filter_not_eq intro: distinct_map_filter)
  show "rl_jobId rl \<notin> rl_jobId ` set (removeAll rl rls)"
    using d assms(2) by (auto simp: distinct_map dest: inj_onD)
  assume rl': "rl' = rl\<lparr>rl_attempts := n\<rparr>" "n < RETRY_MAX_ATTEMPTS"
  have "map rl_jobId (map (\<lambda>x. if x = rl then rl' else x) rls) = map rl_jobId rls"
    by (simp add: rl')
  with d have "distinct (map rl_jobId (map (\<lambda>x. if x = rl then rl' else x) rls))" by (simp only:)
  with assms rl' show "retry_ok (map (\<lambda>x. if x = rl then rl' else x) rls) h"
    unfolding retry_ok_def by (auto simp: retry_matches_def)
qed

lemma co_inv_retry:
  assumes inv: "co_inv c" and rl: "rl \<in> set (c_retry c)" and tick: "retry_tick now rl (c_hub c) = (h', r)"
  shows "co_inv (c\<lparr>c_hub := h', c_retry := retry_update rl r (c_retry c)\<rparr>)"
proof -
  let ?h = "c_hub c" and ?j = "rl_jobId rl"
  have hub: "hub_inv ?h" "ids_ok (c_used c) ?h" "dists_ok ?h" "retry_ok (c_retry c) ?h"
    "paid_ok (c_used c) (paid_bolt ?h) ?h" "paid_ok (c_used c) (paid_wbolt ?h) ?h"
    using inv by (simp_all add: co_inv_def)
  obtain row where row: "select_job ?j (h_db ?h) = Some row" "j_status row = PENDING" "retry_matches rl row"
    using hub(4) rl by (auto simp: retry_ok_def)
  have j: "\<not> is_demo ?j" "?j \<in> set (c_used c)"
    using hub(1,2) row(1) by (auto simp: hub_inv_def jobs_ok_def ids_ok_def)
  note out = retry_outcome [OF hub(1) tick row(1,2)]
  note upd = retry_update_ok [OF hub(4) rl]
  have "retry_ok (retry_update rl r (c_retry c)) h'"
  proof (cases r)
    case None
    then show ?thesis
      using retry_ok_other [OF upd(1) out(1) upd(2)] by (simp add: retry_update_def)
  next
    case (Some rl')
    with out(2) have o: "h' = ?h" "rl' = rl\<lparr>rl_attempts := rl_attempts rl + 1\<rparr>" "rl_attempts rl + 1 < RETRY_MAX_ATTEMPTS"
      by auto
    show ?thesis using upd(3) [OF o(2,3)] Some o(1) by (simp add: retry_update_def)
  qed
  moreover have "ids_ok (c_used c) h'" by (rule ids_ok_start [OF hub(2) out(1) j(2,1)]) simp
  moreover have "paid_ok (c_used c) M h'" if "paid_ok (c_used c) M ?h" for M
    by (rule paid_ok_start [OF that out(1) unpaid [OF that j(1)]]) (use row in auto)
  moreover have "hub_inv h'"
    by (rule hub_inv_retry [OF hub(1) tick]) (use row in auto)
  moreover have "dists_ok h' = dists_ok ?h \<and> paid_bolt h' = paid_bolt ?h \<and> paid_wbolt h' = paid_wbolt ?h"
    using out(1) by (intro dists_cong) (simp_all add: start_frame_def)
  ultimately show ?thesis using hub by (simp add: co_inv_def)
qed

lemma inject_frame:
  assumes inv: "hub_inv h"
  shows "start_frame (ja_job_id msg) h (snd (injectDemoJob k msg h))"
proof (cases "map_of (h_workers h) k")
  case None
  then show ?thesis by (simp add: injectDemoJob_def start_frame_def)
next
  case (Some w)
  have st: "(\<lambda>w. w\<lparr>w_status := Busy, w_activeJobId := Some (ja_job_id msg)\<rparr>) = start (ja_job_id msg)"
    by (simp add: start_def fun_eq_iff)
  show ?thesis
  proof (cases "w_status w")
    case Idle
    with Some show ?thesis
      using runs_start [OF Some idle_no_job [OF inv Some Idle]] st
      by (auto simp: injectDemoJob_def start_frame_def running_def)
  next
    case Busy
    with Some show ?thesis by (simp add: injectDemoJob_def start_frame_def)
  qed
qed

lemma inject_demo:
  assumes inv: "co_inv c" and u: "uuid_ok u c" and msg: "ja_job_id msg = ''demo-'' @ u"
  shows "co_inv (c\<lparr>c_hub := snd (injectDemoJob k msg (c_hub c)), c_used := u # c_used c\<rparr>)"
proof -
  let ?h = "c_hub c" and ?j = "ja_job_id msg" and ?h' = "snd (injectDemoJob k msg (c_hub c))"
  have hub: "hub_inv ?h" "ids_ok (c_used c) ?h" "dists_ok ?h" "retry_ok (c_retry c) ?h"
    "paid_ok (c_used c) (paid_bolt ?h) ?h" "paid_ok (c_used c) (paid_wbolt ?h) ?h"
    using inv by (simp_all add: co_inv_def)
  have demo: "is_demo ?j" by (simp add: msg is_demo_def startsWith_def)
  have new: "\<not> demo_used (c_used c) ?j" using u by (simp add: demo_used_def msg uuid_ok_def)
  have idle: "\<not> runs (h_workers ?h) k' ?j pk" for k' pk
    using hub(2) demo new unfolding ids_ok_def running_def by blast
  note fr = inject_frame [OF hub(1), of msg k]
  have db: "h_db ?h' = h_db ?h" by (simp add: injectDemoJob_def split: option.splits)
  have "demo_used (u # c_used c) j" if "running ?h' j" "is_demo j" for j
    using that fr hub(2) by (auto simp: start_frame_def ids_ok_def demo_used_def msg)
  then have "ids_ok (u # c_used c) ?h'"
    using hub(2) fr db by (auto simp: ids_ok_def start_frame_def)
  moreover have "paid_ok (u # c_used c) M ?h'" if "paid_ok (c_used c) M ?h" for M
    by (rule paid_ok_start [OF that fr]) (use that demo new in \<open>auto simp: paid_ok_def\<close>)
  moreover have "retry_ok (c_retry c) ?h'" using hub(4) by (simp add: retry_ok_def db)
  moreover have "hub_inv ?h'" by (rule hub_inv_inject [OF hub(1) demo idle])
  moreover have "dists_ok ?h' = dists_ok ?h \<and> paid_bolt ?h' = paid_bolt ?h \<and> paid_wbolt ?h' = paid_wbolt ?h"
    using fr by (intro dists_cong) (simp_all add: start_frame_def)
  ultimately show ?thesis using hub by (simp add: co_inv_def)
qed

lemma co_inv_used: "co_inv c \<Longrightarrow> co_inv (c\<lparr>c_used := u # c_used c\<rparr>)"
  by (rule co_inv_frame [of c]) (auto simp: co_inv_def ids_ok_def)

lemma co_inv_demo_fields [simp]:
  "co_inv (c\<lparr>c_demoActive := a\<rparr>) = co_inv c" "co_inv (c\<lparr>c_demoTimer := b\<rparr>) = co_inv c"
  "co_inv (c\<lparr>c_demoActive := a, c_demoTimer := b\<rparr>) = co_inv c"
  by (simp_all add: co_inv_def)

lemma co_inv_demoTick:
  assumes inv: "co_inv c" and u: "uuid_ok u c"
  shows "co_inv ((demoTick r1 r2 r3 u c)\<lparr>c_used := u # c_used c\<rparr>)"
proof -
  have eq: "(c1\<lparr>c_demoTimer := True\<rparr>)\<lparr>c_used := us\<rparr> = (c1\<lparr>c_used := us\<rparr>)\<lparr>c_demoTimer := True\<rparr>" for c1 :: coordinator and us
    by simp
  show ?thesis
    using co_inv_used [OF inv] inject_demo [OF inv u]
    by (simp add: demoTick_def eq demo_msg_def del: coordinator.update_convs)
qed

subsection \<open>Every step keeps the invariant\<close>

lemma trust_create_db:
  assumes "trust_create isodate now u code user db = Inr (resp, db')"
  shows "db_jobs db' = db_jobs db" "db_inv db \<Longrightarrow> db_inv db'" "trusted db us pk \<Longrightarrow> trusted db' us pk"
  using assms
  by (auto simp: trust_create_def insert_pairing_Inr trusted_def db_inv_def split: if_splits sum.splits)

lemma trust_claim_db:
  assumes "trust_claim isodate now code pk db = (resp, db')" "db_inv db"
  shows "db_jobs db' = db_jobs db" "db_inv db'" "trusted db us k \<Longrightarrow> trusted db' us k"
  using assms
  by (auto simp: trust_claim_def sql_claim_pairing_inv trusted_claim split: if_splits option.splits)
    (auto simp: sql_claim_pairing_def)

lemma co_inv_pairings:
  assumes inv: "co_inv c" and db: "db_jobs db = db_jobs (h_db (c_hub c))" "db_inv db"
    "\<And>us pk. trusted (h_db (c_hub c)) us pk \<Longrightarrow> trusted db us pk"
    and used: "set (c_used c) \<subseteq> set used'"
  shows "co_inv (c\<lparr>c_hub := (c_hub c)\<lparr>h_db := db\<rparr>, c_used := used'\<rparr>)"
proof -
  have hub: "hub_inv (c_hub c)" using inv by (simp add: co_inv_def)
  have "select_job j db = select_job j (h_db (c_hub c))" for j by (simp add: select_job_def db(1))
  then show ?thesis
    using used_keys [OF inv] used
    by (intro co_inv_hub [OF inv _ hub_inv_pairings [OF hub db(2,1,3)]] hub_frame_same) auto
qed

lemma co_inv_step:
  assumes inv: "co_inv c" and step: "co_step X lands c c'"
  shows "co_inv c'"
proof -
  have hub: "hub_inv (c_hub c)" and dist: "dists_ok (c_hub c)" and db: "db_inv (h_db (c_hub c))"
    using inv by (simp_all add: co_inv_def hub_inv_def)
  note frame = co_inv_hub [OF inv, where used' = "c_used c", simplified]
  note keys = used_keys [OF inv]
  from step show ?thesis
  proof cases
    case (step_connect ws)
    then show ?thesis
      using hub keys by (simp add: frame hub_frame_same handleConnection_def hub_inv_def)
  next
    case (step_message ws u now m h')
    then show ?thesis using co_inv_message [OF inv] by simp
  next
    case (step_close ws)
    have "co_inv (c\<lparr>c_hub := hub_onClose ws (c_hub c)\<rparr>)"
      by (rule frame [OF hub_frame_close [OF hub] hub_inv_close [OF hub] order_trans [OF keys_close keys]]) simp_all
    with step_close show ?thesis by simp
  next
    case (step_prune now)
    have "co_inv (c\<lparr>c_hub := pruneStale now (c_hub c)\<rparr>)"
      by (rule frame [OF hub_frame_prune [OF hub] hub_inv_prune [OF hub] order_trans [OF keys_prune keys]]) simp_all
    with step_prune show ?thesis by simp
  next
    case (step_reputation i score)
    with keys show ?thesis
      by (simp add: frame hub_frame_promises hub_inv_promises [OF hub])
  next
    case (step_stake i tier)
    with keys show ?thesis
      by (simp add: frame hub_frame_promises hub_inv_promises [OF hub])
  next
    case (step_feedback_ok f tx)
    with keys show ?thesis
      by (simp add: frame hub_frame_promises hub_inv_promises [OF hub])
  next
    case (step_feedback_fail f err)
    with keys show ?thesis
      by (simp add: frame hub_frame_promises hub_inv_promises [OF hub])
  next
    case (step_commit tier u now body resp h' rl)
    from step_commit(4) show ?thesis
    proof (cases rule: handleCommit_cases)
      case refused
      then show ?thesis using step_commit co_inv_used [OF inv, of u] by simp
    next
      case (accepted jt pc us)
      show ?thesis unfolding step_commit(1) by (rule co_inv_commit [OF inv step_commit(3) accepted])
    qed
  next
    case (step_retry rl now h' r)
    then show ?thesis using co_inv_retry [OF inv] by simp
  next
    case (step_trust_create u isodate now code user resp db')
    then show ?thesis
      using co_inv_pairings [OF inv, of db' "u # c_used c"] trust_create_db [OF step_trust_create(3)] db by auto
  next
    case (step_trust_claim isodate now code pk resp db')
    then show ?thesis
      using co_inv_pairings [OF inv, of db' "c_used c"] trust_claim_db [OF step_trust_claim(2) db] by auto
  next
    case step_demo_start
    then show ?thesis using inv by (simp add: startDemoMode_def)
  next
    case step_demo_stop
    then show ?thesis using inv by (simp add: stopDemoMode_def)
  next
    case (step_demo_tick u r1 r2 r3)
    then show ?thesis using co_inv_demoTick [OF inv] by simp
  next
    case (step_bolt d d')
    have "bolt_inv d" using dist step_bolt by (simp add: dists_ok_def)
    then have "bolt_inv d' \<and> bolt_account d' = bolt_account d"
      using bolt_internal_inv bolt_internal_ledger step_bolt(3) by blast
    then show ?thesis
      using step_bolt hub dist keys
      by (intro co_inv_frame [OF inv])
        (simp_all add: hub_frame_same hub_inv_def dists_ok_def paid_bolt_def paid_wbolt_def)
  next
    case (step_wbolt d d')
    have "wbolt_inv d" using dist step_wbolt by (simp add: dists_ok_def)
    then have "wbolt_inv d' \<and> wbolt_account d' = wbolt_account d"
      using wbolt_internal_inv wbolt_internal_ledger step_wbolt(3) by blast
    then show ?thesis
      using step_wbolt hub dist keys
      by (intro co_inv_frame [OF inv])
        (simp_all add: hub_frame_same hub_inv_def dists_ok_def paid_bolt_def paid_wbolt_def)
  qed
qed

lemma co_inv_init: "co_init c \<Longrightarrow> co_inv c"
  by (auto simp: co_init_def createServer_def co_inv_def hub_inv_def hub_new_def createDb_def registry_ok_def
      workers_wf_def db_inv_def jobs_ok_def linked_def runs_def select_job_def ids_ok_def running_def retry_ok_def
      dists_ok_def paid_bolt_def paid_wbolt_def bolt_new_facts wbolt_new_facts)

interpretation coI: inductive_invariant co_init "co_step X lands" co_inv for X lands
  by unfold_locales (fact co_inv_init, rule co_inv_step)

subsection \<open>What a step does to the jobs table\<close>

definition retry_ids :: "coordinator \<Rightarrow> string set" where
  "retry_ids c = rl_jobId ` set (c_retry c)"

text \<open>A step changes assigned rows only, or creates one row, or moves on one row that has a retry
  loop.\<close>

definition row_effect :: "coordinator \<Rightarrow> coordinator \<Rightarrow> bool" where
  "row_effect c c' \<longleftrightarrow>
     ((\<forall>j. row_step (select_job j (h_db (c_hub c))) (select_job j (h_db (c_hub c')))) \<and> retry_ids c' = retry_ids c) \<or>
     (\<exists>i. (select_job i (h_db (c_hub c)) = None \<or> i \<in> retry_ids c) \<and>
        (\<forall>j. j \<noteq> i \<longrightarrow> select_job j (h_db (c_hub c')) = select_job j (h_db (c_hub c))) \<and>
        (\<exists>r. select_job i (h_db (c_hub c')) = Some r \<and> j_status r \<in> {PENDING, ASSIGNED, FAILED}) \<and>
        retry_ids c' \<subseteq> insert i (retry_ids c))"

lemma row_effect_cases:
  assumes "row_effect c c'"
  obtains (assigned) "\<And>j. row_step (select_job j (h_db (c_hub c))) (select_job j (h_db (c_hub c')))"
      "retry_ids c' = retry_ids c"
  | (moved) i r where "select_job i (h_db (c_hub c)) = None \<or> i \<in> retry_ids c"
      "\<And>j. j \<noteq> i \<Longrightarrow> select_job j (h_db (c_hub c')) = select_job j (h_db (c_hub c))"
      "select_job i (h_db (c_hub c')) = Some r" "j_status r \<in> {PENDING, ASSIGNED, FAILED}"
      "retry_ids c' \<subseteq> insert i (retry_ids c)"
  using assms unfolding row_effect_def by blast

lemma row_effect_frame: "hub_frame (c_hub c) (c_hub c') \<Longrightarrow> c_retry c' = c_retry c \<Longrightarrow> row_effect c c'"
  by (simp add: row_effect_def hub_frame_def retry_ids_def)

lemma row_effect_commit:
  assumes inv: "co_inv c" and u: "uuid_ok i c"
    and ok: "commit_valid now i tier jt pc us payload (c_hub c) = Inr (resp, h', rl)"
    and c': "c_hub c' = h'" "c_retry c' = c_retry c @ (case rl of Some l \<Rightarrow> [l] | None \<Rightarrow> [])"
  shows "row_effect c c'"
proof -
  have hub: "hub_inv (c_hub c)" and i: "\<not> is_demo i" "i \<noteq> []"
    using inv u by (simp_all add: co_inv_def uuid_ok_def)
  note out = commit_outcome [OF hub ok i]
  have "\<exists>r. select_job i (h_db h') = Some r \<and> j_status r \<in> {PENDING, ASSIGNED, FAILED}"
    using out(3) by (auto split: option.splits)
  moreover have "retry_ids c' \<subseteq> insert i (retry_ids c)"
    using out(3) by (auto simp: retry_ids_def c' split: option.splits)
  moreover have "\<forall>j. j \<noteq> i \<longrightarrow> select_job j (h_db h') = select_job j (h_db (c_hub c))"
    using out(1) by (simp add: start_frame_def)
  ultimately show ?thesis using out(2) unfolding row_effect_def c' by blast
qed

lemma row_effect_retry:
  assumes inv: "co_inv c" and rl: "rl \<in> set (c_retry c)" and tick: "retry_tick now rl (c_hub c) = (h', r)"
    and c': "c_hub c' = h'" "c_retry c' = retry_update rl r (c_retry c)"
  shows "row_effect c c'"
proof -
  have hub: "hub_inv (c_hub c)" "retry_ok (c_retry c) (c_hub c)" using inv by (simp_all add: co_inv_def)
  obtain row where row: "select_job (rl_jobId rl) (h_db (c_hub c)) = Some row" "j_status row = PENDING"
    using hub(2) rl by (auto simp: retry_ok_def)
  note out = retry_outcome [OF hub(1) tick row]
  have "\<exists>x. select_job (rl_jobId rl) (h_db h') = Some x \<and> j_status x \<in> {PENDING, ASSIGNED, FAILED}"
    using out(2) row by (auto split: option.splits)
  moreover have "retry_ids c' \<subseteq> insert (rl_jobId rl) (retry_ids c)"
    using out(2) by (auto simp: retry_ids_def c' retry_update_def split: option.splits)
  moreover have "\<forall>j. j \<noteq> rl_jobId rl \<longrightarrow> select_job j (h_db h') = select_job j (h_db (c_hub c))"
    using out(1) by (simp add: start_frame_def)
  moreover have "rl_jobId rl \<in> retry_ids c" using rl by (simp add: retry_ids_def)
  ultimately show ?thesis unfolding row_effect_def c' by blast
qed

lemma co_step_row_effect:
  assumes inv: "co_inv c" and step: "co_step X lands c c'"
  shows "row_effect c c'"
proof -
  have hub: "hub_inv (c_hub c)" and db: "db_inv (h_db (c_hub c))" using inv by (simp_all add: co_inv_def hub_inv_def)
  have same: "row_effect c c'" if "\<And>j. select_job j (h_db (c_hub c')) = select_job j (h_db (c_hub c))" "c_retry c' = c_retry c"
    using that by (simp add: row_effect_def retry_ids_def)
  from step show ?thesis
  proof cases
    case (step_message ws u now m h')
    then show ?thesis
      using hub_frame_message [OF hub step_message(4) fresh_worker [OF inv step_message(3)]]
      by (intro row_effect_frame) simp_all
  next
    case (step_close ws)
    then show ?thesis using hub_frame_close [OF hub] by (intro row_effect_frame) simp_all
  next
    case (step_prune now)
    then show ?thesis using hub_frame_prune [OF hub] by (intro row_effect_frame) simp_all
  next
    case (step_reputation i score)
    then show ?thesis using hub_frame_promises by (intro row_effect_frame) simp_all
  next
    case (step_stake i tier)
    then show ?thesis using hub_frame_promises by (intro row_effect_frame) simp_all
  next
    case (step_feedback_ok f tx)
    then show ?thesis using hub_frame_promises by (intro row_effect_frame) simp_all
  next
    case (step_feedback_fail f err)
    then show ?thesis using hub_frame_promises by (intro row_effect_frame) simp_all
  next
    case (step_commit tier u now body resp h' rl)
    from step_commit(4) show ?thesis
    proof (cases rule: handleCommit_cases)
      case refused
      then show ?thesis using step_commit by (intro same) simp_all
    next
      case (accepted jt pc us)
      then show ?thesis using step_commit row_effect_commit [OF inv step_commit(3) accepted, of c'] by simp
    qed
  next
    case (step_retry rl now h' r)
    then show ?thesis using row_effect_retry [OF inv step_retry(2,3), of c'] by simp
  next
    case (step_trust_create u isodate now code user resp db')
    then show ?thesis
      using trust_create_db(1) [OF step_trust_create(3)] by (intro same) (simp_all add: select_job_def)
  next
    case (step_trust_claim isodate now code pk resp db')
    then show ?thesis
      using trust_claim_db(1) [OF step_trust_claim(2) db] by (intro same) (simp_all add: select_job_def)
  next
    case (step_demo_tick u r1 r2 r3)
    have "h_db (snd (injectDemoJob k m h)) = h_db h" for k m h
      by (simp add: injectDemoJob_def split: option.splits)
    with step_demo_tick show ?thesis by (intro same) (simp_all add: demoTick_def)
  qed (simp_all add: row_effect_def retry_ids_def handleConnection_def startDemoMode_def stopDemoMode_def)
qed

subsection \<open>A rejected job\<close>

definition job_status :: "string \<Rightarrow> coordinator \<Rightarrow> JobStatus option" where
  "job_status j c = map_option j_status (select_job j (h_db (c_hub c)))"

text \<open>Pending with no loop that would look for a worker: nothing moves such a job on.\<close>

definition stuck :: "string \<Rightarrow> coordinator \<Rightarrow> bool" where
  "stuck j c \<longleftrightarrow> job_status j c = Some PENDING \<and> j \<notin> retry_ids c"

lemma stuck_step:
  assumes "row_effect c c'" "stuck j c"
  shows "stuck j c'"
proof -
  obtain r where r: "select_job j (h_db (c_hub c)) = Some r" "j_status r = PENDING" "j \<notin> retry_ids c"
    using assms(2) by (auto simp: stuck_def job_status_def)
  from assms(1) show ?thesis
  proof (cases rule: row_effect_cases)
    case assigned
    with r assigned(1) [of j] show ?thesis by (auto simp: stuck_def job_status_def row_step_def)
  next
    case (moved i x)
    then have "j \<noteq> i" using r by auto
    with moved r show ?thesis by (auto simp: stuck_def job_status_def)
  qed
qed

lemma stuck_forever:
  assumes "(co_step X lands)\<^sup>*\<^sup>* c c'" "co_inv c" "stuck j c"
  shows "stuck j c'"
  using assms
proof (induction rule: rtranclp_induct)
  case (step c1 c2)
  then show ?case using stuck_step co_step_row_effect coI.steps_inv by blast
qed

lemma reject_stuck:
  assumes inv: "co_inv c" and w: "findByActiveJob j (c_hub c) = Some w" and j: "\<not> is_demo j"
    and msg: "jr_job_id msg = j" and c': "c_hub c' = handleJobReject msg (c_hub c)" "c_retry c' = c_retry c"
  shows "stuck j c'"
proof -
  have hub: "hub_inv (c_hub c)" and retry: "retry_ok (c_retry c) (c_hub c)" using inv by (simp_all add: co_inv_def)
  note a = active_lookup [OF hub w]
  have "runs (h_workers (c_hub c)) (w_id w) j (w_pubkey w)" using a by (simp add: runs_def)
  then obtain r where r: "select_job j (h_db (c_hub c)) = Some r" "j_status r = ASSIGNED"
    using linked_row [of "runs (h_workers (c_hub c))" "h_db (c_hub c)"] hub j unfolding hub_inv_def by blast
  have "j \<notin> retry_ids c" using retry r by (auto simp: retry_ok_def retry_ids_def)
  with r w j msg show ?thesis
    by (simp add: stuck_def job_status_def retry_ids_def c' handleJobReject_def select_sql)
qed

subsection \<open>The lifecycle of a job\<close>

text \<open>The abstract machine every job row follows: terminal statuses have no way out.\<close>

inductive job_lifecycle :: "JobStatus option \<Rightarrow> JobStatus option \<Rightarrow> bool" where
  lc_stay: "job_lifecycle s s"
| lc_create: "s \<in> {PENDING, ASSIGNED, FAILED} \<Longrightarrow> job_lifecycle None (Some s)"
| lc_match: "s \<in> {ASSIGNED, FAILED} \<Longrightarrow> job_lifecycle (Some PENDING) (Some s)"
| lc_finish: "s \<in> {PENDING, COMPLETED, FAILED} \<Longrightarrow> job_lifecycle (Some ASSIGNED) (Some s)"

inductive_cases lc_completedE: "job_lifecycle (Some COMPLETED) s"
inductive_cases lc_failedE: "job_lifecycle (Some FAILED) s"

lemma row_step_lifecycle: "row_step a b \<Longrightarrow> job_lifecycle (map_option j_status a) (map_option j_status b)"
  by (auto simp: row_step_def intro: job_lifecycle.intros split: option.splits)

lemma row_effect_lifecycle:
  assumes inv: "co_inv c" and eff: "row_effect c c'"
  shows "job_lifecycle (job_status j c) (job_status j c')"
  using eff
proof (cases rule: row_effect_cases)
  case assigned
  then show ?thesis by (simp add: job_status_def row_step_lifecycle)
next
  case (moved i r)
  have "job_status i c = None \<or> job_status i c = Some PENDING"
    using moved(1) inv by (auto simp: job_status_def retry_ids_def co_inv_def retry_ok_def)
  then show ?thesis
    using moved by (cases "j = i") (auto simp: job_status_def intro: job_lifecycle.intros)
qed

end
