(* ===== verification/Cli.thy ===== *)
theory Cli
  imports Workers Router JsUrl
begin

section \<open>Command line client\<close>

text \<open>
  \<open>packages/cli/src\<close>: the argument checks of \<open>types.ts\<close>, the configuration file of \<open>lib/config.ts\<close>, the HTTP
  client of \<open>lib/coordinator-client.ts\<close> and the handlers of the commands \<open>init\<close>, \<open>agent quote\<close>,
  \<open>agent run\<close>, \<open>agent status\<close>, \<open>worker start\<close> and \<open>worker status\<close>.

  An exception is its message. A command is an \<open>io\<close> program (see \<open>Router\<close>) that ends in a
  \<open>cli_exit\<close>: what it wrote to stdout and the pairs it gave to \<open>keyValue\<close>, or the line
  \<open>printCommandError\<close> prints before \<open>process.exit(1)\<close>; colours and spinners are left out. Files
  are a map from resolved paths to text, and directories are not modelled. A field of the
  configuration file that has another type than \<open>DispatchConfig\<close> declares is an error here
  (\<open>mistyped\<close>); the code would fail where it first uses the field.
\<close>

subsection \<open>Paths and text\<close>

fun split_on :: "char \<Rightarrow> string \<Rightarrow> string list" where
  "split_on c [] = [[]]"
| "split_on c (x # xs) =
     (if x = c then [] # split_on c xs
      else case split_on c xs of [] \<Rightarrow> [[x]] | w # ws \<Rightarrow> (x # w) # ws)"

text \<open>POSIX \<open>path.resolve\<close>; \<open>path.join\<close> of a directory and a plain name, which is resolved next.\<close>

fun path_norm :: "string list \<Rightarrow> string list \<Rightarrow> string list" where
  "path_norm st [] = rev st"
| "path_norm st (x # xs) =
     (if x = [] \<or> x = ''.'' then path_norm st xs
      else if x = ''..'' then path_norm (tl st) xs
      else path_norm (x # st) xs)"

definition path_resolve :: "string \<Rightarrow> string \<Rightarrow> string" where
  "path_resolve cwd p =
     ''/'' @ join_with ''/'' (path_norm [] (split_on (CHR ''/'') (if startsWith p ''/'' then p else cwd @ ''/'' @ p)))"

definition path_join :: "string \<Rightarrow> string \<Rightarrow> string" where
  "path_join dir file = dir @ ''/'' @ file"

text \<open>\<open>a ?? b\<close>\<close>

definition orelse :: "'a option \<Rightarrow> 'a \<Rightarrow> 'a" where
  "orelse a b = (case a of Some x \<Rightarrow> x | None \<Rightarrow> b)"

subsection \<open>\<open>types.ts\<close>\<close>

definition NO_CONFIG :: string where
  "NO_CONFIG = ''No .dispatchrc found. Run 'dispatch init' to set up.''"

definition PAYMENT_REQUIRED :: string where
  "PAYMENT_REQUIRED = ''Payment required (x402). Set TESTNET_MODE=1 on the coordinator for free usage.''"

definition NO_TRUSTED_WORKER :: string where
  "NO_TRUSTED_WORKER = ''No trusted worker available for PRIVATE job. Run 'dispatch worker start --trust-code <code>' to pair a worker first.''"

definition JOB_TIMEOUT_30 :: string where
  "JOB_TIMEOUT_30 = ''Job timed out after 30s. The worker may be overloaded.''"

definition JOB_TIMEOUT_60 :: string where
  "JOB_TIMEOUT_60 = ''Job timed out after 60s. The worker may be overloaded.''"

definition PROMPT_FOR_TASK :: string where
  "PROMPT_FOR_TASK = ''Error: --prompt is for LLM jobs. Use --input for task jobs.''"

definition INPUT_FOR_LLM :: string where
  "INPUT_FOR_LLM = ''Error: --input is for task jobs. Use --prompt for LLM jobs.''"

definition TASK_TYPE_REQUIRED :: string where
  "TASK_TYPE_REQUIRED = ''Error: --task-type is required for task jobs. Options: summarize, classify, extract_json''"

definition PROMPT_REQUIRED :: string where
  "PROMPT_REQUIRED = ''Error: --prompt is required for LLM jobs.''"

definition INPUT_REQUIRED :: string where
  "INPUT_REQUIRED = ''Error: --input is required for task jobs.''"

definition coordinatorUnreachableMessage :: "string \<Rightarrow> string" where
  "coordinatorUnreachableMessage url = ''Cannot reach coordinator at '' @ url @ ''. Is it running?''"

definition normalize :: "string \<Rightarrow> string" where
  "normalize value = js_lower (js_trim value)"

definition mapJobType :: "string \<Rightarrow> string + JobType" where
  "mapJobType value =
     (let normalized = normalize value in
      if normalized = ''llm'' \<or> normalized = ''llm_infer'' then Inr LLM_INFER
      else if normalized = ''task'' then Inr TASK
      else Inl (''Unsupported job type: '' @ value))"

definition mapPolicy :: "string \<Rightarrow> string + Policy" where
  "mapPolicy value =
     (let normalized = normalize value in
      if normalized = ''fast'' then Inr FAST
      else if normalized = ''cheap'' then Inr CHEAP
      else if normalized = ''auto'' then Inr AUTO
      else Inl (''Unsupported policy: '' @ value))"

definition mapPrivacy :: "string \<Rightarrow> string + PrivacyClass" where
  "mapPrivacy value =
     (let normalized = normalize value in
      if normalized = ''public'' then Inr PUBLIC
      else if normalized = ''private'' then Inr PRIVATE
      else Inl (''Unsupported privacy: '' @ value))"

definition mapTaskType :: "string \<Rightarrow> string + TaskType" where
  "mapTaskType value =
     (let normalized = normalize value in
      if normalized = ''summarize'' then Inr Summarize
      else if normalized = ''classify'' then Inr Classify
      else if normalized = ''extract_json'' then Inr ExtractJson
      else Inl (''Unsupported task type: '' @ value))"

definition mapChain :: "string \<Rightarrow> string + chain" where
  "mapChain value =
     (let normalized = normalize value in
      if normalized = ''monad'' then Inr Monad
      else if normalized = ''solana'' then Inr Solana
      else Inl (''Unsupported chain: '' @ value))"

definition mapCapability :: "string \<Rightarrow> string + JobType" where
  "mapCapability item =
     (if item = ''llm'' \<or> item = ''llm_infer'' then Inr LLM_INFER
      else if item = ''task'' then Inr TASK
      else Inl (''Unsupported capability: '' @ item))"

fun mapR :: "('a \<Rightarrow> 'e + 'b) \<Rightarrow> 'a list \<Rightarrow> 'e + 'b list" where
  "mapR f [] = Inr []"
| "mapR f (x # xs) = bindR (f x) (\<lambda>y. bindR (mapR f xs) (\<lambda>ys. Inr (y # ys)))"

definition mapCapabilities :: "string \<Rightarrow> string + JobType list" where
  "mapCapabilities list =
     bindR (mapR mapCapability (filter (\<lambda>s. s \<noteq> []) (map normalize (split_on (CHR '','') list)))) (\<lambda>mapped.
       Inr (if mapped \<noteq> [] then mapped else [LLM_INFER, TASK]))"

record AgentRunOptions =
  ar_type :: string
  ar_prompt :: "string option"
  ar_input :: "string option"
  ar_taskType :: "string option"
  ar_policy :: "string option"
  ar_privacy :: "string option"
  ar_chain :: "string option"
  ar_maxTokens :: "rat option"
  ar_json :: bool

definition validateAgentRunArgs :: "AgentRunOptions \<Rightarrow> string + string" where
  "validateAgentRunArgs opts =
     (let ty = normalize (ar_type opts) in
      if ty = ''task'' \<and> str_truthy (ar_prompt opts) then Inl PROMPT_FOR_TASK
      else if ty = ''llm'' \<and> str_truthy (ar_input opts) then Inl INPUT_FOR_LLM
      else if ty = ''task'' \<and> \<not> str_truthy (ar_taskType opts) then Inl TASK_TYPE_REQUIRED
      else if ty = ''llm'' \<and> \<not> str_truthy (ar_prompt opts) then Inl PROMPT_REQUIRED
      else if ty = ''task'' \<and> \<not> str_truthy (ar_input opts) then Inl INPUT_REQUIRED
      else if ty \<noteq> ''llm'' \<and> ty \<noteq> ''task'' then Inl ''Error: --type must be llm or task.''
      else Inr ty)"

subsection \<open>\<open>lib/config.ts\<close>\<close>

record DispatchConfig =
  dg_mode :: string
  dg_monad :: string
  dg_solana :: string
  dg_keyPath :: string
  dg_capabilities :: "JobType list"
  dg_ollamaUrl :: string
  dg_providerType :: string
  dg_defaultChain :: string
  dg_defaultPolicy :: string
  dg_defaultPrivacy :: string
  dg_userId :: string

definition DEFAULT_CONFIG :: DispatchConfig where
  "DEFAULT_CONFIG =
     \<lparr>dg_mode = ''both'', dg_monad = ''http://localhost:4010'', dg_solana = ''http://localhost:4020'',
      dg_keyPath = ''./data/worker-key.json'', dg_capabilities = [LLM_INFER, TASK],
      dg_ollamaUrl = ''http://localhost:11434'', dg_providerType = ''DESKTOP'', dg_defaultChain = ''monad'',
      dg_defaultPolicy = ''AUTO'', dg_defaultPrivacy = ''PUBLIC'', dg_userId = ''cli-00000000''\<rparr>"

text \<open>The process: its directories and the \<open>--config\<close> option, kept in \<open>overridePath\<close>.\<close>

record cli_env =
  ce_cwd :: string
  ce_home :: string
  ce_overridePath :: "string option"

definition setConfigOverride :: "string option \<Rightarrow> cli_env \<Rightarrow> cli_env" where
  "setConfigOverride configPath E = E\<lparr>ce_overridePath := configPath\<rparr>"

definition CONFIG_FILE :: string where
  "CONFIG_FILE = ''.dispatchrc''"

definition existingPath :: "cli_env \<Rightarrow> files \<Rightarrow> string \<Rightarrow> string option" where
  "existingPath E fs candidate =
     (let resolved = path_resolve (ce_cwd E) candidate in if fs resolved \<noteq> None then Some resolved else None)"

definition resolveConfigPath :: "cli_env \<Rightarrow> files \<Rightarrow> string option \<Rightarrow> string option" where
  "resolveConfigPath E fs explicit =
     (let forced = (case explicit of Some p \<Rightarrow> Some p | None \<Rightarrow> ce_overridePath E) in
      if str_truthy forced then existingPath E fs (the forced)
      else case existingPath E fs (path_join (ce_cwd E) CONFIG_FILE) of
        Some cwdPath \<Rightarrow> Some cwdPath
      | None \<Rightarrow> existingPath E fs (path_join (ce_home E) CONFIG_FILE))"

definition getConfigPath :: "cli_env \<Rightarrow> files \<Rightarrow> string" where
  "getConfigPath E fs = orelse (resolveConfigPath E fs None) (path_join (ce_cwd E) CONFIG_FILE)"

definition mistyped :: string where
  "mistyped = ''TypeError''"

definition string_field :: "json option \<Rightarrow> string \<Rightarrow> string + string" where
  "string_field v d =
     (case v of None \<Rightarrow> Inr d | Some JNull \<Rightarrow> Inr d | Some (JStr s) \<Rightarrow> Inr s | _ \<Rightarrow> Inl mistyped)"

definition as_jobtype :: "json \<Rightarrow> string + JobType" where
  "as_jobtype v =
     (case v of
        JStr s \<Rightarrow> (case jobtype_of_string s of Some t \<Rightarrow> Inr t | None \<Rightarrow> Inl mistyped)
      | _ \<Rightarrow> Inl mistyped)"

definition jobtypes_field :: "json option \<Rightarrow> JobType list \<Rightarrow> string + JobType list" where
  "jobtypes_field v d =
     (case v of None \<Rightarrow> Inr d | Some JNull \<Rightarrow> Inr d | Some (JArr vs) \<Rightarrow> mapR as_jobtype vs | _ \<Rightarrow> Inl mistyped)"

definition mergeDefaults :: "json \<Rightarrow> string + DispatchConfig" where
  "mergeDefaults partial =
     (let member = (\<lambda>a b. Option.bind (json_field a partial) (json_field b)) in
      if partial = JNull then Inl (null_access ''mode'')
      else
        bindR (string_field (json_field ''mode'' partial) (dg_mode DEFAULT_CONFIG)) (\<lambda>mode.
        bindR (string_field (member ''coordinator'' ''monad'') (dg_monad DEFAULT_CONFIG)) (\<lambda>monad.
        bindR (string_field (member ''coordinator'' ''solana'') (dg_solana DEFAULT_CONFIG)) (\<lambda>solana.
        bindR (string_field (member ''worker'' ''keyPath'') (dg_keyPath DEFAULT_CONFIG)) (\<lambda>keyPath.
        bindR (jobtypes_field (member ''worker'' ''capabilities'') (dg_capabilities DEFAULT_CONFIG)) (\<lambda>capabilities.
        bindR (string_field (member ''worker'' ''ollamaUrl'') (dg_ollamaUrl DEFAULT_CONFIG)) (\<lambda>ollamaUrl.
        bindR (string_field (member ''worker'' ''providerType'') (dg_providerType DEFAULT_CONFIG)) (\<lambda>providerType.
        bindR (string_field (member ''agent'' ''defaultChain'') (dg_defaultChain DEFAULT_CONFIG)) (\<lambda>defaultChain.
        bindR (string_field (member ''agent'' ''defaultPolicy'') (dg_defaultPolicy DEFAULT_CONFIG)) (\<lambda>defaultPolicy.
        bindR (string_field (member ''agent'' ''defaultPrivacy'') (dg_defaultPrivacy DEFAULT_CONFIG)) (\<lambda>defaultPrivacy.
        bindR (string_field (member ''agent'' ''userId'') (dg_userId DEFAULT_CONFIG)) (\<lambda>userId.
          Inr \<lparr>dg_mode = mode, dg_monad = monad, dg_solana = solana, dg_keyPath = keyPath,
               dg_capabilities = capabilities, dg_ollamaUrl = ollamaUrl, dg_providerType = providerType,
               dg_defaultChain = defaultChain, dg_defaultPolicy = defaultPolicy,
               dg_defaultPrivacy = defaultPrivacy, dg_userId = userId\<rparr>))))))))))))"

definition loadConfig :: "cli_env \<Rightarrow> files \<Rightarrow> string option \<Rightarrow> string + DispatchConfig" where
  "loadConfig E fs explicitPath =
     (case resolveConfigPath E fs explicitPath of
        None \<Rightarrow> Inl NO_CONFIG
      | Some configPath \<Rightarrow>
          (case JSON_parse (the (fs configPath)) of
             None \<Rightarrow> Inl (''Invalid JSON in '' @ configPath)
           | Some parsed \<Rightarrow> mergeDefaults parsed))"

text \<open>The object literal a configuration is, members in the order of \<open>init.ts\<close>.\<close>

definition config_json :: "DispatchConfig \<Rightarrow> json" where
  "config_json c = JObj
     [(''mode'', JStr (dg_mode c)),
      (''coordinator'', JObj [(''monad'', JStr (dg_monad c)), (''solana'', JStr (dg_solana c))]),
      (''worker'', JObj [(''keyPath'', JStr (dg_keyPath c)), (''capabilities'', JArr (map (JStr \<circ> jobtype_string) (dg_capabilities c))),
         (''ollamaUrl'', JStr (dg_ollamaUrl c)), (''providerType'', JStr (dg_providerType c))]),
      (''agent'', JObj [(''defaultChain'', JStr (dg_defaultChain c)), (''defaultPolicy'', JStr (dg_defaultPolicy c)),
         (''defaultPrivacy'', JStr (dg_defaultPrivacy c)), (''userId'', JStr (dg_userId c))])]"

definition saveConfig :: "(rat \<Rightarrow> string) \<Rightarrow> cli_env \<Rightarrow> DispatchConfig \<Rightarrow> string option \<Rightarrow> files \<Rightarrow> files" where
  "saveConfig ns E config targetPath fs =
     (let configPath = path_resolve (ce_cwd E) (orelse targetPath (getConfigPath E fs)) in
      fs(configPath \<mapsto> stringify2 ns (config_json config) @ [CHR 0x0A]))"

definition getDefaultConfig :: "string + DispatchConfig" where
  "getDefaultConfig = mergeDefaults (JObj [])"

subsection \<open>\<open>lib/coordinator-client.ts\<close>\<close>

definition buildUrl :: "string \<Rightarrow> string \<Rightarrow> string + string" where
  "buildUrl baseUrl route =
     new_URL route (if baseUrl \<noteq> [] \<and> last baseUrl = CHR ''/'' then baseUrl else baseUrl @ ''/'')"

text \<open>\<open>typeof data === "object" && data !== null\<close>, and \<open>"error" in data\<close>.\<close>

fun is_object :: "json \<Rightarrow> bool" where
  "is_object (JArr _) = True"
| "is_object (JObj _) = True"
| "is_object _ = False"

definition error_data :: "string \<Rightarrow> json" where
  "error_data t =
     (if t \<noteq> [] then (case JSON_parse t of Some v \<Rightarrow> v | None \<Rightarrow> JStr t) else JNull)"

definition nullish :: "json option \<Rightarrow> json \<Rightarrow> json" where
  "nullish v d = (case v of None \<Rightarrow> d | Some JNull \<Rightarrow> d | Some x \<Rightarrow> x)"

definition response_error :: "(rat \<Rightarrow> string) \<Rightarrow> http_response \<Rightarrow> string" where
  "response_error ns res =
     (let t = hr_body res; data = error_data t in
      if hr_status res = 402 then PAYMENT_REQUIRED
      else if hr_status res = 422 then
        (let errorCode = (if is_object data then js_String ns (nullish (json_field ''error'' data) (JStr [])) else []) in
         if errorCode = ''no_trusted_worker'' then NO_TRUSTED_WORKER
         else ''Unprocessable entity: '' @ (if errorCode \<noteq> [] then errorCode else ''unknown''))
      else if hr_status res = 404 then ''Requested resource not found.''
      else (case json_field ''error'' data of
              Some e \<Rightarrow> js_String ns e
            | None \<Rightarrow> ''HTTP '' @ nat_text (hr_status res) @ '': '' @ (case data of JStr s \<Rightarrow> s | _ \<Rightarrow> t)))"

definition requestJson ::
  "'w net \<Rightarrow> string \<Rightarrow> string \<Rightarrow> string \<Rightarrow> (string \<times> string) list \<Rightarrow> string option \<Rightarrow> ('w, json) io" where
  "requestJson N coordinatorUrl route meth headers body =
     io_bind (io_lift (buildUrl coordinatorUrl route)) (\<lambda>url.
     io_bind (io_catch (io_call (n_fetch N \<lparr>rq_method = meth, rq_url = url, rq_headers = headers, rq_body = body\<rparr>))
               (\<lambda>_. io_throw (coordinatorUnreachableMessage coordinatorUrl))) (\<lambda>response.
       if \<not> hr_ok response then io_throw (response_error (n_ns N) response)
       else io_lift (hr_json response)))"

definition getHealth :: "'w net \<Rightarrow> string \<Rightarrow> ('w, json) io" where
  "getHealth N coordinatorUrl = requestJson N coordinatorUrl ''/v1/health'' ''GET'' [] None"

definition getQuote :: "'w net \<Rightarrow> string \<Rightarrow> JobType \<Rightarrow> Policy \<Rightarrow> ('w, json) io" where
  "getQuote N coordinatorUrl jobType policy =
     requestJson N coordinatorUrl
       (''/v1/quote?job_type='' @ jobtype_string jobType @ ''&policy='' @ policy_string policy) ''GET'' [] None"

definition getJobStatus :: "'w net \<Rightarrow> string \<Rightarrow> string \<Rightarrow> ('w, json) io" where
  "getJobStatus N coordinatorUrl jobId =
     requestJson N coordinatorUrl (''/v1/jobs/'' @ encodeURIComponent jobId) ''GET'' [] None"

definition claimTrustPairing :: "'w net \<Rightarrow> string \<Rightarrow> string \<Rightarrow> string \<Rightarrow> ('w, json) io" where
  "claimTrustPairing N coordinatorUrl pairingCode providerPubkey =
     requestJson N coordinatorUrl ''/v1/trust/claim'' ''POST'' [(''Content-Type'', ''application/json'')]
       (Some (stringify (n_ns N) (JObj [(''pairing_code'', JStr pairingCode), (''provider_pubkey'', JStr providerPubkey)])))"

subsection \<open>Commands\<close>

datatype cli_exit =
    CliDone string "(string \<times> string) list" \<comment> \<open>stdout, \<open>keyValue\<close> lines\<close>
  | CliError string

definition printCommandError :: "string \<Rightarrow> cli_exit" where
  "printCommandError message = CliError (if startsWith message ''Error:'' then message else ''Error: '' @ message)"

definition command :: "('w, string \<times> (string \<times> string) list) io \<Rightarrow> ('w, cli_exit) io" where
  "command m =
     io_catch (io_bind m (\<lambda>(out, lines). io_return (CliDone out lines))) (\<lambda>e. io_return (printCommandError e))"

definition nl :: "string \<Rightarrow> string" where
  "nl s = s @ [CHR 0x0A]"

definition coordinator_for :: "DispatchConfig \<Rightarrow> chain \<Rightarrow> string" where
  "coordinator_for config ch = (case ch of Monad \<Rightarrow> dg_monad config | Solana \<Rightarrow> dg_solana config)"

paragraph \<open>\<open>agent quote\<close>\<close>

record AgentQuoteOptions =
  aq_type :: string
  aq_policy :: "string option"
  aq_chain :: "string option"
  aq_json :: bool

definition quote_handler :: "'w net \<Rightarrow> cli_env \<Rightarrow> files \<Rightarrow> AgentQuoteOptions \<Rightarrow> ('w, cli_exit) io" where
  "quote_handler N E fs opts = command
     (io_bind (io_lift (loadConfig E fs None)) (\<lambda>config.
      io_bind (io_lift (mapChain (orelse (aq_chain opts) (dg_defaultChain config)))) (\<lambda>ch.
      io_bind (io_lift (mapPolicy (orelse (aq_policy opts) (dg_defaultPolicy config)))) (\<lambda>policy.
      io_bind (io_lift (mapJobType (aq_type opts))) (\<lambda>jobType.
      io_bind (getQuote N (coordinator_for config ch) jobType policy) (\<lambda>quote.
        if aq_json opts then io_return (nl (stringify2 (n_ns N) quote), [])
        else
          io_bind (io_lift (js_get ''price'' quote)) (\<lambda>price.
            let t = js_text (n_ns N) in
            io_return (nl (''Price: '' @ t price) @ nl (''Endpoint: '' @ t (json_field ''endpoint'' quote)) @
              nl (''Policy: '' @ t (json_field ''policy_resolved'' quote)) @
              nl (''Network: '' @ t (json_field ''network'' quote)), []))))))))"

paragraph \<open>\<open>agent status\<close>\<close>

record AgentStatusOptions =
  as_coordinator :: "string option"
  as_chain :: "string option"
  as_json :: bool
  as_poll :: bool

definition final_status :: "json option \<Rightarrow> bool" where
  "final_status st \<longleftrightarrow> st = Some (JStr ''completed'') \<or> st = Some (JStr ''failed'')"

partial_function (option) status_poll ::
  "'w net \<Rightarrow> string \<Rightarrow> string \<Rightarrow> json \<Rightarrow> 'w \<Rightarrow> ((string + json) \<times> 'w) option" where
  "status_poll N coordinator jobId status w =
     (case js_get ''status'' status of
        Inl e \<Rightarrow> Some (Inl e, w)
      | Inr st \<Rightarrow>
          if final_status st then Some (Inr status, w)
          else
            (case getJobStatus N coordinator jobId (n_sleep N 1000 w) of
               None \<Rightarrow> None
             | Some (Inl e, w1) \<Rightarrow> Some (Inl e, w1)
             | Some (Inr status1, w1) \<Rightarrow> status_poll N coordinator jobId status1 w1))"

definition writeHumanStatus :: "(rat \<Rightarrow> string) \<Rightarrow> json \<Rightarrow> string + string" where
  "writeHumanStatus ns status =
     bindR (js_get ''id'' status) (\<lambda>i.
       Inr (nl (''Job: '' @ js_text ns i) @ nl (''Status: '' @ js_text ns (json_field ''status'' status)) @
         (if field_truthy ''completed_at'' status then nl (''Completed: '' @ js_text ns (json_field ''completed_at'' status)) else []) @
         (case json_field ''result'' status of
            Some r \<Rightarrow> if r \<noteq> JNull then nl (''Result: '' @ stringify ns r) else [] | None \<Rightarrow> []) @
         (if field_truthy ''receipt'' status then nl (''Receipt: '' @ js_stringify ns (json_field ''receipt'' status)) else [])))"

definition status_handler :: "'w net \<Rightarrow> cli_env \<Rightarrow> files \<Rightarrow> string \<Rightarrow> AgentStatusOptions \<Rightarrow> ('w, cli_exit) io" where
  "status_handler N E fs jobId opts = command
     (io_bind (io_lift (loadConfig E fs None)) (\<lambda>config.
      io_bind (io_lift (mapChain (orelse (as_chain opts) (dg_defaultChain config)))) (\<lambda>ch.
      let coordinator = orelse (as_coordinator opts) (coordinator_for config ch) in
      io_bind (getJobStatus N coordinator jobId) (\<lambda>status0.
      io_bind (if as_poll opts then status_poll N coordinator jobId status0 else io_return status0) (\<lambda>status.
        if as_json opts then io_return (nl (stringify2 (n_ns N) status), [])
        else io_bind (io_lift (writeHumanStatus (n_ns N) status)) (\<lambda>out. io_return (out, [])))))))"

paragraph \<open>\<open>agent run\<close>\<close>

definition formatReceipt :: "(rat \<Rightarrow> string) \<Rightarrow> json option \<Rightarrow> string" where
  "formatReceipt ns receipt =
     (case receipt of
        None \<Rightarrow> ''none''
      | Some r \<Rightarrow>
          if \<not> is_object r then ''none''
          else
            (let hash = js_String ns (nullish (json_field ''output_hash'' r) (JStr []));
                 worker = js_String ns (nullish (json_field ''provider_pubkey'' r) (JStr [])) in
             if hash = [] \<or> worker = [] then stringify ns r
             else ''hash='' @ js_slice0 8 hash @ ''... worker='' @ js_slice0 8 worker @ ''...''))"

definition writeResultPayload :: "(rat \<Rightarrow> string) \<Rightarrow> json option \<Rightarrow> string" where
  "writeResultPayload ns out =
     nl (case out of
           Some (JStr s) \<Rightarrow> s
         | Some v \<Rightarrow> (case json_field ''text'' v of Some t \<Rightarrow> js_String ns t | None \<Rightarrow> stringify2 ns v)
         | None \<Rightarrow> ''undefined'')"

definition mapRunError :: "string \<Rightarrow> string \<Rightarrow> string \<Rightarrow> string" where
  "mapRunError message ty coordinatorUrl =
     (if str_includes message ''HTTP 402'' \<or> str_includes message ''x402 payment required'' then PAYMENT_REQUIRED
      else if str_includes message ''no_trusted_worker'' then NO_TRUSTED_WORKER
      else if str_includes message ''timed out'' then (if ty = ''llm'' then JOB_TIMEOUT_60 else JOB_TIMEOUT_30)
      else if str_includes message ''fetch failed'' \<or> str_includes message ''Cannot reach coordinator'' then
        coordinatorUnreachableMessage coordinatorUrl
      else message)"

text \<open>\<open>opts.prompt!\<close>: the option after the checks of \<open>validateAgentRunArgs\<close>.\<close>

definition unwrap :: "string option \<Rightarrow> string" where
  "unwrap v = orelse v ''undefined''"

definition run_router :: "DispatchConfig \<Rightarrow> 'w ComputeRouterConfig" where
  "run_router config =
     \<lparr>rc_monadUrl = dg_monad config, rc_solanaUrl = dg_solana config, rc_preferredHosted = None,
      rc_monadX402 = None, rc_solanaX402 = None\<rparr>"

definition run_job ::
  "'w net \<Rightarrow> DispatchConfig \<Rightarrow> AgentRunOptions \<Rightarrow> JobType \<Rightarrow> chain \<Rightarrow> Policy \<Rightarrow> PrivacyClass \<Rightarrow> ('w, ComputeResult) io" where
  "run_job N config opts jobType ch policy privacy =
     (if jobType = LLM_INFER then
        router_runLLM N (run_router config)
          \<lparr>lo_prompt = unwrap (ar_prompt opts), lo_max_tokens = Some (orelse (ar_maxTokens opts) 256),
           lo_policy = Some policy, lo_privacy = Some privacy, lo_user_id = dg_userId config, lo_chainPreference = Some ch\<rparr>
      else
        io_bind (io_lift (mapTaskType (unwrap (ar_taskType opts)))) (\<lambda>taskType.
          router_runTask N (run_router config)
            \<lparr>to_task_type = taskType, to_input = unwrap (ar_input opts), to_policy = Some policy,
             to_privacy = Some privacy, to_user_id = dg_userId config, to_chainPreference = Some ch\<rparr>))"

definition run_output :: "(rat \<Rightarrow> string) \<Rightarrow> AgentRunOptions \<Rightarrow> ComputeResult \<Rightarrow> cli_exit" where
  "run_output ns opts result =
     CliDone
       (if ar_json opts then
          nl (stringify2 ns (obj_defined [(''result'', cr_output result), (''route'', Some (JStr (cr_route result))),
            (''price'', cr_price result), (''latency_ms'', Some (JNum (of_int (cr_latency_ms result)))),
            (''receipt'', cr_receipt result)]))
        else writeResultPayload ns (cr_output result))
       [(''Route:'', cr_route result), (''Price:'', js_String ns (nullish (cr_price result) (JStr ''n/a''))),
        (''Latency:'', ns (of_int (cr_latency_ms result)) @ ''ms''), (''Receipt:'', formatReceipt ns (cr_receipt result))]"

definition run_error :: "AgentRunOptions \<Rightarrow> string \<Rightarrow> cli_exit" where
  "run_error opts message =
     (let fallbackCoordinator =
            (if map_option js_lower (ar_chain opts) = Some ''solana'' then ''http://localhost:4020'' else ''http://localhost:4010'') in
      printCommandError (mapRunError message (js_lower (ar_type opts)) fallbackCoordinator))"

definition run_handler :: "'w net \<Rightarrow> cli_env \<Rightarrow> files \<Rightarrow> AgentRunOptions \<Rightarrow> ('w, cli_exit) io" where
  "run_handler N E fs opts =
     io_catch
       (io_bind (io_lift (loadConfig E fs None)) (\<lambda>config.
        io_bind (io_lift (validateAgentRunArgs opts)) (\<lambda>ty.
        io_bind (io_lift (mapChain (orelse (ar_chain opts) (dg_defaultChain config)))) (\<lambda>ch.
        io_bind (io_lift (mapPolicy (orelse (ar_policy opts) (dg_defaultPolicy config)))) (\<lambda>policy.
        io_bind (io_lift (mapPrivacy (orelse (ar_privacy opts) (dg_defaultPrivacy config)))) (\<lambda>privacy.
        io_bind (io_lift (mapJobType ty)) (\<lambda>jobType.
        io_bind (run_job N config opts jobType ch policy privacy) (\<lambda>result.
          io_return (run_output (n_ns N) opts result)))))))))
       (\<lambda>message. io_return (run_error opts message))"

paragraph \<open>\<open>init\<close>\<close>

text \<open>The world is what is still to be typed: a question without an answer waits for ever.\<close>

definition ask :: "string \<Rightarrow> (string list, string) io" where
  "ask fallback answers =
     (case answers of
        [] \<Rightarrow> None
      | a # rest \<Rightarrow> (let response = js_trim a in Some (Inr (if js_length response > 0 then response else fallback), rest)))"

fun chain_string :: "chain \<Rightarrow> string" where
  "chain_string Monad = ''monad''"
| "chain_string Solana = ''solana''"

definition init_worker :: "string \<Rightarrow> (string list, string \<times> JobType list) io" where
  "init_worker mode =
     (if mode = ''worker'' \<or> mode = ''both'' then
        io_bind (ask ''http://localhost:11434'') (\<lambda>ollamaUrl.
        io_bind (ask ''LLM_INFER,TASK'') (\<lambda>c.
        io_bind (io_lift (mapCapabilities c)) (\<lambda>capabilities. io_return (ollamaUrl, capabilities))))
      else io_return (''http://localhost:11434'', [LLM_INFER, TASK]))"

definition init_agent :: "string \<Rightarrow> (string list, chain \<times> Policy) io" where
  "init_agent mode =
     (if mode = ''agent'' \<or> mode = ''both'' then
        io_bind (ask ''monad'') (\<lambda>c.
        io_bind (io_lift (mapChain c)) (\<lambda>defaultChain.
        io_bind (ask ''auto'') (\<lambda>p.
        io_bind (io_lift (mapPolicy p)) (\<lambda>defaultPolicy. io_return (defaultChain, defaultPolicy)))))
      else io_return (Monad, AUTO))"

definition init_record :: "string \<Rightarrow> string \<Rightarrow> string \<Rightarrow> string \<times> JobType list \<Rightarrow> chain \<times> Policy \<Rightarrow> string \<Rightarrow> DispatchConfig" where
  "init_record mode monadCoordinator solanaCoordinator worker agent userHex =
     \<lparr>dg_mode = mode, dg_monad = monadCoordinator, dg_solana = solanaCoordinator,
      dg_keyPath = ''./data/worker-key.json'', dg_capabilities = snd worker, dg_ollamaUrl = fst worker,
      dg_providerType = ''DESKTOP'', dg_defaultChain = chain_string (fst agent),
      dg_defaultPolicy = policy_string (snd agent), dg_defaultPrivacy = ''PUBLIC'', dg_userId = ''cli-'' @ userHex\<rparr>"

definition init_config :: "string \<Rightarrow> (string list, DispatchConfig) io" where
  "init_config userHex =
     io_bind (ask ''both'') (\<lambda>answer.
       let modeInput = js_lower answer;
           mode = (if modeInput \<in> {''worker'', ''agent'', ''both''} then modeInput else ''both'') in
       io_bind (ask ''http://localhost:4010'') (\<lambda>monadCoordinator.
       io_bind (ask ''http://localhost:4020'') (\<lambda>solanaCoordinator.
       io_bind (init_worker mode) (\<lambda>worker.
       io_bind (init_agent mode) (\<lambda>agent.
         io_return (init_record mode monadCoordinator solanaCoordinator worker agent userHex))))))"

definition init_save :: "(rat \<Rightarrow> string) \<Rightarrow> cli_env \<Rightarrow> string \<times> string \<Rightarrow> DispatchConfig \<Rightarrow> files \<Rightarrow> files" where
  "init_save ns E pair config fs =
     saveConfig ns E config (Some (path_join (ce_cwd E) ''.dispatchrc''))
       (saveKeypair ns (path_resolve (ce_cwd E)) (dg_keyPath config) (generateKeypair pair) fs)"

definition init_handler ::
  "(rat \<Rightarrow> string) \<Rightarrow> cli_env \<Rightarrow> string \<times> string \<Rightarrow> string \<Rightarrow> files \<Rightarrow> (string list, cli_exit \<times> files) io" where
  "init_handler ns E pair userHex fs =
     io_catch
       (io_bind (init_config userHex) (\<lambda>config.
          io_return (CliDone [] [(''Config'', path_resolve (ce_cwd E) (path_join (ce_cwd E) ''.dispatchrc'')),
              (''Key file'', path_resolve (ce_cwd E) (dg_keyPath config)), (''User ID'', dg_userId config)],
            init_save ns E pair config fs)))
       (\<lambda>e. io_return (printCommandError e, fs))"

paragraph \<open>\<open>worker start\<close> and \<open>worker status\<close>\<close>

record WorkerStartOptions =
  wo_coordinator :: "string option"
  wo_capabilities :: "string option"
  wo_ollamaUrl :: "string option"
  wo_trustCode :: "string option"
  wo_keyPath :: "string option"

text \<open>The configuration the handler gives to \<open>WorkerRuntime\<close>.\<close>

definition start_config :: "cli_env \<Rightarrow> files \<Rightarrow> WorkerStartOptions \<Rightarrow> string + runtime_config" where
  "start_config E fs opts =
     bindR (loadConfig E fs None) (\<lambda>config.
     bindR (if str_truthy (wo_capabilities opts) then mapCapabilities (the (wo_capabilities opts))
            else Inr (dg_capabilities config)) (\<lambda>capabilities.
       Inr \<lparr>cf_coordinatorUrl = orelse (wo_coordinator opts) (dg_monad config),
            cf_capabilities = (if capabilities \<noteq> [] then capabilities else [LLM_INFER, TASK]),
            cf_ollamaUrl = Some (orelse (wo_ollamaUrl opts) (dg_ollamaUrl config)),
            cf_keyPath = orelse (wo_keyPath opts) (dg_keyPath config),
            cf_trustPairingCode = wo_trustCode opts\<rparr>))"

definition formatUptime :: "nat \<Rightarrow> string" where
  "formatUptime ms =
     (let totalSeconds = ms div 1000;
          hours = totalSeconds div 3600;
          minutes = (totalSeconds mod 3600) div 60;
          seconds = totalSeconds mod 60 in
      if hours > 0 then nat_text hours @ ''h '' @ nat_text minutes @ ''m''
      else if minutes > 0 then nat_text minutes @ ''m '' @ nat_text seconds @ ''s''
      else nat_text seconds @ ''s'')"

definition stats_line :: "int \<Rightarrow> runtime \<Rightarrow> string \<times> string" where
  "stats_line now rt =
     (let (workerId, pubkeyHex, completed, failed, uptime, lastJobAt, status) = rt_getStats now rt in
      (''Jobs:'', nat_text completed @ '' completed | '' @ nat_text failed @ '' failed | Uptime: '' @ formatUptime (nat uptime)))"

text \<open>What the handler prints once \<open>start()\<close> has returned.\<close>

definition start_lines :: "int \<Rightarrow> string \<Rightarrow> runtime \<Rightarrow> (string \<times> string) list" where
  "start_lines now lastJobLine rt =
     (let (workerId, pubkeyHex, completed, failed, uptime, lastJobAt, status) = rt_getStats now rt in
      [(''Public key:'', js_slice0 16 pubkeyHex @ ''...''), (''Coordinator:'', cf_coordinatorUrl (rt_config rt)),
       (''Status:'', ''Registered ('' @ orelse workerId ''unknown'' @ '')''), stats_line now rt, (''Last job:'', lastJobLine)])"

record WorkerStatusOptions =
  wt_coordinator :: "string option"
  wt_pubkey :: "string option"

fun key_error_text :: "key_error \<Rightarrow> string" where
  "key_error_text (NaclError e) = e"
| "key_error_text (WalletError e) = e"
| "key_error_text JsonSyntax = ''SyntaxError''"
| "key_error_text BadKeyFile = mistyped"
| "key_error_text NoSuchFile = ''ENOENT''"
| "key_error_text NotConnected = ''Wallet not connected''"

definition status_key ::
  "(rat \<Rightarrow> string) \<Rightarrow> cli_env \<Rightarrow> string \<times> string \<Rightarrow> string \<Rightarrow> WorkerStatusOptions \<Rightarrow> files \<Rightarrow> string + string \<times> files" where
  "status_key ns E pair keyPath opts fs =
     (case wt_pubkey opts of
        Some pk \<Rightarrow> Inr (pk, fs)
      | None \<Rightarrow> map_sum key_error_text (\<lambda>(k, fs1). (kp_pubkeyHex k, fs1))
                  (cli_loadOrCreateKeypair ns (path_resolve (ce_cwd E)) keyPath pair fs))"

definition worker_status_handler ::
  "'w net \<Rightarrow> cli_env \<Rightarrow> string \<times> string \<Rightarrow> files \<Rightarrow> WorkerStatusOptions \<Rightarrow> ('w, cli_exit \<times> files) io" where
  "worker_status_handler N E pair fs opts =
     (case loadConfig E fs None of
        Inl e \<Rightarrow> io_return (printCommandError e, fs)
      | Inr config \<Rightarrow>
          (let keyPath = dg_keyPath config; coordinator = orelse (wt_coordinator opts) (dg_monad config) in
           case status_key (n_ns N) E pair keyPath opts fs of
             Inl e \<Rightarrow> io_return (printCommandError e, fs)
           | Inr (pubkey, fs1) \<Rightarrow>
               io_bind (command
                 (io_bind (getHealth N coordinator) (\<lambda>health.
                  io_bind (io_lift (js_get ''status'' health)) (\<lambda>st.
                    io_return ([], [(''Public key:'', js_slice0 16 pubkey @ ''...''), (''Key file:'', keyPath),
                      (''Coordinator:'', coordinator),
                      (''Network:'', js_text (n_ns N) st @ '' ('' @ js_text (n_ns N) (json_field ''workers_online'' health) @ '' workers)''),
                      (''Resolved key:'', path_resolve (ce_cwd E) keyPath)]))))) (\<lambda>x. io_return (x, fs1))))"

subsection \<open>Arguments\<close>

lemma normalize_word: "plain_word s \<Longrightarrow> normalize s = map char_lower s"
  by (subgoal_tac "is_ascii s") (auto simp: normalize_def js_trim_plain js_lower_ascii plain_word_def is_ascii_def list_all_iff)

lemma normalize_values:
  "normalize ''llm'' = ''llm''" "normalize ''task'' = ''task''" "normalize ''FAST'' = ''fast''"
  "normalize ''CHEAP'' = ''cheap''" "normalize ''AUTO'' = ''auto''" "normalize ''PUBLIC'' = ''public''"
  "normalize ''PRIVATE'' = ''private''" "normalize ''monad'' = ''monad''" "normalize ''solana'' = ''solana''"
  "normalize ''summarize'' = ''summarize''" "normalize ''classify'' = ''classify''"
  "normalize ''extract_json'' = ''extract_json''" "normalize ''LLM_INFER'' = ''llm_infer''" "normalize ''TASK'' = ''task''"
proof -
  have words: "list_all plain_word [''llm'', ''task'', ''FAST'', ''CHEAP'', ''AUTO'', ''PUBLIC'', ''PRIVATE'', ''monad'',
      ''solana'', ''summarize'', ''classify'', ''extract_json'', ''LLM_INFER'', ''TASK'']"
    by (simp add: plain_word_def byte_nat_def)
  have lower: "map (map char_lower) [''llm'', ''task'', ''FAST'', ''CHEAP'', ''AUTO'', ''PUBLIC'', ''PRIVATE'', ''monad'',
      ''solana'', ''summarize'', ''classify'', ''extract_json'', ''LLM_INFER'', ''TASK''] =
    [''llm'', ''task'', ''fast'', ''cheap'', ''auto'', ''public'', ''private'', ''monad'',
      ''solana'', ''summarize'', ''classify'', ''extract_json'', ''llm_infer'', ''task'']"
    by code_simp
  show "normalize ''llm'' = ''llm''" "normalize ''task'' = ''task''" "normalize ''FAST'' = ''fast''"
    "normalize ''CHEAP'' = ''cheap''" "normalize ''AUTO'' = ''auto''" "normalize ''PUBLIC'' = ''public''"
    "normalize ''PRIVATE'' = ''private''" "normalize ''monad'' = ''monad''" "normalize ''solana'' = ''solana''"
    "normalize ''summarize'' = ''summarize''" "normalize ''classify'' = ''classify''"
    "normalize ''extract_json'' = ''extract_json''" "normalize ''LLM_INFER'' = ''llm_infer''" "normalize ''TASK'' = ''task''"
    using words lower by (simp_all add: normalize_word)
qed

lemma map_printed:
  "mapChain (chain_string c) = Inr c"
  "p \<in> {FAST, CHEAP, AUTO} \<Longrightarrow> mapPolicy (policy_string p) = Inr p"
  "v \<in> {PUBLIC, PRIVATE} \<Longrightarrow> mapPrivacy (privacy_string v) = Inr v"
  "t \<in> {Summarize, Classify, ExtractJson} \<Longrightarrow> mapTaskType (task_string t) = Inr t"
  by (cases c) (auto simp: mapChain_def mapPolicy_def mapPrivacy_def mapTaskType_def normalize_values)

lemma map_results:
  "mapPolicy s = Inr p \<Longrightarrow> p \<in> {FAST, CHEAP, AUTO}"
  "mapPrivacy s = Inr v \<Longrightarrow> v \<in> {PUBLIC, PRIVATE}"
  "mapTaskType s = Inr t \<Longrightarrow> t \<in> {Summarize, Classify, ExtractJson}"
  by (auto simp: mapPolicy_def mapPrivacy_def mapTaskType_def split: if_splits)

lemma validate_iff:
  "validateAgentRunArgs opts = Inr ty \<longleftrightarrow>
     ty = normalize (ar_type opts) \<and>
     (ty = ''llm'' \<and> str_truthy (ar_prompt opts) \<and> \<not> str_truthy (ar_input opts) \<or>
      ty = ''task'' \<and> str_truthy (ar_input opts) \<and> str_truthy (ar_taskType opts) \<and> \<not> str_truthy (ar_prompt opts))"
  by (auto simp: validateAgentRunArgs_def split: if_splits)

lemma mapJobType_validated: "validateAgentRunArgs opts = Inr ty \<Longrightarrow> mapJobType ty = Inr (if ty = ''llm'' then LLM_INFER else TASK)"
  by (auto simp: validate_iff mapJobType_def normalize_values)

lemma str_truthy_unwrap: "str_truthy v \<Longrightarrow> v = Some (unwrap v) \<and> unwrap v \<noteq> []"
  by (cases v) (auto simp: str_truthy_def unwrap_def orelse_def)

text \<open>C34. The checks of the command line make the rest of \<open>agent run\<close> well typed. Arguments that pass
  \<open>validateAgentRunArgs\<close> are exactly an LLM job with a prompt and no input, or a task job with an input and a
  task type and no prompt; for them \<open>mapJobType\<close> succeeds, and the options that the chosen branch reads
  without a check are present and not empty. The mappers return only values of the protocol's
  enums, and take back every value the protocol prints.\<close>

theorem cli_args_typed:
  "(validateAgentRunArgs opts = Inr ty \<longleftrightarrow>
      ty = normalize (ar_type opts) \<and>
      (ty = ''llm'' \<and> str_truthy (ar_prompt opts) \<and> \<not> str_truthy (ar_input opts) \<or>
       ty = ''task'' \<and> str_truthy (ar_input opts) \<and> str_truthy (ar_taskType opts) \<and> \<not> str_truthy (ar_prompt opts))) \<and>
   (validateAgentRunArgs opts = Inr ty \<longrightarrow>
      mapJobType ty = Inr (if ty = ''llm'' then LLM_INFER else TASK) \<and>
      (if ty = ''llm'' then \<exists>p. ar_prompt opts = Some p \<and> p \<noteq> []
       else (\<exists>i. ar_input opts = Some i \<and> i \<noteq> []) \<and> (\<exists>t. ar_taskType opts = Some t \<and> t \<noteq> []))) \<and>
   (\<forall>p. p \<in> {FAST, CHEAP, AUTO} \<longleftrightarrow> (\<exists>s. mapPolicy s = Inr p)) \<and>
   (\<forall>v. v \<in> {PUBLIC, PRIVATE} \<longleftrightarrow> (\<exists>s. mapPrivacy s = Inr v)) \<and>
   (\<forall>t. t \<in> {Summarize, Classify, ExtractJson} \<longleftrightarrow> (\<exists>s. mapTaskType s = Inr t)) \<and>
   (\<forall>c. mapChain (chain_string c) = Inr c)"
proof -
  have typed: "if ty = ''llm'' then \<exists>p. ar_prompt opts = Some p \<and> p \<noteq> []
      else (\<exists>i. ar_input opts = Some i \<and> i \<noteq> []) \<and> (\<exists>t. ar_taskType opts = Some t \<and> t \<noteq> [])"
    if "validateAgentRunArgs opts = Inr ty"
    using that [unfolded validate_iff] str_truthy_unwrap by fastforce
  have "p \<in> {FAST, CHEAP, AUTO} \<longleftrightarrow> (\<exists>s. mapPolicy s = Inr p)" for p
    using map_printed(2) [of p] map_results(1) [of _ p] by blast
  moreover have "v \<in> {PUBLIC, PRIVATE} \<longleftrightarrow> (\<exists>s. mapPrivacy s = Inr v)" for v
    using map_printed(3) [of v] map_results(2) [of _ v] by blast
  moreover have "t \<in> {Summarize, Classify, ExtractJson} \<longleftrightarrow> (\<exists>s. mapTaskType s = Inr t)" for t
    using map_printed(4) [of t] map_results(3) [of _ t] by blast
  ultimately show ?thesis
    using typed mapJobType_validated [of opts ty] map_printed(1) validate_iff [of opts ty] by (intro conjI allI impI) metis+
qed

definition demo_run :: AgentRunOptions where
  "demo_run = \<lparr>ar_type = ''llm'', ar_prompt = Some ''hi'', ar_input = None, ar_taskType = None, ar_policy = None,
     ar_privacy = None, ar_chain = None, ar_maxTokens = None, ar_json = False\<rparr>"

theorem cli_args_typed_witness:
  "validateAgentRunArgs demo_run = Inr ''llm'' \<and> mapJobType ''llm'' = Inr LLM_INFER"
  using cli_args_typed [of demo_run "''llm''"] by (simp add: demo_run_def str_truthy_def normalize_values)

subsection \<open>The configuration file\<close>

lemma mapR_map: "(\<And>x. x \<in> set xs \<Longrightarrow> f (g x) = Inr (h x)) \<Longrightarrow> mapR f (map g xs) = Inr (map h xs)"
  by (induction xs) simp_all

lemma mergeDefaults_config [simp]: "mergeDefaults (config_json c) = Inr c"
proof -
  have "mapR as_jobtype (map (JStr \<circ> jobtype_string) ts) = Inr ts" for ts
    using mapR_map [of ts as_jobtype "JStr \<circ> jobtype_string" id] by (simp add: as_jobtype_def)
  then show ?thesis
    by (simp add: mergeDefaults_def config_json_def json_field_def string_field_def jobtypes_field_def)
qed

lemma json_ok_config: "json_ok ns (config_json c)"
  by (simp add: config_json_def is_index_def is_digit_def byte_nat_def)

lemma load_saved:
  assumes "str_truthy (ce_overridePath E) \<Longrightarrow> False"
    and "fs (path_resolve (ce_cwd E) (path_join (ce_cwd E) CONFIG_FILE)) = Some (stringify2 ns (config_json c) @ [CHR 0x0A])"
  shows "loadConfig E fs None = Inr c"
proof -
  have "JSON_parse (stringify2 ns (config_json c) @ [CHR 0x0A]) = Some (config_json c)"
    by (rule JSON_parse_stringify2 [OF json_ok_config]) (simp add: json_blank_def byte_nat_def)
  with assms show ?thesis by (auto simp: loadConfig_def resolveConfigPath_def existingPath_def)
qed

text \<open>The key file and the configuration file of \<open>init\<close> have different names.\<close>

lemma join_with_snoc: "join_with sep (xs @ [x]) = (if xs = [] then x else join_with sep xs @ sep @ x)"
proof (induction xs rule: induct_list012)
  case (3 a b zs)
  then show ?case by (cases zs) simp_all
qed simp_all

lemma split_on_append: "split_on c (a @ c # b) = split_on c a @ split_on c b"
proof (induction a)
  case (Cons x a)
  have "split_on c a \<noteq> []" by (cases a) (auto split: list.splits)
  with Cons show ?case by (cases "split_on c a") simp_all
qed simp

lemma path_norm_append: "path_norm st (xs @ ys) = path_norm (rev (path_norm st xs)) ys"
  by (induction st xs rule: path_norm.induct) simp_all

lemma last_path_resolve:
  assumes "split_on (CHR ''/'') f = gs @ [g]" and "g \<notin> {[], ''.'', ''..''}"
  shows "last (''/'' @ join_with ''/'' (path_norm [] (split_on (CHR ''/'') (d @ ''/'' @ f)))) = last g"
proof -
  have "path_norm st (xs @ [g]) = path_norm st xs @ [g]" for st xs using assms(2) by (simp add: path_norm_append)
  then have "path_norm [] (split_on (CHR ''/'') (d @ ''/'' @ f)) = path_norm [] (split_on (CHR ''/'') d @ gs) @ [g]"
    using split_on_append [of "CHR ''/''" d f] assms(1) by (simp flip: append_assoc)
  then show ?thesis using assms(2) by (simp add: join_with_snoc)
qed

lemma config_not_key:
  assumes "startsWith cwd ''/''"
  shows "path_resolve cwd (path_join cwd CONFIG_FILE) \<noteq> path_resolve cwd ''./data/worker-key.json''"
proof -
  have abs: "startsWith (cwd @ ''/'' @ ''.dispatchrc'') ''/''" using assms by (cases cwd) (simp_all add: startsWith_def)
  have rel: "\<not> startsWith ''./data/worker-key.json'' ''/''" by (simp add: startsWith_def)
  have "last (path_resolve cwd (path_join cwd CONFIG_FILE)) = last ''.dispatchrc''"
    unfolding path_resolve_def path_join_def CONFIG_FILE_def if_P [OF abs]
    by (rule last_path_resolve [of _ "[]"]) simp_all
  moreover have "last (path_resolve cwd ''./data/worker-key.json'') = last ''worker-key.json''"
    unfolding path_resolve_def if_not_P [OF rel]
    by (rule last_path_resolve [of _ "[''.'', ''data'']"]) simp_all
  moreover have "last ''.dispatchrc'' \<noteq> last ''worker-key.json''" by simp
  ultimately show ?thesis by metis
qed

lemma init_config_typed:
  assumes "init_config hex as = Some (Inr c, bs)"
  shows "dg_keyPath c = ''./data/worker-key.json'' \<and> dg_defaultPrivacy c = privacy_string PUBLIC \<and>
    (\<exists>ch. dg_defaultChain c = chain_string ch) \<and> (\<exists>p \<in> {FAST, CHEAP, AUTO}. dg_defaultPolicy c = policy_string p) \<and>
    dg_capabilities c \<noteq> []"
proof -
  have worker: "snd x \<noteq> []" if "init_worker m as = Some (Inr x, bs)" for m as x bs
    using that by (auto simp: init_worker_def io_bind_Inr mapCapabilities_def bindR_Inr_iff split: if_splits)
  have agent: "snd x \<in> {FAST, CHEAP, AUTO}" if "init_agent m as = Some (Inr x, bs)" for m as x bs
    using that by (auto simp: init_agent_def io_bind_Inr split: if_splits dest: map_results(1))
  from assms obtain m w1 x w2 y w3 mo so where *: "init_worker m w1 = Some (Inr x, w2)" "init_agent m w2 = Some (Inr y, w3)"
    and "io_return (init_record m mo so x y hex) w3 = Some (Inr c, bs)"
    unfolding init_config_def Let_def io_bind_Inr by blast
  then have "c = init_record m mo so x y hex" by simp
  with worker [OF *(1)] agent [OF *(2)] show ?thesis by (auto simp: init_record_def)
qed


definition demo_cli :: cli_env where
  "demo_cli = \<lparr>ce_cwd = ''/home/u'', ce_home = ''/home/u'', ce_overridePath = None\<rparr>"

lemma ask_plain: "plain_word a \<Longrightarrow> ask d (a # as) = Some (Inr a, as)"
  by (simp add: ask_def js_trim_plain plain_word_def js_length_zero flip: neq0_conv)

lemma ask_blank: "ask d ([] # as) = Some (Inr d, as)"
  by (simp add: ask_def js_trim_def trim_chars_def)

lemma demo_init:
  "init_config ''ab'' [''agent'', [], [], ''solana'', ''AUTO''] =
     Some (Inr (init_record ''agent'' ''http://localhost:4010'' ''http://localhost:4020''
       (''http://localhost:11434'', [LLM_INFER, TASK]) (Solana, AUTO) ''ab''), [])"
proof -
  have w: "plain_word ''agent''" "plain_word ''solana''" "plain_word ''AUTO''" by (simp_all add: plain_word_def byte_nat_def)
  have "map char_lower ''agent'' = ''agent''" by code_simp
  moreover have "is_ascii ''agent''" by (simp add: is_ascii_def byte_nat_def)
  ultimately have "js_lower ''agent'' = ''agent''" by (simp only: js_lower_ascii)
  then show ?thesis
    by (simp add: init_config_def io_bind_def ask_plain w ask_blank init_worker_def init_agent_def mapChain_def mapPolicy_def
        normalize_values)
qed


subsection \<open>What \<open>agent run\<close> reports\<close>

lemma mapRunError_all_failed: "mapRunError all_failed ty url = all_failed"
proof -
  have "\<not> (str_includes all_failed ''HTTP 402'' \<or> str_includes all_failed ''x402 payment required'')"
    "\<not> str_includes all_failed ''no_trusted_worker''" "\<not> str_includes all_failed ''timed out''"
    "\<not> (str_includes all_failed ''fetch failed'' \<or> str_includes all_failed ''Cannot reach coordinator'')"
    by code_simp+
  then show ?thesis by (simp add: mapRunError_def)
qed

lemma run_error_all_failed: "run_error opts all_failed = CliError (''Error: '' @ all_failed)"
proof -
  have "\<not> startsWith all_failed ''Error:''" by code_simp
  then show ?thesis by (simp add: run_error_def mapRunError_all_failed printCommandError_def)
qed

lemma run_job_outcome:
  assumes "clock_ok N" and "jobType = TASK \<Longrightarrow> mapTaskType (unwrap (ar_taskType opts)) = Inr tt"
  shows "\<exists>r w'. run_job N config opts jobType ch policy privacy w = Some (r, w') \<and> outcome_ok r"
proof -
  have c: "client_ok N (rc_monadX402 (run_router config))" "client_ok N (rc_solanaX402 (run_router config))"
    by (simp_all add: run_router_def client_ok_def)
  show ?thesis
    using assms(2) router_outcome [OF assms(1) c] by (cases jobType) (simp_all add: run_job_def io_bind_def)
qed

text \<open>C36. \<open>agent run\<close> always ends, and tells the user only one thing about a job that failed. Once the
  configuration is loaded and the arguments are accepted, the command prints the result of the job or the
  message that all compute adapters failed, whatever the coordinator answered: none of the messages
  \<open>mapRunError\<close> has for missing payment, missing trusted workers, time outs and unreachable coordinators
  can appear, because the router hides the cause.\<close>

theorem run_reports_one_error:
  assumes "clock_ok N" and "loadConfig E fs None = Inr config" and "validateAgentRunArgs opts = Inr ty"
    and "mapChain (orelse (ar_chain opts) (dg_defaultChain config)) = Inr ch"
    and "mapPolicy (orelse (ar_policy opts) (dg_defaultPolicy config)) = Inr policy"
    and "mapPrivacy (orelse (ar_privacy opts) (dg_defaultPrivacy config)) = Inr privacy"
    and "ty = ''task'' \<Longrightarrow> mapTaskType (unwrap (ar_taskType opts)) = Inr tt"
  shows "\<exists>x w'. run_handler N E fs opts w = Some (Inr x, w') \<and>
    (x = CliError (''Error: '' @ all_failed) \<or> (\<exists>result. x = run_output (n_ns N) opts result))"
proof -
  let ?jt = "if ty = ''llm'' then LLM_INFER else TASK"
  have "?jt = TASK \<Longrightarrow> ty = ''task''" using assms(3) by (auto simp: validate_iff split: if_splits)
  with assms(7) have "?jt = TASK \<Longrightarrow> mapTaskType (unwrap (ar_taskType opts)) = Inr tt" by blast
  from run_job_outcome [OF assms(1) this] obtain r w' where
    r: "run_job N config opts ?jt ch policy privacy w = Some (r, w')" "outcome_ok r" by blast
  have "run_handler N E fs opts w =
      (case r of Inl e \<Rightarrow> Some (Inr (run_error opts e), w') | Inr x \<Rightarrow> Some (Inr (run_output (n_ns N) opts x), w'))"
    using assms(2-6) mapJobType_validated [OF assms(3)] r(1)
    by (simp add: run_handler_def io_catch_def io_bind_def split: sum.split)
  with r(2) run_error_all_failed [of opts] show ?thesis by (auto simp: outcome_ok_def split: sum.splits)
qed

definition demo_files :: files where
  "demo_files = Map.empty(path_resolve ''/home/u'' (path_join ''/home/u'' CONFIG_FILE) \<mapsto>
     stringify2 int_text (config_json DEFAULT_CONFIG) @ [CHR 0x0A])"

lemma demo_load: "loadConfig demo_cli demo_files None = Inr DEFAULT_CONFIG"
  by (rule load_saved) (simp_all add: demo_cli_def demo_files_def str_truthy_def)

theorem run_reports_one_error_witness:
  "\<exists>x w'. run_handler (demo_net 402) demo_cli demo_files demo_run (0, []) = Some (Inr x, w') \<and>
    (x = CliError (''Error: '' @ all_failed) \<or> (\<exists>result. x = run_output (n_ns (demo_net 402)) demo_run result))"
  by (rule run_reports_one_error [OF demo_clock demo_load, where ty = "''llm''" and ch = Monad and policy = AUTO and privacy = PUBLIC])
    (simp_all add: demo_run_def orelse_def DEFAULT_CONFIG_def validate_iff normalize_values str_truthy_def mapChain_def mapPolicy_def
      mapPrivacy_def)

subsection \<open>Waiting for a job\<close>

lemma status_poll_done: "s \<noteq> JNull \<Longrightarrow> final_status (json_field ''status'' s) \<Longrightarrow> status_poll N c j s w = Some (Inr s, w)"
  by (subst status_poll.simps) (simp add: js_get_def)

lemma status_poll_next:
  "s \<noteq> JNull \<Longrightarrow> \<not> final_status (json_field ''status'' s) \<Longrightarrow>
   getJobStatus N c j (n_sleep N 1000 w) = Some (Inr s1, w1) \<Longrightarrow> status_poll N c j s w = status_poll N c j s1 w1"
  by (subst status_poll.simps) (simp add: js_get_def)

lemma status_poll_waits:
  assumes "\<And>i. ss i \<noteq> JNull" and "\<And>i. \<not> final_status (json_field ''status'' (ss i))"
    and "\<And>i. getJobStatus N c j (n_sleep N 1000 (ws i)) = Some (Inr (ss (Suc i)), ws (Suc i))"
  shows "status_poll N c j (ss 0) (ws 0 :: 'w) = None"
proof (rule ccontr)
  let ?P = "\<lambda>N' c' j' s w (y :: (string + json) \<times> 'w). \<forall>i. \<not> (N' = N \<and> c' = c \<and> j' = j \<and> s = ss i \<and> w = ws i)"
  have never: "?P N' c' j' s w y" if "status_poll N' c' j' s w = Some y" for N' c' j' s w y
    using that
  proof (rule status_poll.raw_induct [rotated, where P = ?P])
    fix f N' c' j' s w y
    assume 1: "\<And>N' c' j' s w y. f N' c' j' s w = Some y \<Longrightarrow> ?P N' c' j' s w y"
      "(case js_get ''status'' s of
          Inl e \<Rightarrow> Some (Inl e, w)
        | Inr st \<Rightarrow>
            if final_status st then Some (Inr s, w)
            else case getJobStatus N' c' j' (n_sleep N' 1000 w) of
                None \<Rightarrow> None | Some (Inl e, w1) \<Rightarrow> Some (Inl e, w1) | Some (Inr s1, w1) \<Rightarrow> f N' c' j' s1 w1) = Some y"
    show "?P N' c' j' s w y"
    proof (intro allI notI)
      fix i
      assume "N' = N \<and> c' = c \<and> j' = j \<and> s = ss i \<and> w = ws i"
      with 1(2) have "f N c j (ss (Suc i)) (ws (Suc i)) = Some y"
        using assms(1,2) [of i] assms(3) [of i] by (simp add: js_get_def)
      from 1(1) [OF this] show False by blast
    qed
  qed
  assume "status_poll N c j (ss 0) (ws 0) \<noteq> None"
  then obtain y where "status_poll N c j (ss 0) (ws 0) = Some y" by blast
  from never [OF this] show False by blast
qed


text \<open>A coordinator that reports the job pending until its second poll, and one that does so for ever.\<close>

definition demo_answer :: "bool \<Rightarrow> json" where
  "demo_answer b = JObj [(''id'', JStr ''j''), (''status'', JStr (if b then ''completed'' else ''pending''))]"

definition demo_coordinator :: "(nat \<Rightarrow> bool) \<Rightarrow> nat net" where
  "demo_coordinator ends =
     \<lparr>n_fetch = \<lambda>rq t. (Inr \<lparr>hr_status = 200, hr_headers = \<lambda>_. None, hr_body = stringify int_text (demo_answer (ends (Suc t)))\<rparr>, Suc t),
      n_now = int, n_sleep = \<lambda>ms t. t, n_openaiKey = None, n_anthropicKey = None,
      n_openai = \<lambda>k v w. (Inl ''none'', w), n_anthropic = \<lambda>k v w. (Inl ''none'', w), n_ns = int_text\<rparr>"

lemma demo_getJobStatus:
  "getJobStatus (demo_coordinator ends) ''http://m'' ''j'' t = Some (Inr (demo_answer (ends (Suc t))), Suc t)"
proof -
  have "json_ok int_text (demo_answer b)" for b by (simp add: demo_answer_def is_index_def is_digit_def byte_nat_def)
  then have "JSON_parse (stringify int_text (demo_answer b)) = Some (demo_answer b)" for b by (rule JSON_parse_stringify)
  moreover have "buildUrl ''http://m'' r = Inr (''http://m'' @ r)" for r
    by (simp add: buildUrl_def new_URL_def startsWith_def url_authority_def)
  ultimately show ?thesis
    by (simp add: getJobStatus_def requestJson_def io_bind_def io_catch_def demo_coordinator_def hr_ok_def hr_json_def)
qed


end
