(* ===== verification/Chains.thy ===== *)
theory Chains
  imports Erc8004 CoordInv Cli
begin

section \<open>The two coordinators\<close>

text \<open>
  \<open>apps/coordinator-monad/src/index.ts\<close> and \<open>apps/coordinator-solana/src/index.ts\<close>: how each coordinator is
  configured, what it reads of reputation and stake, how it posts feedback, and the queue both use to send
  one Monad transaction after the other; \<open>startServer\<close> of \<open>server.ts\<close>; and the command
  \<open>dispatch worker register\<close>, which uses the same registry.

  The queue is modelled at the level of its promises: each queued call waits until the promise of the
  call before it has settled. It refines a server with one job at a time and a waiting line.
\<close>

subsection \<open>Configuration\<close>

type_synonym environ = "string \<Rightarrow> string option"

definition no_overrides :: config_overrides where
  "no_overrides = \<lparr>o_port = None, o_dbPath = None, o_network = None, o_payTo = None, o_facilitatorUrl = None,
     o_asset = None, o_boltEnabled = None, o_boltMint = None\<rparr>"

definition monad_config :: "(string \<Rightarrow> int) \<Rightarrow> environ \<Rightarrow> CoordinatorConfig" where
  "monad_config parseInt env = configFromEnv parseInt env
     (no_overrides\<lparr>o_port := Some (parseInt (orelse (env ''PORT'') ''4010'')),
        o_dbPath := Some (orelse (env ''DB_PATH'') ''./data/monad.db''),
        o_network := Some ''eip155:10143'',
        o_payTo := Some (orelse (env ''MONAD_PAY_TO'') ''0x0000000000000000000000000000000000000000''),
        o_facilitatorUrl := Some (orelse (env ''MONAD_FACILITATOR'') ''https://x402-facilitator.molandak.org''),
        o_asset := Some (orelse (env ''MONAD_USDC'') ''0x534b2f3A21130d7a60830c2Df862319e593943A3'')\<rparr>)"

definition solana_config :: "(string \<Rightarrow> int) \<Rightarrow> environ \<Rightarrow> CoordinatorConfig" where
  "solana_config parseInt env = configFromEnv parseInt env
     (no_overrides\<lparr>o_port := Some (parseInt (orelse (env ''PORT'') ''4020'')),
        o_dbPath := Some (orelse (env ''DB_PATH'') ''./data/solana.db''),
        o_network := Some ''solana:EtWTRABZaYq6iMfeYKouRu166VU2xqa1'',
        o_payTo := Some (orelse (env ''SOLANA_PAY_TO'') ''11111111111111111111111111111111''),
        o_facilitatorUrl := Some (orelse (env ''SOLANA_FACILITATOR'') ''https://www.x402.org/facilitator'')\<rparr>)"

text \<open>The servers, with the parts the environment turns on; \<open>file\<close> is the database file, if there is one.\<close>

definition monad_server :: "environ \<Rightarrow> database option \<Rightarrow> coordinator" where
  "monad_server env file =
     createServer (createDb file) (if str_truthy (env ''ERC8004_PRIVATE_KEY'') then Some True else None)
       (str_truthy (env ''BOLT_MINT'')) None
       (if str_truthy (env ''WBOLT_CONTRACT'') \<and> str_truthy (env ''ERC8004_PRIVATE_KEY'') then Some wbolt_new else None)"

definition solana_server :: "environ \<Rightarrow> database option \<Rightarrow> coordinator" where
  "solana_server env file =
     createServer (createDb file) (if str_truthy (env ''ERC8004_PRIVATE_KEY'') then Some True else None)
       (str_truthy (env ''BOLT_MINT''))
       (if str_truthy (env ''BOLT_MINT'') \<and> str_truthy (env ''BOLT_AUTHORITY_KEYPAIR'') then Some (bolt_new None None) else None)
       None"

text \<open>\<open>startServer\<close>: five seconds after it listens, \<open>AUTO_DEMO\<close> makes the server post to its own demo route.\<close>

definition startServer_timer :: "environ \<Rightarrow> coordinator \<Rightarrow> coordinator" where
  "startServer_timer env c = (if env ''AUTO_DEMO'' = Some ''true'' then startDemoMode c else c)"

lemma servers_start: "co_init (monad_server env None)" "co_init (solana_server env None)"
  unfolding co_init_def monad_server_def solana_server_def by (intro exI conjI; (rule refl)?; simp; blast)+

lemma startServer_reachable: "co_reachable X lands c \<Longrightarrow> co_reachable X lands (startServer_timer env c)"
  by (auto simp: startServer_timer_def intro: reach_step step_demo_start)

subsection \<open>Reputation and stake\<close>

definition pubkeyToAgentId :: "'w viem \<Rightarrow> string \<Rightarrow> string + int" where
  "pubkeyToAgentId V pubkey =
     (case string_BigInt (v_keccak V pubkey) of
        Some n \<Rightarrow> Inr (n mod 2 ^ 128)
      | None \<Rightarrow> Inl (''Cannot convert '' @ v_keccak V pubkey @ '' to a BigInt''))"

definition reputation_score :: "ReputationSummary \<Rightarrow> rat option" where
  "reputation_score summary =
     (if rs_count summary = 0 then None
      else Some (min 100 (max 0 (of_int (rs_summaryValue summary) / 10 ^ rs_summaryValueDecimals summary))))"

definition monad_getReputationScore :: "'w viem \<Rightarrow> ChainConfig \<Rightarrow> string \<Rightarrow> ('w, rat option) io" where
  "monad_getReputationScore V cfg pubkey =
     io_catch
       (io_bind (io_lift (pubkeyToAgentId V pubkey)) (\<lambda>agentId.
        io_bind (getReputationSummary V cfg agentId None None None) (\<lambda>summary. io_return (reputation_score summary))))
       (\<lambda>_. io_return None)"

definition solana_getReputationScore :: "'w viem \<Rightarrow> ChainConfig \<Rightarrow> int \<Rightarrow> string \<Rightarrow> ('w, rat option) io" where
  "solana_getReputationScore V cfg agentId pubkey =
     io_catch (io_bind (getReputationSummary V cfg agentId None None None) (\<lambda>summary. io_return (reputation_score summary)))
       (\<lambda>_. io_return None)"

definition monad_readStakeLevel :: "'w web3 \<Rightarrow> string \<Rightarrow> string \<Rightarrow> ('w, StakeTier) io" where
  "monad_readStakeLevel S boltMint pubkey =
     io_catch
       (io_bind (io_call (w3_balance S boltMint pubkey)) (\<lambda>uiAmount. io_return (stake_tier (orelse uiAmount 0))))
       (\<lambda>_. io_return OPEN)"

definition solana_readStakeLevel :: "'w web3 \<Rightarrow> string \<Rightarrow> string \<Rightarrow> ('w, StakeTier) io" where
  "solana_readStakeLevel S boltMint pubkey =
     io_catch
       (io_bind (io_call (w3_balance S boltMint pubkey)) (\<lambda>uiAmount. io_return (stake_tier (orelse uiAmount 0))))
       (\<lambda>_. io_return OPEN)"

text \<open>The three readers of the stake agree, and give the highest tier the balance reaches.\<close>

lemma stake_readers_agree:
  "monad_readStakeLevel S (bc_boltMint config) pubkey = readStakeLevel S pubkey config"
  "solana_readStakeLevel S mint pubkey = monad_readStakeLevel S mint pubkey"
  by (simp_all add: monad_readStakeLevel_def solana_readStakeLevel_def readStakeLevel_def orelse_def)

lemma stake_tier_highest: "0 \<le> b \<Longrightarrow> STAKE_REQUIREMENTS t \<le> b \<longleftrightarrow> t \<le> stake_tier b"
  by (cases t) (simp_all add: stake_tier_def less_eq_StakeTier_def)

text \<open>A score the coordinators give to the hub lies between 0 and 100, whatever the registry holds.\<close>

lemma reputation_score_range: "reputation_score s = Some r \<Longrightarrow> 0 \<le> r \<and> r \<le> 100"
  by (auto simp: reputation_score_def split: if_splits)

lemma getReputationScore_range:
  "monad_getReputationScore V cfg pk w = Some (Inr (Some r), w') \<Longrightarrow> 0 \<le> r \<and> r \<le> 100"
  "solana_getReputationScore V cfg i pk w = Some (Inr (Some r), w') \<Longrightarrow> 0 \<le> r \<and> r \<le> 100"
  unfolding monad_getReputationScore_def solana_getReputationScore_def io_catch_def
  by (auto simp: io_bind_Inr reputation_score_range split: option.splits sum.splits dest!: reputation_score_range)

text \<open>The Solana coordinator gives every worker the score of one agent.\<close>

lemma solana_score_same_for_all: "solana_getReputationScore V cfg i pk = solana_getReputationScore V cfg i pk'"
  by (simp add: solana_getReputationScore_def)

subsection \<open>The target agent\<close>

fun discover_from :: "'w viem \<Rightarrow> ChainConfig \<Rightarrow> string \<Rightarrow> nat \<Rightarrow> nat \<Rightarrow> ('w, int) io" where
  "discover_from V cfg coordinatorAddress i 0 =
     io_throw (''No target agent found. Need at least one ERC-8004 agent not owned by the coordinator. '' @
       ''Run: npx tsx apps/coordinator-solana/find-agent.ts'')"
| "discover_from V cfg coordinatorAddress i (Suc left) =
     (\<lambda>w. case v_ownerOf V (cc_identityRegistry cfg) (int i) w of
        (Inr owner, w1) \<Rightarrow>
          if js_lower owner \<noteq> js_lower coordinatorAddress then io_return (int i) w1
          else discover_from V cfg coordinatorAddress (Suc i) left w1
      | (Inl _, w1) \<Rightarrow> discover_from V cfg coordinatorAddress i 0 w1)"

definition discoverTargetAgent :: "'w viem \<Rightarrow> ChainConfig \<Rightarrow> string \<Rightarrow> ('w, int) io" where
  "discoverTargetAgent V cfg coordinatorAddress = discover_from V cfg coordinatorAddress 0 31"

subsection \<open>Feedback\<close>

text \<open>What a queued call does once the transaction queue (below) runs it.\<close>

definition feedback_entry :: "int \<Rightarrow> bool \<Rightarrow> string \<Rightarrow> FeedbackEntry" where
  "feedback_entry agentId success endpoint =
     buildJobFeedback agentId (if success then 80 else 20) ''COMPUTE'' endpoint None"

definition monad_postFeedback :: "'w viem \<Rightarrow> ChainConfig \<Rightarrow> string \<Rightarrow> string \<Rightarrow> bool \<Rightarrow> ('w, string) io" where
  "monad_postFeedback V cfg endpoint workerPubkey success =
     io_bind (io_lift (pubkeyToAgentId V workerPubkey)) (\<lambda>agentId.
       giveFeedback V cfg (feedback_entry agentId success endpoint))"

text \<open>The \<open>for\<close> loop of the Solana coordinator: three attempts, with pauses of 2 and 4 seconds.\<close>

fun feedback_attempts :: "'w net \<Rightarrow> 'w viem \<Rightarrow> ChainConfig \<Rightarrow> FeedbackEntry \<Rightarrow> nat \<Rightarrow> nat \<Rightarrow> ('w, string) io" where
  "feedback_attempts N V cfg entry attempt 0 = giveFeedback V cfg entry"
| "feedback_attempts N V cfg entry attempt (Suc left) =
     io_catch (giveFeedback V cfg entry) (\<lambda>_ w.
       feedback_attempts N V cfg entry (Suc attempt) left (n_sleep N (int attempt * 2000) w))"

definition solana_postFeedback :: "'w net \<Rightarrow> 'w viem \<Rightarrow> ChainConfig \<Rightarrow> int \<Rightarrow> string \<Rightarrow> bool \<Rightarrow> ('w, string) io" where
  "solana_postFeedback N V cfg agentId endpoint success =
     feedback_attempts N V cfg (feedback_entry agentId success endpoint) 1 2"

definition coordinator_endpoint :: "environ \<Rightarrow> int \<Rightarrow> string" where
  "coordinator_endpoint env port =
     (if str_truthy (env ''RAILWAY_PUBLIC_DOMAIN'') then ''https://'' @ the (env ''RAILWAY_PUBLIC_DOMAIN'')
      else ''http://localhost:'' @ big_text port)"

text \<open>The search finds the first agent that somebody else owns, if the agents before it exist.\<close>

lemma discover_from_first:
  assumes "\<And>j w. v_ownerOf V (cc_identityRegistry cfg) j w = (case owner j of Some a \<Rightarrow> Inr a | None \<Rightarrow> Inl ''gap'', w)"
  shows "discover_from V cfg me i left w = Some (Inr n, w') \<longleftrightarrow>
    w' = w \<and> (\<exists>k < left. n = int (i + k) \<and> (\<exists>a. owner n = Some a \<and> js_lower a \<noteq> js_lower me) \<and>
      (\<forall>j < k. \<exists>a. owner (int (i + j)) = Some a \<and> js_lower a = js_lower me))"
proof (induction left arbitrary: i)
  case (Suc left)
  show ?case
  proof (cases "owner (int i)")
    case None
    then have "\<not> (\<exists>k < Suc left. n = int (i + k) \<and> (\<exists>a. owner n = Some a \<and> js_lower a \<noteq> js_lower me) \<and>
      (\<forall>j < k. \<exists>a. owner (int (i + j)) = Some a \<and> js_lower a = js_lower me))"
      by (metis add.right_neutral gr0I option.distinct(1))
    with None show ?thesis by (simp add: assms)
  next
    case (Some a)
    show ?thesis
    proof (cases "js_lower a = js_lower me")
      case True
      have "(\<exists>k < Suc left. n = int (i + k) \<and> (\<exists>a. owner n = Some a \<and> js_lower a \<noteq> js_lower me) \<and>
          (\<forall>j < k. \<exists>a. owner (int (i + j)) = Some a \<and> js_lower a = js_lower me)) \<longleftrightarrow>
        (\<exists>k < left. n = int (Suc i + k) \<and> (\<exists>a. owner n = Some a \<and> js_lower a \<noteq> js_lower me) \<and>
          (\<forall>j < k. \<exists>a. owner (int (Suc i + j)) = Some a \<and> js_lower a = js_lower me))"
        using Some True by (auto simp: Ex_less_Suc2 All_less_Suc2 ac_simps)
      then show ?thesis using Some True Suc [of "Suc i"] by (simp add: assms)
    next
      case False
      have "(\<exists>k < Suc left. n = int (i + k) \<and> (\<exists>a. owner n = Some a \<and> js_lower a \<noteq> js_lower me) \<and>
          (\<forall>j < k. \<exists>a. owner (int (i + j)) = Some a \<and> js_lower a = js_lower me)) \<longleftrightarrow> n = int i"
        using Some False by (auto simp: Ex_less_Suc2 All_less_Suc2)
      then show ?thesis using Some False by (auto simp: assms)
    qed
  qed
qed simp

lemma discoverTargetAgent_first:
  assumes "\<And>j w. v_ownerOf V (cc_identityRegistry cfg) j w = (case owner j of Some a \<Rightarrow> Inr a | None \<Rightarrow> Inl ''gap'', w)"
  shows "discoverTargetAgent V cfg me w = Some (Inr n, w) \<longleftrightarrow>
    (\<exists>k \<le> 30. n = int k \<and> (\<exists>a. owner n = Some a \<and> js_lower a \<noteq> js_lower me) \<and>
      (\<forall>j < k. \<exists>a. owner (int j) = Some a \<and> js_lower a = js_lower me))"
  unfolding discoverTargetAgent_def discover_from_first [OF assms] by (auto simp: less_Suc_eq_le [of _ 30, simplified])

subsection \<open>\<open>dispatch worker register\<close>\<close>

record WorkerRegisterOptions =
  wg_name :: "string option"
  wg_endpoint :: "string option"
  wg_skills :: "string option"
  wg_privateKey :: "string option"

definition normalizePrivateKey :: "string \<Rightarrow> string" where
  "normalizePrivateKey value = (if startsWith value ''0x'' then value else ''0x'' @ value)"

definition MISSING_PRIVATE_KEY :: string where
  "MISSING_PRIVATE_KEY = ''Error: Private key required. Use --private-key or set WORKER_PRIVATE_KEY env var.''"

definition registration_uri :: "(rat \<Rightarrow> string) \<Rightarrow> json \<Rightarrow> string" where
  "registration_uri ns file = ''data:application/json;base64,'' @ b64_encode (stringify2 ns file)"

definition register_file :: "ChainConfig \<Rightarrow> DispatchConfig \<Rightarrow> WorkerRegisterOptions \<Rightarrow> json" where
  "register_file cfg config opts =
     (let name = orelse (wg_name opts) ''Dispatch Worker'';
          endpoint = orelse (wg_endpoint opts) (dg_monad config);
          skills = filter (\<lambda>s. s \<noteq> []) (map js_trim (split_on (CHR '','') (orelse (wg_skills opts) ''LLM_INFER,TASK'')))
      in buildRegistrationFile cfg name (''Dispatch compute worker: '' @ name) endpoint skills None)"

text \<open>\<open>account\<close> is \<open>privateKeyToAccount\<close> of \<open>viem\<close>, with the clients that sign with it.\<close>

definition worker_register_handler ::
  "(rat \<Rightarrow> string) \<Rightarrow> (string \<Rightarrow> string + 'w viem) \<Rightarrow> environ \<Rightarrow> cli_env \<Rightarrow> files \<Rightarrow> WorkerRegisterOptions \<Rightarrow> ('w, cli_exit) io" where
  "worker_register_handler ns account env E fs opts = command
     (io_bind (io_lift (loadConfig E fs None)) (\<lambda>config.
        let privateKey = (case wg_privateKey opts of Some k \<Rightarrow> Some k | None \<Rightarrow> env ''WORKER_PRIVATE_KEY'');
            cfg = getChainConfig env in
        if \<not> str_truthy privateKey then io_throw MISSING_PRIVATE_KEY
        else
          io_bind (io_lift (account (normalizePrivateKey (the privateKey)))) (\<lambda>V.
          io_bind (registerAgent V cfg (Some (registration_uri ns (register_file cfg config opts)))) (\<lambda>agentId.
          io_bind (getAgentInfo V cfg agentId) (\<lambda>info.
            io_return ([],
              [(''Network:'', ''Monad Testnet ('' @ chain_id_text (cc_chainId MONAD_TESTNET) @ '')''),
               (''Owner:'', v_address V), (''Agent ID:'', big_text (ai_agentId info)),
               (''Global ID:'', ''eip155:'' @ chain_id_text (cc_chainId MONAD_TESTNET) @ '':'' @
                  cc_identityRegistry MONAD_TESTNET @ ''#'' @ big_text (ai_agentId info))]))))))"

text \<open>What a reader of the registry finds under the URI is the registration file that was built.\<close>

lemma registration_uri_reads:
  "JSON_parse (b64_decode (drop (length ''data:application/json;base64,'') (registration_uri ns (register_file cfg config opts)))) =
     Some (register_file cfg config opts)"
proof -
  have "json_ok ns (register_file cfg config opts)"
    by (simp add: register_file_def buildRegistrationFile_def obj_defined_def Let_def is_index_def is_digit_def byte_nat_def)
  from JSON_parse_stringify2 [OF this, of "[]"] show ?thesis
    by (simp add: registration_uri_def b64_decode_encode json_blank_def)
qed

text \<open>Without a key nothing is sent.\<close>

lemma register_needs_key:
  assumes "loadConfig E fs None = Inr config" and "wg_privateKey opts = None" and "env ''WORKER_PRIVATE_KEY'' \<in> {None, Some []}"
  shows "worker_register_handler ns account env E fs opts w = Some (Inr (CliError MISSING_PRIVATE_KEY), w)"
  using assms by (auto simp: worker_register_handler_def command_def io_catch_def io_bind_def str_truthy_def
    printCommandError_def MISSING_PRIVATE_KEY_def startsWith_def Let_def)

subsection \<open>The queue of Monad transactions\<close>

datatype promise = Waiting | Running | Settled bool \<comment> \<open>fulfilled?\<close>

type_synonym 'f tx_queue = "('f \<times> promise) list"

text \<open>\<open>monadTxQueue.then(fn)\<close>: the call starts once the promise of the call before it has settled, either way.\<close>

definition queueMonadTx :: "'f \<Rightarrow> 'f tx_queue \<Rightarrow> 'f tx_queue" where
  "queueMonadTx fn q = q @ [(fn, Waiting)]"

definition tx_ready :: "'f tx_queue \<Rightarrow> nat \<Rightarrow> bool" where
  "tx_ready q i \<longleftrightarrow>
     i < length q \<and> snd (q ! i) = Waiting \<and> (i = 0 \<or> (case snd (q ! (i - 1)) of Settled _ \<Rightarrow> True | _ \<Rightarrow> False))"

inductive tx_step :: "'f tx_queue \<Rightarrow> 'f tx_queue \<Rightarrow> bool" where
  tx_queue: "tx_step q (queueMonadTx fn q)"
| tx_start: "tx_ready q i \<Longrightarrow> tx_step q (q[i := (fst (q ! i), Running)])"
| tx_settle: "i < length q \<Longrightarrow> snd (q ! i) = Running \<Longrightarrow> tx_step q (q[i := (fst (q ! i), Settled ok)])"

text \<open>The specification: what was served, what is being served, and the waiting line.\<close>

type_synonym 'f server = "('f \<times> bool) list \<times> 'f option \<times> 'f list"

inductive fifo_step :: "'f server \<Rightarrow> 'f server \<Rightarrow> bool" where
  fifo_arrive: "fifo_step (d, c, w) (d, c, w @ [f])"
| fifo_serve: "fifo_step (d, None, f # w) (d, Some f, w)"
| fifo_leave: "fifo_step (d, Some f, w) (d @ [(f, ok)], None, w)"

definition tx_repr :: "'f server \<Rightarrow> 'f tx_queue" where
  "tx_repr s =
     (case s of (d, c, w) \<Rightarrow>
        map (\<lambda>(f, ok). (f, Settled ok)) d @ (case c of None \<Rightarrow> [] | Some f \<Rightarrow> [(f, Running)]) @ map (\<lambda>f. (f, Waiting)) w)"

lemma tx_repr_status:
  "i < length (tx_repr (d, c, w)) \<Longrightarrow>
   snd (tx_repr (d, c, w) ! i) =
     (if i < length d then Settled (snd (d ! i)) else if i = length d \<and> c \<noteq> None then Running else Waiting)"
  by (auto simp: tx_repr_def nth_append split: option.splits prod.splits)

lemma tx_ready_repr: "tx_ready (tx_repr (d, c, w)) i \<longleftrightarrow> i = length d \<and> c = None \<and> w \<noteq> []"
proof -
  have len: "length (tx_repr (d, c, w)) = length d + (if c = None then 0 else 1) + length w"
    by (simp add: tx_repr_def split: option.split)
  show ?thesis
  proof
    assume r: "tx_ready (tx_repr (d, c, w)) i"
    then have i: "i < length (tx_repr (d, c, w))" and wait: "snd (tx_repr (d, c, w) ! i) = Waiting" by (simp_all add: tx_ready_def)
    from wait tx_repr_status [OF i] have after: "length d \<le> i" "i = length d \<Longrightarrow> c = None" by (auto split: if_splits)
    have "i = length d"
    proof (rule ccontr)
      assume "i \<noteq> length d"
      with after have "length d \<le> i - 1" "i \<noteq> 0" "i - 1 < length (tx_repr (d, c, w))" using i by auto
      with r tx_repr_status [of "i - 1" d c w] show False by (auto simp: tx_ready_def split: promise.splits if_splits)
    qed
    with after i len show "i = length d \<and> c = None \<and> w \<noteq> []" by auto
  next
    assume a: "i = length d \<and> c = None \<and> w \<noteq> []"
    then have "i < length (tx_repr (d, c, w))" using len by simp
    then have "i - 1 < length (tx_repr (d, c, w))" by (rule le_less_trans [OF diff_le_self])
    with a \<open>i < _\<close> tx_repr_status [of i d c w] tx_repr_status [of "i - 1" d c w] show "tx_ready (tx_repr (d, c, w)) i"
      by (cases "i = 0") (auto simp: tx_ready_def)
  qed
qed

lemma tx_simulated:
  assumes "tx_step (tx_repr s) q'"
  shows "\<exists>s'. fifo_step s s' \<and> q' = tx_repr s'"
proof -
  obtain d c w where s: "s = (d, c, w)" by (cases s) auto
  from assms [unfolded s] show ?thesis
  proof cases
    case (tx_queue fn)
    then have "q' = tx_repr (d, c, w @ [fn])" by (simp add: queueMonadTx_def tx_repr_def)
    with s show ?thesis by (blast intro: fifo_arrive)
  next
    case (tx_start i)
    then obtain f w' where "i = length d" "c = None" "w = f # w'" unfolding tx_ready_repr by (cases w) auto
    with tx_start have "q' = tx_repr (d, Some f, w')" by (simp add: tx_repr_def list_update_append nth_append)
    with s \<open>c = None\<close> \<open>w = _\<close> show ?thesis by (blast intro: fifo_serve)
  next
    case (tx_settle i ok)
    then have "i = length d" "c \<noteq> None" using tx_repr_status [of i d c w] by (auto split: if_splits)
    then obtain f where "c = Some f" by blast
    with tx_settle \<open>i = _\<close> have "q' = tx_repr (d @ [(f, ok)], None, w)" by (simp add: tx_repr_def list_update_append nth_append)
    with s \<open>c = _\<close> show ?thesis by (blast intro: fifo_leave)
  qed
qed

interpretation txI: inductive_invariant "\<lambda>q. q = []" tx_step
  "\<lambda>q. \<exists>s. reachable (\<lambda>s. s = ([], None, [])) fifo_step s \<and> q = tx_repr s"
proof
  show "\<exists>s. reachable (\<lambda>s. s = ([], None, [])) fifo_step s \<and> q = tx_repr s" if "q = []" for q :: "'a tx_queue"
    using that by (intro exI [of _ "([], None, [])"]) (simp add: reach_init tx_repr_def)
  show "\<exists>s. reachable (\<lambda>s. s = ([], None, [])) fifo_step s \<and> q' = tx_repr s"
    if "\<exists>s. reachable (\<lambda>s. s = ([], None, [])) fifo_step s \<and> q = tx_repr s" and "tx_step q q'" for q q' :: "'a tx_queue"
    using that tx_simulated reach_step by metis
qed

text \<open>C39. The queue of transactions serves one at a time, in the order of the calls. Every state the promises
  of \<open>queueMonadTx\<close> can reach is that of a server with a waiting line: the calls that were settled, at most
  one that runs, then those that wait; every step of the promises is a step of the server. A call that fails
  does not stop the queue: whenever none runs and one waits, the first that waits can start.\<close>

theorem tx_queue_serial:
  assumes "reachable (\<lambda>q. q = []) tx_step q"
  shows "\<exists>s. reachable (\<lambda>s. s = ([], None, [])) fifo_step s \<and> q = tx_repr s \<and>
    (\<forall>q'. tx_step q q' \<longrightarrow> (\<exists>s'. fifo_step s s' \<and> q' = tx_repr s')) \<and>
    (fst (snd s) = None \<and> snd (snd s) \<noteq> [] \<longrightarrow> tx_ready q (length (fst s)))"
proof -
  from txI.reachable_inv [OF assms] obtain s where s: "reachable (\<lambda>s. s = ([], None, [])) fifo_step s" "q = tx_repr s" by blast
  obtain d c w where "s = (d, c, w)" by (cases s) auto
  with s tx_ready_repr [of d c w "length d"] tx_simulated [of s] show ?thesis by auto
qed

theorem tx_queue_serial_witness:
  "\<exists>s. [(''a'', Settled False), (''b'', Waiting)] = tx_repr s \<and> tx_ready [(''a'', Settled False), (''b'', Waiting)] 1 \<and>
     (\<forall>q'. tx_step [(''a'', Settled False), (''b'', Waiting)] q' \<longrightarrow> (\<exists>s'. fifo_step s s' \<and> q' = tx_repr s'))"
proof -
  have "reachable (\<lambda>q. q = []) tx_step (queueMonadTx ''b'' (queueMonadTx ''a'' []))"
    by (rule reach_step [where s = "queueMonadTx ''a'' []"], rule reach_step [where s = "[]"])
      (simp_all add: reach_init tx_queue)
  then have "reachable (\<lambda>q. q = []) tx_step [(''a'', Waiting), (''b'', Waiting)]" by (simp add: queueMonadTx_def)
  from reach_step [OF this tx_start [of _ 0]] have "reachable (\<lambda>q. q = []) tx_step [(''a'', Running), (''b'', Waiting)]"
    by (simp add: tx_ready_def)
  from reach_step [OF this tx_settle [of 0 _ False]] have r: "reachable (\<lambda>q. q = []) tx_step [(''a'', Settled False), (''b'', Waiting)]"
    by simp
  have "tx_ready [(''a'', Settled False), (''b'', Waiting)] 1" by (simp add: tx_ready_def)
  with tx_queue_serial [OF r] show ?thesis by blast
qed

end
