(* ===== verification/Anchor.thy ===== *)
theory Anchor
  imports Chains "HOL-Library.Word"
begin

section \<open>Anchoring receipts on the chains\<close>

text \<open>
  \<open>chain/receiptAnchorer.ts\<close> (the client), the Solana program \<open>receipt_anchor\<close> it calls, and the two
  contracts of the Monad side, \<open>ReceiptAnchor.sol\<close> and \<open>WrappedBolt.sol\<close>.

  The Solana libraries and runtime are parameters: \<open>derive\<close> is \<open>find_program_address\<close>, the members
  of \<open>anchor_env\<close> are the constructors and the RPC call the client uses. \<open>rpc_runs\<close> says what sending
  an instruction may do: nothing, or run the program once. The accounts the program owns are a map from
  addresses to records; a 64-bit time stamp is a \<open>64 word\<close>. The ERC-20 and ownership parts \<open>WrappedBolt\<close>
  inherits are the parameter \<open>open_zeppelin\<close>.
\<close>

subsection \<open>The program \<open>receipt_anchor\<close>\<close>

record ReceiptRecord =
  rr_job_id :: string
  rr_provider_pubkey :: string
  rr_receipt_hash :: string
  rr_completed_at :: "64 word"
  rr_anchor :: string

type_synonym receipts = "string \<Rightarrow> ReceiptRecord option"

datatype ReceiptError = JobIdTooLong | ReceiptHashTooLong | ConstraintSeeds | AlreadyInUse

definition SIZE :: nat where
  "SIZE = 8 + (4 + 64) + 32 + (4 + 64) + 8 + 32"

record anchor_args =
  aa_job_id :: string
  aa_receipt_hash :: string
  aa_provider_pubkey :: string
  aa_completed_at :: "64 word"

text \<open>The address check and the creation of the account come from the attributes of \<open>AnchorReceipt\<close>.\<close>

definition AnchorReceipt :: "(string list \<Rightarrow> string + string) \<Rightarrow> string \<Rightarrow> string \<Rightarrow> receipts \<Rightarrow> ReceiptError + unit" where
  "AnchorReceipt derive receipt_record job_id L =
     (if derive [''receipt'', job_id] \<noteq> Inr receipt_record then Inl ConstraintSeeds
      else if L receipt_record \<noteq> None then Inl AlreadyInUse
      else Inr ())"

definition anchor_receipt ::
  "(string list \<Rightarrow> string + string) \<Rightarrow> string \<Rightarrow> string \<Rightarrow> anchor_args \<Rightarrow> receipts \<Rightarrow> ReceiptError + receipts" where
  "anchor_receipt derive receipt_record payer args L =
     bindR (AnchorReceipt derive receipt_record (aa_job_id args) L) (\<lambda>_.
       if \<not> length (aa_job_id args) \<le> 64 then Inl JobIdTooLong
       else if \<not> length (aa_receipt_hash args) \<le> 64 then Inl ReceiptHashTooLong
       else Inr (L(receipt_record \<mapsto>
         \<lparr>rr_job_id = aa_job_id args, rr_provider_pubkey = aa_provider_pubkey args,
          rr_receipt_hash = aa_receipt_hash args, rr_completed_at = aa_completed_at args, rr_anchor = payer\<rparr>)))"

text \<open>The bytes of a serialised record: the discriminator, the two strings with their lengths, two keys
  of 32 bytes and the time stamp.\<close>

definition record_bytes :: "ReceiptRecord \<Rightarrow> nat" where
  "record_bytes r = 8 + (4 + length (rr_job_id r)) + 32 + (4 + length (rr_receipt_hash r)) + 8 + 32"

lemma anchor_receipt_ok:
  "anchor_receipt derive pda payer args L = Inr L' \<longleftrightarrow>
     derive [''receipt'', aa_job_id args] = Inr pda \<and> L pda = None \<and>
     length (aa_job_id args) \<le> 64 \<and> length (aa_receipt_hash args) \<le> 64 \<and>
     L' = L(pda \<mapsto> \<lparr>rr_job_id = aa_job_id args, rr_provider_pubkey = aa_provider_pubkey args,
       rr_receipt_hash = aa_receipt_hash args, rr_completed_at = aa_completed_at args, rr_anchor = payer\<rparr>)"
  by (auto simp: anchor_receipt_def AnchorReceipt_def)

subsection \<open>The client \<open>anchorReceipt\<close>\<close>

record AnchorReceiptParams =
  ap_jobId :: string
  ap_providerPubkey :: string
  ap_receiptHash :: string
  ap_completedAt :: rat

definition PROGRAM_ID_STR :: string where
  "PROGRAM_ID_STR = ''11111111111111111111111111111111''"

record 'w anchor_env =
  an_import :: "string + unit" \<comment> \<open>the optional packages\<close>
  an_keypairPath :: "string option"
  an_files :: files
  an_fromSecretKey :: "string \<Rightarrow> string + string" \<comment> \<open>the public key\<close>
  an_PublicKey :: "string \<Rightarrow> string + string"
  an_Program :: "string \<Rightarrow> string + unit" \<comment> \<open>from the inline IDL\<close>
  an_derive :: "string list \<Rightarrow> string + string" \<comment> \<open>for the program id\<close>
  an_BN :: "rat \<Rightarrow> string + 64 word"
  an_rpc :: "string \<Rightarrow> string \<Rightarrow> anchor_args \<Rightarrow> 'w \<Rightarrow> (string + string) \<times> 'w"

definition anchor_keypair :: "'w anchor_env \<Rightarrow> string \<Rightarrow> string + string" where
  "anchor_keypair E path =
     (case an_files E path of
        None \<Rightarrow> Inl ''ENOENT''
      | Some content \<Rightarrow>
          (case JSON_parse content of
             None \<Rightarrow> Inl ''SyntaxError''
           | Some v \<Rightarrow> (case uint8_from (Some v) of None \<Rightarrow> Inl mistyped | Some secretKey \<Rightarrow> an_fromSecretKey E secretKey)))"

definition anchorReceipt :: "'w anchor_env \<Rightarrow> AnchorReceiptParams \<Rightarrow> ('w, string option) io" where
  "anchorReceipt E params = io_catch
     (io_bind (io_lift (an_import E)) (\<lambda>_.
        if \<not> str_truthy (an_keypairPath E) then io_return None
        else
          io_bind (io_lift (anchor_keypair E (the (an_keypairPath E)))) (\<lambda>payer.
          io_bind (io_lift (an_PublicKey E PROGRAM_ID_STR)) (\<lambda>programId.
          io_bind (io_lift (an_Program E programId)) (\<lambda>_.
          io_bind (io_lift (an_derive E [''receipt'', ap_jobId params])) (\<lambda>receiptPda.
          io_bind (io_lift (an_PublicKey E (ap_providerPubkey params))) (\<lambda>providerPk.
          io_bind (io_lift (an_BN E (ap_completedAt params))) (\<lambda>completedAt.
          io_bind (io_call (an_rpc E receiptPda payer
            \<lparr>aa_job_id = ap_jobId params, aa_receipt_hash = ap_receiptHash params,
             aa_provider_pubkey = providerPk, aa_completed_at = completedAt\<rparr>)) (\<lambda>txSig.
            io_return (Some txSig))))))))))
     (\<lambda>_. io_return None)"

definition rpc_runs :: "receipts anchor_env \<Rightarrow> bool" where
  "rpc_runs E \<longleftrightarrow> (\<forall>pda payer args L r L'. an_rpc E pda payer args L = (r, L') \<longrightarrow>
     (L' = L \<and> (\<exists>e. r = Inl e)) \<or> anchor_receipt (an_derive E) pda payer args L = Inr L')"

definition seeds_limited :: "(string list \<Rightarrow> string + string) \<Rightarrow> bool" where
  "seeds_limited derive \<longleftrightarrow> (\<forall>seeds. (\<exists>s \<in> set seeds. 32 < length s) \<longrightarrow> (\<exists>e. derive seeds = Inl e))"

text \<open>What one successful run of the program leaves: one new record, and no old one touched.\<close>

definition anchored_once :: "receipts anchor_env \<Rightarrow> AnchorReceiptParams \<Rightarrow> receipts \<Rightarrow> receipts \<Rightarrow> bool" where
  "anchored_once E params L L' \<longleftrightarrow>
     (\<exists>pda r. an_derive E [''receipt'', ap_jobId params] = Inr pda \<and> L pda = None \<and> L' = L(pda \<mapsto> r) \<and>
        rr_job_id r = ap_jobId params \<and> rr_receipt_hash r = ap_receiptHash params \<and>
        an_PublicKey E (ap_providerPubkey params) = Inr (rr_provider_pubkey r) \<and> record_bytes r \<le> SIZE)"

lemma anchor_receipt_once:
  assumes "anchor_receipt (an_derive E) pda payer \<lparr>aa_job_id = ap_jobId params, aa_receipt_hash = ap_receiptHash params,
      aa_provider_pubkey = pk, aa_completed_at = t\<rparr> L = Inr L'" and "an_PublicKey E (ap_providerPubkey params) = Inr pk"
  shows "anchored_once E params L L'"
  using assms unfolding anchor_receipt_ok anchored_once_def by (auto simp: record_bytes_def SIZE_def)

lemma rpc_runsD:
  "rpc_runs E \<Longrightarrow> an_rpc E pda payer args L = (r, L') \<Longrightarrow>
   (L' = L \<and> (\<exists>e. r = Inl e)) \<or> anchor_receipt (an_derive E) pda payer args L = Inr L'"
  unfolding rpc_runs_def by blast

lemma io_lift_catch:
  "io_catch (io_bind (io_lift r) f) h w =
     (case r of Inl e \<Rightarrow> h e w | Inr x \<Rightarrow> io_catch (f x) h w)"
  by (simp add: io_catch_def io_bind_def split: sum.split)

lemma anchorReceipt_cases:
  obtains (quiet) "anchorReceipt E params L = Some (Inr None, L)"
  | (sent) pda payer pk t r L' where "an_derive E [''receipt'', ap_jobId params] = Inr pda"
      "an_PublicKey E (ap_providerPubkey params) = Inr pk"
      "an_rpc E pda payer \<lparr>aa_job_id = ap_jobId params, aa_receipt_hash = ap_receiptHash params,
         aa_provider_pubkey = pk, aa_completed_at = t\<rparr> L = (r, L')"
      "anchorReceipt E params L = Some (Inr (case r of Inl _ \<Rightarrow> None | Inr s \<Rightarrow> Some s), L')"
proof (cases "\<exists>u payer i q pda pk t. an_import E = Inr u \<and> str_truthy (an_keypairPath E) \<and>
    anchor_keypair E (the (an_keypairPath E)) = Inr payer \<and> an_PublicKey E PROGRAM_ID_STR = Inr i \<and> an_Program E i = Inr q \<and>
    an_derive E [''receipt'', ap_jobId params] = Inr pda \<and> an_PublicKey E (ap_providerPubkey params) = Inr pk \<and>
    an_BN E (ap_completedAt params) = Inr t")
  case True
  then obtain u payer i q pda pk t where run: "an_import E = Inr u" "str_truthy (an_keypairPath E)"
      "anchor_keypair E (the (an_keypairPath E)) = Inr payer" "an_PublicKey E PROGRAM_ID_STR = Inr i" "an_Program E i = Inr q"
      "an_BN E (ap_completedAt params) = Inr t"
    and pda: "an_derive E [''receipt'', ap_jobId params] = Inr pda" and pk: "an_PublicKey E (ap_providerPubkey params) = Inr pk"
    by blast
  obtain r L' where rpc: "an_rpc E pda payer \<lparr>aa_job_id = ap_jobId params, aa_receipt_hash = ap_receiptHash params,
    aa_provider_pubkey = pk, aa_completed_at = t\<rparr> L = (r, L')" by fastforce
  show thesis
    by (rule sent [OF pda pk rpc]) (simp add: anchorReceipt_def io_lift_catch run pda pk io_catch_def io_bind_def rpc split: sum.split)
next
  case False
  have "io_catch (io_return None) h w = Some (Inr None, w)" for h w by (simp add: io_catch_def)
  with False show thesis
    by (intro quiet) (auto simp: anchorReceipt_def io_lift_catch split: sum.split)
qed

text \<open>C40. Anchoring a receipt never breaks the job: the call always returns and never raises. It changes the
  records of the program by at most one new record, for this job, with this hash and provider, within the
  space of the account, and never replaces an earlier one; a signature is returned only if that record was
  written. An identifier of more than 32 bytes, such as the 36 characters of a UUID, is longer than a seed
  of an address may be: its receipt is never anchored, although the program allows 64 characters.\<close>

theorem anchorReceipt_outcome:
  assumes "rpc_runs E" and "seeds_limited (an_derive E)"
  shows "\<exists>sig L'. anchorReceipt E params L = Some (Inr sig, L') \<and>
    (L' = L \<or> anchored_once E params L L') \<and> (sig \<noteq> None \<longrightarrow> anchored_once E params L L') \<and>
    (32 < length (ap_jobId params) \<longrightarrow> sig = None \<and> L' = L)"
proof (cases rule: anchorReceipt_cases [of E params L])
  case (sent pda payer pk t r L')
  from rpc_runsD [OF assms(1) sent(3)] have "(L' = L \<and> (\<exists>e. r = Inl e)) \<or> anchored_once E params L L'"
    using anchor_receipt_once [OF _ sent(2)] by blast
  moreover have "\<not> 32 < length (ap_jobId params)" using assms(2) sent(1)
    by (force simp: seeds_limited_def dest: spec [of _ "[''receipt'', ap_jobId params]"])
  ultimately show ?thesis using sent(4) by auto
qed simp

definition demo_anchor :: "receipts anchor_env" where
  "demo_anchor =
     (let derive = (\<lambda>seeds. if \<exists>s \<in> set seeds. 32 < length s then Inl ''Max seed length exceeded'' else Inr (concat seeds)) in
      \<lparr>an_import = Inr (), an_keypairPath = Some ''k'', an_files = [''k'' \<mapsto> ''[]''],
       an_fromSecretKey = Inr, an_PublicKey = Inr, an_Program = \<lambda>_. Inr (), an_derive = derive, an_BN = \<lambda>_. Inr 0,
       an_rpc = \<lambda>pda payer args L. (case anchor_receipt derive pda payer args L of
         Inl _ \<Rightarrow> (Inl ''simulation failed'', L) | Inr L' \<Rightarrow> (Inr ''sig'', L'))\<rparr>)"

definition demo_anchor_params :: "string \<Rightarrow> AnchorReceiptParams" where
  "demo_anchor_params job = \<lparr>ap_jobId = job, ap_providerPubkey = ''pk'', ap_receiptHash = ''hash'', ap_completedAt = 0\<rparr>"

lemma demo_anchor_hyps: "rpc_runs demo_anchor" "seeds_limited (an_derive demo_anchor)"
  by (auto simp: rpc_runs_def seeds_limited_def demo_anchor_def Let_def split: sum.splits)

theorem anchorReceipt_outcome_witness:
  "anchorReceipt demo_anchor (demo_anchor_params ''123e4567-e89b-12d3-a456-426614174000'') (\<lambda>_. None) = Some (Inr None, \<lambda>_. None) \<and>
   (\<exists>L'. anchorReceipt demo_anchor (demo_anchor_params ''job-1'') (\<lambda>_. None) = Some (Inr (Some ''sig''), L') \<and>
      anchored_once demo_anchor (demo_anchor_params ''job-1'') (\<lambda>_. None) L')"
proof
  show "anchorReceipt demo_anchor (demo_anchor_params ''123e4567-e89b-12d3-a456-426614174000'') (\<lambda>_. None) = Some (Inr None, \<lambda>_. None)"
    using anchorReceipt_outcome [OF demo_anchor_hyps, of "demo_anchor_params ''123e4567-e89b-12d3-a456-426614174000''" "\<lambda>_. None"]
    by (auto simp: demo_anchor_params_def)
  have "JSON_parse ''[]'' = Some (JArr [])" using JSON_parse_stringify [of int_text "JArr []"] by simp
  then have "\<exists>L'. anchorReceipt demo_anchor (demo_anchor_params ''job-1'') (\<lambda>_. None) = Some (Inr (Some ''sig''), L')"
    by (simp add: anchorReceipt_def demo_anchor_def demo_anchor_params_def str_truthy_def anchor_keypair_def uint8_from_def
      io_catch_def io_bind_def anchor_receipt_def AnchorReceipt_def)
  then show "\<exists>L'. anchorReceipt demo_anchor (demo_anchor_params ''job-1'') (\<lambda>_. None) = Some (Inr (Some ''sig''), L') \<and>
      anchored_once demo_anchor (demo_anchor_params ''job-1'') (\<lambda>_. None) L'"
    using anchorReceipt_outcome [OF demo_anchor_hyps, of "demo_anchor_params ''job-1''" "\<lambda>_. None"] by auto
qed

subsection \<open>\<open>ReceiptAnchor.sol\<close>\<close>

record receipt_contract =
  rc_anchored :: "256 word \<Rightarrow> bool"
  rc_events :: "(256 word \<times> 160 word \<times> 256 word) list" \<comment> \<open>\<open>ReceiptAnchored\<close>\<close>

definition anchor_call :: "160 word \<Rightarrow> 256 word \<Rightarrow> 256 word \<Rightarrow> receipt_contract \<Rightarrow> string + receipt_contract" where
  "anchor_call sender timestamp receiptHash s =
     (if rc_anchored s receiptHash then Inl ''Already anchored''
      else Inr (s\<lparr>rc_anchored := (rc_anchored s)(receiptHash := True),
                  rc_events := rc_events s @ [(receiptHash, sender, timestamp)]\<rparr>))"

definition isAnchored :: "256 word \<Rightarrow> receipt_contract \<Rightarrow> bool" where
  "isAnchored receiptHash s = rc_anchored s receiptHash"

definition contract_created :: receipt_contract where
  "contract_created = \<lparr>rc_anchored = \<lambda>_. False, rc_events = []\<rparr>"

inductive contract_step :: "receipt_contract \<Rightarrow> receipt_contract \<Rightarrow> bool" where
  contract_anchor: "anchor_call sender timestamp h s = Inr s' \<Longrightarrow> contract_step s s'"

definition contract_inv :: "receipt_contract \<Rightarrow> bool" where
  "contract_inv s \<longleftrightarrow> distinct (map fst (rc_events s)) \<and> (\<forall>h. isAnchored h s \<longleftrightarrow> h \<in> fst ` set (rc_events s))"

interpretation rcI: inductive_invariant "\<lambda>s. s = contract_created" contract_step contract_inv
proof
  show "contract_inv s" if "s = contract_created" for s
    using that by (simp add: contract_inv_def contract_created_def isAnchored_def)
  show "contract_inv s'" if "contract_inv s" and "contract_step s s'" for s s'
    using that by (auto simp: contract_inv_def anchor_call_def isAnchored_def elim!: contract_step.cases split: if_splits; force)
qed

text \<open>Each hash is announced once, and is anchored exactly when it was announced.\<close>

lemma anchored_once_per_hash:
  "reachable (\<lambda>s. s = contract_created) contract_step s \<Longrightarrow>
   distinct (map fst (rc_events s)) \<and> (isAnchored h s \<longleftrightarrow> h \<in> fst ` set (rc_events s))"
  using rcI.reachable_inv [of s] by (simp add: contract_inv_def)

subsection \<open>\<open>WrappedBolt.sol\<close>\<close>

record 'c open_zeppelin =
  oz_owner :: "'c \<Rightarrow> 160 word"
  oz_mint :: "160 word \<Rightarrow> 256 word \<Rightarrow> 'c \<Rightarrow> string + 'c"
  oz_burn :: "160 word \<Rightarrow> 256 word \<Rightarrow> 'c \<Rightarrow> string + 'c"

definition wbolt_mint :: "'c open_zeppelin \<Rightarrow> 160 word \<Rightarrow> 160 word \<Rightarrow> 256 word \<Rightarrow> 'c \<Rightarrow> string + 'c" where
  "wbolt_mint Z sender to amount s =
     (if oz_owner Z s \<noteq> sender then Inl ''OwnableUnauthorizedAccount'' else oz_mint Z to amount s)"

definition wbolt_burn :: "'c open_zeppelin \<Rightarrow> 160 word \<Rightarrow> 256 word \<Rightarrow> 'c \<Rightarrow> string + 'c" where
  "wbolt_burn Z sender amount s = oz_burn Z sender amount s"

definition wbolt_decimals :: "8 word" where
  "wbolt_decimals = 9"

text \<open>Only the owner adds to the supply, whatever the inherited code computes it to be.\<close>

lemma supply_grows_by_owner:
  assumes "\<And>a n s s'. oz_burn Z a n s = Inr s' \<Longrightarrow> supply s' \<le> supply s"
    and "wbolt_mint Z sender to amount s = Inr s' \<or> wbolt_burn Z sender amount s = Inr s'"
    and "(supply s :: int) < supply s'"
  shows "oz_owner Z s = sender"
  using assms(2,3) assms(1) [of sender amount s s'] by (auto simp: wbolt_mint_def wbolt_burn_def split: if_splits)

end
