(* ===== verification/Spec2Isabelle.thy ===== *)
theory Spec2Isabelle
  imports MobileWallet Chains Anchor
begin

text \<open>
  Verification of Dispatch, a network that sells computation. Clients commit jobs to a coordinator over
  HTTP; workers (a desktop program, a command line program, a mobile app and a simulated phone) hold a
  WebSocket to it, execute jobs and sign receipts; the coordinator matches jobs with workers, stores results
  and queues token payouts. There is one coordinator for Solana and one for Monad; both run the same core.

  \<^bold>\<open>Theories and sources.\<close> Paths are below \<open>src/\<close>; definitions keep the names of the functions they model.

  \<^item> \<open>Prelude\<close>: JavaScript maps as association lists, results with an error, reachability, and the locale
    \<open>inductive_invariant\<close> that every state machine interprets.
  \<^item> \<open>Json\<close>, \<open>JsonParse\<close>, \<open>JsString\<close>, \<open>JsUrl\<close>, \<open>Codec\<close>: what the program uses of the language library: JSON text in
    both directions, strings, URLs, hexadecimal and base 64.
  \<^item> \<open>Protocol\<close>: \<open>packages/protocol\<close>, the enums, prices, stake tiers and messages.
  \<^item> \<open>Db\<close>, \<open>Hub\<close>, \<open>Jobs\<close>, \<open>Routes\<close>: \<open>apps/coordinator-core/src\<close> \<open>db.ts\<close>, \<open>ws/workerHub.ts\<close>, \<open>routes/jobs.ts\<close> and the other
    routes, \<open>config.ts\<close> and \<open>x402.ts\<close>. The state is the record of the hub with its tables; a handler maps the
    state and a message to a new state or an exception.
  \<^item> \<open>Payouts\<close>, \<open>BoltDist\<close>, \<open>WBoltDist\<close>: \<open>bolt/BoltDistributor.ts\<close> and \<open>bolt/WrappedBoltDistributor.ts\<close>. An asynchronous
    method is cut at each \<open>await\<close>, and the pieces are steps that interleave with all others. The locale
    \<open>payout_ledger\<close> is the contract both satisfy.
  \<^item> \<open>Coordinator\<close>, \<open>HubInv\<close>, \<open>CoordInv\<close>: \<open>server.ts\<close> and the step relation of the whole coordinator, the invariants of
    hub and coordinator, and that every step keeps them.
  \<^item> \<open>Executors\<close>, \<open>Signing\<close>, \<open>Workers\<close>: \<open>apps/worker-desktop\<close>, \<open>apps/seeker-simulator\<close>, \<open>packages/cli/src/lib\<close>
    (\<open>worker-runtime.ts\<close>, \<open>keys.ts\<close>) and the mobile executor, keys and receipts. The locales \<open>task_executor\<close> and
    \<open>signing_provider\<close> are interpreted on each implementation.
  \<^item> \<open>MobileWs\<close>, \<open>MobileWallet\<close>: \<open>mobile/seeker-solana/src\<close>, the WebSocket service and the wallet context.
  \<^item> \<open>Router\<close>: \<open>packages/compute-router\<close>; the locale \<open>compute_adapter\<close> is interpreted on its three adapters.
  \<^item> \<open>Cli\<close>: \<open>packages/cli/src\<close>, arguments, configuration file, HTTP client and commands.
  \<^item> \<open>Settlement\<close>: \<open>packages/bolt\<close> and \<open>bolt-settlement.ts\<close>, with the rounding of double precision numbers.
  \<^item> \<open>Erc8004\<close>, \<open>Chains\<close>: \<open>packages/erc8004\<close>, the two coordinator programs \<open>apps/coordinator-monad\<close> and
    \<open>apps/coordinator-solana\<close>, and the command \<open>dispatch worker register\<close>.
  \<^item> \<open>Anchor\<close>: \<open>chain/receiptAnchorer.ts\<close>, the Solana program \<open>receipt_anchor\<close>, and the contracts of \<open>chain/monad\<close>.

  \<^bold>\<open>What is shown.\<close> For the coordinator, in every reachable state: workers, active jobs and assigned rows agree;
  a job is queued for payout at most once, after its completion, for the worker of its row; private jobs go only to
  trusted workers; every job follows its lifecycle; a rejected job is never taken up again (this theory and
  \<open>CoordInv\<close>). For the hub and the routes: the choice of a worker is optimal, pruning is exact, completions are
  atomic, pairing codes work once, retry loops end, scores are bounded, and how quotes differ from charges. For
  the distributors: jobs and amounts are conserved over all interleavings, and payments are not doubled when
  failed sends do not land. For the workers: executors agree, keys and histories survive a restart, completions are
  sent once and accepted, and where jobs or sockets are lost. For the clients: the router returns, arguments are typed,
  the configuration written is the one loaded, errors are the ones stated. For the chains: fees agree, the
  transaction queue refines a server with a waiting line, and which receipts can be anchored.

  \<^bold>\<open>Conventions.\<close> Numbers are rationals, except in \<open>Settlement\<close> (rounded to 53 bits) and \<open>Anchor\<close> (words); time is an
  integer of milliseconds, passed in like random identifiers. Strings are their UTF-8 bytes. Code outside the
  repository (cryptography, wallets, RPC and HTTP libraries, the x402 client, viem, Solana's libraries, OpenZeppelin)
  is a record of functions, and theorems state what they assume of it. Effects are functions on a world
  of any type that return \<open>None\<close> when they do not end.

  \<^bold>\<open>Bounds and fuel.\<close> \<open>JSON_parse\<close> has two units of fuel for every character of its input, and \<open>JsonParse\<close> shows
  that more gives the same result. The polling loops of \<open>Router\<close> and \<open>Cli\<close> are partial functions: not ending is
  \<open>None\<close>, and that the router's ends is proved from a clock that advances. The search for an agent and
  the feedback retries have the constant bounds of the source (31 and 3). All other recursions are structural.

  \<^bold>\<open>Not modelled.\<close> The HTML of the dashboard, log lines, colours and spinners: output only. The servers of Express
  and \<open>ws\<close>, the x402 middleware and SQLite itself: libraries, represented by the handlers they call and the
  constraints of the tables. The screens and components of the mobile app, the landing and documentation sites:
  rendering. The demo program, \<open>find-agent.ts\<close>, \<open>scripts/\<close>, the deployment scripts and the document generator:
  run by hand, outside the running network. ABI tables and re-exports: data for libraries. The option
  declarations of \<open>cli.ts\<close>: calls of a library.
\<close>

section \<open>Properties of the whole coordinator\<close>

subsection \<open>A concrete run\<close>

text \<open>A worker connects and registers, a job is committed and assigned to it, and the worker
  completes it with a receipt. The states of this run serve as concrete inputs below.\<close>

definition demo_X :: hub_env where
  "demo_X = \<lparr>x_verify = \<lambda>_ _ _. Some True, x_pkError = \<lambda>_. None\<rparr>"

definition demo_c0 :: coordinator where
  "demo_c0 = createServer (createDb None) None False (Some (bolt_new None None)) None"

definition demo_c1 :: coordinator where
  "demo_c1 = demo_c0\<lparr>c_hub := handleConnection 1 (c_hub demo_c0)\<rparr>"

definition demo_register :: inbound where
  "demo_register = KnownMsg (Register \<lparr>reg_provider_pubkey = ''ab'', reg_provider_type = SEEKER,
     reg_capabilities = [TASK], reg_pricing_hint = None\<rparr>)"

definition demo_c2 :: coordinator where
  "demo_c2 = demo_c1\<lparr>c_hub := (case hub_onMessage demo_X 0 ''w1'' 1 demo_register (c_hub demo_c1) of
     Inr h \<Rightarrow> h | Inl _ \<Rightarrow> c_hub demo_c1), c_used := [''w1'']\<rparr>"

definition demo_body :: commit_body where
  "demo_body = \<lparr>cb_job_type = Some ''TASK'', cb_payload = JObj [(''input'', JStr ''x'')],
     cb_privacy_class = None, cb_user_id = Some ''alice''\<rparr>"

definition demo_c3 :: coordinator where
  "demo_c3 = demo_c2\<lparr>c_hub := (case handleCommit 0 ''j1'' CHEAP demo_body (c_hub demo_c2) of
     Inr (_, h, _) \<Rightarrow> h | Inl _ \<Rightarrow> c_hub demo_c2), c_used := [''j1'', ''w1'']\<rparr>"

definition demo_complete :: inbound where
  "demo_complete = KnownMsg (JobComplete \<lparr>jc_job_id = ''j1'', jc_output = JNull, jc_output_hash = '''',
     jc_receipt = None, jc_receipt_signature = None\<rparr>)"

definition demo_c4 :: coordinator where
  "demo_c4 = demo_c3\<lparr>c_hub := (case hub_onMessage demo_X 0 ''r1'' 1 demo_complete (c_hub demo_c3) of
     Inr h \<Rightarrow> h | Inl _ \<Rightarrow> c_hub demo_c3), c_used := [''r1'', ''j1'', ''w1'']\<rparr>"

lemmas demo_eval = demo_X_def demo_c0_def demo_c1_def demo_register_def demo_c2_def demo_body_def demo_c3_def
  demo_complete_def demo_c4_def createServer_def hub_new_def createDb_def handleConnection_def hub_onMessage_def
  handleRegister_def ws_send_def handleCommit_def commit_valid_def insert_job_def new_job_row_def str_truthy_def
  jobtype_of_string_def claimWorker_def claim_candidates_def modify_worker_def dispatch_job_def assignJob_def
  sql_assign_job_def update_job_def bolt_new_def sql_now_def

definition demo_row :: job_row where
  "demo_row = \<lparr>j_id = ''j1'', j_type = TASK, j_policy = CHEAP, j_privacy_class = PUBLIC, j_user_id = ''alice'',
     j_status = ASSIGNED, j_payload = JObj [(''input'', JStr ''x'')], j_result = None,
     j_worker_pubkey = Some ''ab'', j_created_at = 0, j_completed_at = None\<rparr>"

lemma demo_c3_eval:
  "\<exists>resp. handleCommit 0 ''j1'' CHEAP demo_body (c_hub demo_c2) = Inr (resp, c_hub demo_c3, None)"
  "h_conns (c_hub demo_c3) = [(1, Some ''w1'')]"
  "h_workers (c_hub demo_c3) = [(''w1'', \<lparr>w_id = ''w1'', w_ws = 1, w_pubkey = ''ab'', w_type = SEEKER,
     w_capabilities = [TASK], w_status = Busy, w_lastHeartbeat = 0, w_activeJobId = Some ''j1'',
     w_reputationScore = None, w_stakeLevel = None\<rparr>)]"
  "db_jobs (h_db (c_hub demo_c3)) = [demo_row]" "c_used demo_c3 = [''j1'', ''w1'']"
  by (simp_all add: demo_eval demo_row_def)

lemma demo_c4_eval: "hub_onMessage demo_X 0 ''r1'' 1 demo_complete (c_hub demo_c3) = Inr (c_hub demo_c4)"
  by (simp add: demo_c4_def demo_complete_def hub_onMessage_def handleJobComplete_def complete_txn_def
      split: option.splits)

lemma demo_c2_reachable: "co_reachable demo_X False demo_c2"
proof -
  have "co_init demo_c0" unfolding co_init_def demo_c0_def by blast
  then have 0: "co_reachable demo_X False demo_c0" by (rule reach_init)
  have "co_step demo_X False demo_c0 demo_c1"
    unfolding demo_c1_def by (rule step_connect) (simp add: demo_eval)
  with 0 have 1: "co_reachable demo_X False demo_c1" by (rule reach_step)
  have "co_step demo_X False demo_c1 (demo_c1\<lparr>c_hub := c_hub demo_c2, c_used := ''w1'' # c_used demo_c1\<rparr>)"
    by (rule step_message [where ws = 1 and now = 0 and m = demo_register])
      (simp_all add: demo_eval uuid_ok_def is_demo_def startsWith_def)
  moreover have "demo_c1\<lparr>c_hub := c_hub demo_c2, c_used := ''w1'' # c_used demo_c1\<rparr> = demo_c2"
    by (simp add: demo_eval)
  ultimately show ?thesis using 1 by (metis reach_step)
qed

lemma demo_c3_reachable: "co_reachable demo_X False demo_c3"
proof -
  obtain resp where ok: "handleCommit 0 ''j1'' CHEAP demo_body (c_hub demo_c2) = Inr (resp, c_hub demo_c3, None)"
    using demo_c3_eval(1) by blast
  have "co_step demo_X False demo_c2 (demo_c2\<lparr>c_hub := c_hub demo_c3, c_used := ''j1'' # c_used demo_c2,
      c_retry := c_retry demo_c2 @ (case None of Some l \<Rightarrow> [l] | None \<Rightarrow> [])\<rparr>)"
    by (rule step_commit [OF _ _ ok])
      (simp_all add: demo_c2_def uuid_ok_def is_demo_def startsWith_def)
  moreover have "demo_c2\<lparr>c_hub := c_hub demo_c3, c_used := ''j1'' # c_used demo_c2,
      c_retry := c_retry demo_c2 @ (case None of Some l \<Rightarrow> [l] | None \<Rightarrow> [])\<rparr> = demo_c3"
    by (simp add: demo_c3_def demo_c2_def)
  ultimately show ?thesis using demo_c2_reachable by (metis reach_step)
qed

lemma demo_c4_step: "co_step demo_X False demo_c3 demo_c4"
proof -
  have "co_step demo_X False demo_c3 (demo_c3\<lparr>c_hub := c_hub demo_c4, c_used := ''r1'' # c_used demo_c3\<rparr>)"
    by (rule step_message [OF _ _ demo_c4_eval])
      (simp_all add: demo_c3_eval uuid_ok_def is_demo_def startsWith_def)
  moreover have "demo_c3\<lparr>c_hub := c_hub demo_c4, c_used := ''r1'' # c_used demo_c3\<rparr> = demo_c4"
    by (simp add: demo_c4_def demo_c3_eval)
  ultimately show ?thesis by simp
qed

lemma demo_c4_reachable: "co_reachable demo_X False demo_c4"
  using demo_c3_reachable demo_c4_step by (rule reach_step)

subsection \<open>Assignments\<close>



text \<open>C3. PRIVATE jobs stay with trusted workers. In every reachable state a PRIVATE job that
  has, or had when it ended, a worker has one that holds a claimed pairing with the job's user.\<close>

theorem private_jobs_trusted:
  assumes "co_reachable X lands c" and "r \<in> set (db_jobs (h_db (c_hub c)))"
    and "j_privacy_class r = PRIVATE" and "j_worker_pubkey r = Some pk"
  shows "\<exists>p \<in> set (db_pairings (h_db (c_hub c))). t_user_id p = j_user_id r \<and> t_claimed p \<and> t_provider_pubkey p = Some pk"
proof -
  have "hub_inv (c_hub c)" using coI.reachable_inv [OF assms(1)] by (simp add: co_inv_def)
  moreover from this have "select_job (j_id r) (h_db (c_hub c)) = Some r"
    using assms(2) by (intro select_job_mem) (simp_all add: hub_inv_def)
  ultimately show ?thesis using assms(3,4) by (auto simp: hub_inv_def jobs_ok_def trusted_def)
qed

definition demo_p1 :: coordinator where
  "demo_p1 = demo_c2\<lparr>c_hub := (c_hub demo_c2)\<lparr>h_db :=
     (case trust_create (\<lambda>_. []) 0 ''t1'' ''A1B2C3'' (Some ''alice'') (h_db (c_hub demo_c2)) of
        Inr (_, db) \<Rightarrow> db | Inl _ \<Rightarrow> h_db (c_hub demo_c2))\<rparr>, c_used := [''t1'', ''w1'']\<rparr>"

definition demo_p2 :: coordinator where
  "demo_p2 = demo_p1\<lparr>c_hub := (c_hub demo_p1)\<lparr>h_db :=
     snd (trust_claim (\<lambda>_. []) 0 (Some ''A1B2C3'') (Some ''ab'') (h_db (c_hub demo_p1)))\<rparr>\<rparr>"

definition demo_p3 :: coordinator where
  "demo_p3 = demo_p2\<lparr>c_hub :=
     (case handleCommit 0 ''j1'' CHEAP (demo_body\<lparr>cb_privacy_class := Some ''PRIVATE''\<rparr>) (c_hub demo_p2) of
        Inr (_, h, _) \<Rightarrow> h | Inl _ \<Rightarrow> c_hub demo_p2), c_used := [''j1'', ''t1'', ''w1'']\<rparr>"

lemmas demo_p_eval = demo_p1_def demo_p2_def demo_p3_def trust_create_def trust_claim_def insert_pairing_def
  select_pairing_def sql_claim_pairing_def select_trusted_def privacy_of_string_def PAIRING_TTL_MS_def

lemma demo_p3_eval:
  "\<exists>resp. trust_create (\<lambda>_. []) 0 ''t1'' ''A1B2C3'' (Some ''alice'') (h_db (c_hub demo_c2)) = Inr (resp, h_db (c_hub demo_p1))"
  "\<exists>resp. handleCommit 0 ''j1'' CHEAP (demo_body\<lparr>cb_privacy_class := Some ''PRIVATE''\<rparr>) (c_hub demo_p2)
     = Inr (resp, c_hub demo_p3, None)"
  "db_jobs (h_db (c_hub demo_p3)) = [demo_row\<lparr>j_privacy_class := PRIVATE\<rparr>]"
  by (simp_all add: demo_p_eval demo_eval demo_row_def)

lemma demo_p_fields:
  "c_used demo_p1 = [''t1'', ''w1'']" "c_used demo_p2 = [''t1'', ''w1'']" "c_retry demo_p2 = c_retry demo_p1"
  "c_retry demo_p1 = c_retry demo_c2" "c_used demo_c2 = [''w1'']"
  by (simp_all add: demo_p1_def demo_p2_def demo_c2_def)

lemma demo_p1_step: "co_step demo_X False demo_c2 demo_p1"
proof -
  obtain r where ok: "trust_create (\<lambda>_. []) 0 ''t1'' ''A1B2C3'' (Some ''alice'') (h_db (c_hub demo_c2)) = Inr (r, h_db (c_hub demo_p1))"
    using demo_p3_eval(1) by blast
  have "uuid_ok ''t1'' demo_c2" by (simp add: uuid_ok_def demo_p_fields is_demo_def startsWith_def)
  from step_trust_create [OF this ok, of demo_X False]
  have "co_step demo_X False demo_c2 (demo_c2\<lparr>c_hub := (c_hub demo_c2)\<lparr>h_db := h_db (c_hub demo_p1)\<rparr>, c_used := ''t1'' # c_used demo_c2\<rparr>)" .
  moreover have "demo_c2\<lparr>c_hub := (c_hub demo_c2)\<lparr>h_db := h_db (c_hub demo_p1)\<rparr>, c_used := ''t1'' # c_used demo_c2\<rparr> = demo_p1"
    by (simp add: demo_p1_def demo_p_fields(5))
  ultimately show ?thesis by (simp only:)
qed

lemma demo_p3_step: "co_step demo_X False demo_p2 demo_p3"
proof -
  obtain r where ok: "handleCommit 0 ''j1'' CHEAP (demo_body\<lparr>cb_privacy_class := Some ''PRIVATE''\<rparr>) (c_hub demo_p2)
      = Inr (r, c_hub demo_p3, None)"
    using demo_p3_eval(2) by blast
  have u: "uuid_ok ''j1'' demo_p2" by (simp add: uuid_ok_def demo_p_fields is_demo_def startsWith_def)
  have "co_step demo_X False demo_p2 (demo_p2\<lparr>c_hub := c_hub demo_p3, c_used := ''j1'' # c_used demo_p2,
      c_retry := c_retry demo_p2 @ (case None of Some l \<Rightarrow> [l] | None \<Rightarrow> [])\<rparr>)"
    by (rule step_commit [OF _ u ok]) simp
  then show ?thesis by (simp add: demo_p_fields(2) demo_p3_def)
qed

lemma demo_p3_reachable: "co_reachable demo_X False demo_p3"
proof -
  have "co_step demo_X False demo_p1 demo_p2"
    unfolding demo_p2_def by (rule step_trust_claim) (rule surjective_pairing)
  from reach_step [OF reach_step [OF demo_c2_reachable demo_p1_step] this] demo_p3_step
  show ?thesis by (rule reach_step)
qed

theorem private_jobs_trusted_witness:
  "\<exists>p \<in> set (db_pairings (h_db (c_hub demo_p3))). t_user_id p = ''alice'' \<and> t_claimed p \<and> t_provider_pubkey p = Some ''ab''"
  using private_jobs_trusted [OF demo_p3_reachable, of "demo_row\<lparr>j_privacy_class := PRIVATE\<rparr>" "''ab''"]
  by (simp add: demo_p3_eval) (simp add: demo_row_def)

subsection \<open>Payments\<close>

text \<open>C2. A job is paid at most once, and only after it was completed. In every reachable state
  the distributor holds (pending, in flight, settled or given up) each job at most once over all
  workers; a job it holds is no longer running anywhere, and a real one has a row that is completed
  and names the very worker that is paid.\<close>

theorem jobs_paid_once:
  assumes "co_reachable X lands c" and "h_bolt (c_hub c) = Some b"
  shows "(\<forall>j. count (image_mset snd (bolt_account b)) j \<le> 1) \<and>
    (\<forall>w j. (w, j) \<in># bolt_account b \<longrightarrow>
       (\<forall>k v. map_of (h_workers (c_hub c)) k = Some v \<longrightarrow> w_activeJobId v \<noteq> Some j) \<and>
       (\<not> is_demo j \<longrightarrow> (\<exists>r \<in> set (db_jobs (h_db (c_hub c))). j_id r = j \<and> j_status r = COMPLETED \<and> j_worker_pubkey r = Some w)))"
proof -
  have "paid_ok (c_used c) (bolt_account b) (c_hub c)"
    using coI.reachable_inv [OF assms(1)] assms(2) by (simp add: co_inv_def paid_bolt_def)
  then have paid: "\<forall>j. count (image_mset snd (bolt_account b)) j \<le> 1"
    "\<And>w j. (w, j) \<in># bolt_account b \<Longrightarrow> \<not> running (c_hub c) j \<and> (\<not> is_demo j \<longrightarrow> completed_by (c_hub c) j w)"
    unfolding paid_ok_def by auto
  have "\<exists>r \<in> set (db_jobs (h_db (c_hub c))). j_id r = j \<and> j_status r = COMPLETED \<and> j_worker_pubkey r = Some w"
    if "completed_by (c_hub c) j w" for w j
    using that select_job_Some by (fastforce simp: completed_by_def)
  then show ?thesis using paid unfolding running_def runs_def by blast
qed

lemma demo_c4_bolt: "\<exists>b. h_bolt (c_hub demo_c4) = Some b \<and> bolt_account b = {#(''ab'', ''j1'')#}"
proof -
  have "h_bolt (c_hub demo_c3) = Some (bolt_new None None)"
    by (simp add: demo_eval)
  then have "h_bolt (c_hub demo_c4) = Some (bolt_queuePayout (\<lambda>_. None) ''ab'' ''j1'' (1 / 1000) (bolt_new None None))"
    by (simp add: demo_c4_def demo_complete_def hub_onMessage_def handleJobComplete_def complete_txn_def
        findByActiveJob_def demo_c3_eval is_demo_def startsWith_def queue_payouts_def call_postFeedback_def demo_X_def)
  then show ?thesis
    using bolt_queuePayout_ledger(1) [OF bolt_new_facts(1)] by (simp add: bolt_new_facts)
qed

theorem jobs_paid_once_witness:
  "\<exists>r \<in> set (db_jobs (h_db (c_hub demo_c4))). j_id r = ''j1'' \<and> j_status r = COMPLETED \<and> j_worker_pubkey r = Some ''ab''"
proof -
  obtain b where "h_bolt (c_hub demo_c4) = Some b" "bolt_account b = {#(''ab'', ''j1'')#}" using demo_c4_bolt by blast
  then show ?thesis
    using jobs_paid_once [OF demo_c4_reachable] by (simp add: is_demo_def startsWith_def)
qed

subsection \<open>The life of a job\<close>



text \<open>C8. A rejected job is lost. When the worker that runs a real job rejects it, the job goes
  back to pending with no retry loop, and in every state the coordinator can reach from there it is
  still pending: no later event assigns, completes or fails it.\<close>

theorem rejected_job_stays_pending:
  assumes "co_reachable X lands c" and "findByActiveJob j (c_hub c) = Some w" and "\<not> is_demo j"
    and "hub_onMessage X now u ws (KnownMsg (JobReject \<lparr>jr_job_id = j, jr_reason = reason\<rparr>)) (c_hub c) = Inr h'"
    and "ws \<in> fst ` set (h_conns (c_hub c))" and "uuid_ok u c"
    and "(co_step X lands)\<^sup>*\<^sup>* (c\<lparr>c_hub := h', c_used := u # c_used c\<rparr>) c'"
  shows "job_status j c' = Some PENDING"
proof -
  let ?c = "c\<lparr>c_hub := h', c_used := u # c_used c\<rparr>"
  have inv: "co_inv c" by (rule coI.reachable_inv [OF assms(1)])
  have "co_inv ?c" by (rule co_inv_message [OF inv assms(6,4)])
  moreover have "stuck j ?c"
    by (rule reject_stuck [OF inv assms(2,3)]) (use assms(4) in \<open>auto simp: hub_onMessage_def\<close>)
  ultimately have "stuck j c'" using stuck_forever [OF assms(7)] by blast
  then show ?thesis by (simp add: stuck_def)
qed

theorem rejected_job_stays_pending_witness:
  "job_status ''j1'' (demo_c3\<lparr>c_hub := handleJobReject \<lparr>jr_job_id = ''j1'', jr_reason = ''busy''\<rparr> (c_hub demo_c3),
     c_used := ''r1'' # c_used demo_c3\<rparr>) = Some PENDING"
proof -
  obtain w where "findByActiveJob ''j1'' (c_hub demo_c3) = Some w"
    by (simp add: findByActiveJob_def demo_c3_eval)
  moreover have "hub_onMessage demo_X 0 ''r1'' 1 (KnownMsg (JobReject \<lparr>jr_job_id = ''j1'', jr_reason = ''busy''\<rparr>))
      (c_hub demo_c3) = Inr (handleJobReject \<lparr>jr_job_id = ''j1'', jr_reason = ''busy''\<rparr> (c_hub demo_c3))"
    by (simp add: hub_onMessage_def)
  moreover have "\<not> is_demo ''j1''" "uuid_ok ''r1'' demo_c3" "1 \<in> fst ` set (h_conns (c_hub demo_c3))"
    by (simp_all add: is_demo_def startsWith_def uuid_ok_def demo_c3_eval)
  ultimately show ?thesis
    using rejected_job_stays_pending [OF demo_c3_reachable _ _ _ _ _ rtranclp.rtrancl_refl] by blast
qed

end
